(* ===== verification/Prelude.thy ===== *)
theory Prelude
  imports Main "HOL-Library.AList" "HOL-Library.List_Lexorder" "HOL-Library.Char_ord"
    "HOL-Library.Word"
begin

text \<open>
  Shared vocabulary of the development: machine integers, Go maps as association lists with
  their interface, loops that stop at the first error, Go error values, and the string
  functions of the standard library that the operator uses.
\<close>

named_theorems lookup_simps \<open>reading a key back from a map built by assignments\<close>
named_theorems check_simps \<open>when a chain of checks accepts\<close>

section \<open>Machine integers\<close>

type_synonym int32 = "32 word"
type_synonym int64 = "64 word"

text \<open>The conversion \<open>int64(x)\<close> of an \<open>int32\<close> sign-extends.\<close>

definition to_int64 :: "int32 \<Rightarrow> int64" where
  "to_int64 x = scast x"

lemma sint_to_int64 [simp]: "sint (to_int64 x) = sint x"
  unfolding to_int64_def by (rule sint_up_scast) (simp add: is_up)

lemma to_int64_eq_0_iff [simp]: "to_int64 x = 0 \<longleftrightarrow> x = 0"
  by (metis sint_0 sint_to_int64 signed_word_eqI)

section \<open>Go maps\<close>

text \<open>
  A Go map is an association list with distinct keys. Assignment overwrites in place or
  appends, \<open>delete\<close> removes, \<open>len\<close> counts the entries. A \<open>range\<close> loop
  visits the entries in an order the runtime picks; where that order can be observed the
  model takes it as a parameter.
\<close>

type_synonym ('k, 'v) gomap = "('k \<times> 'v) list"
type_synonym 'v smap = "(string, 'v) gomap"

definition go_get :: "('k, 'v) gomap \<Rightarrow> 'k \<Rightarrow> 'v option" where
  "go_get m k = map_of m k"

definition go_set :: "('k, 'v) gomap \<Rightarrow> 'k \<Rightarrow> 'v \<Rightarrow> ('k, 'v) gomap" where
  "go_set m k v = AList.update k v m"

definition go_delete :: "('k, 'v) gomap \<Rightarrow> 'k \<Rightarrow> ('k, 'v) gomap" where
  "go_delete m k = AList.delete k m"

definition go_has :: "('k, 'v) gomap \<Rightarrow> 'k \<Rightarrow> bool" where
  "go_has m k = (go_get m k \<noteq> None)"

definition wf_map :: "('k, 'v) gomap \<Rightarrow> bool" where
  "wf_map m = distinct (map fst m)"

text \<open>The interface the clients of a map rely on.\<close>

locale map_ops =
  fixes empty :: "'m"
    and get :: "'m \<Rightarrow> 'k \<Rightarrow> 'v option"
    and put :: "'m \<Rightarrow> 'k \<Rightarrow> 'v \<Rightarrow> 'm"
    and del :: "'m \<Rightarrow> 'k \<Rightarrow> 'm"
    and inv :: "'m \<Rightarrow> bool"
  assumes get_empty: "get empty k = None"
    and get_put: "get (put m k v) k' = (if k = k' then Some v else get m k')"
    and get_del: "get (del m k) k' = (if k = k' then None else get m k')"
    and inv_empty: "inv empty"
    and inv_put: "inv m \<Longrightarrow> inv (put m k v)"
    and inv_del: "inv m \<Longrightarrow> inv (del m k)"
begin

lemma put_overwrites: "get (put (put m k v) k w) k' = get (put m k w) k'"
  by (simp add: get_put)

lemma put_commutes: "k \<noteq> l \<Longrightarrow> get (put (put m k v) l w) j = get (put (put m l w) k v) j"
  by (auto simp: get_put)

lemma fold_put_other:
  "k \<notin> key ` set xs \<Longrightarrow> get (fold (\<lambda>x m. put m (key x) (val x)) xs m) k = get m k"
  by (induction xs arbitrary: m) (auto simp: get_put)

lemma fold_put:
  assumes "distinct (map key xs)" and "x \<in> set xs"
  shows "get (fold (\<lambda>x m. put m (key x) (val x)) xs m) (key x) = Some (val x)"
  using assms
proof (induction xs arbitrary: m)
  case Nil
  then show ?case by simp
next
  case (Cons y xs)
  show ?case
  proof (cases "x = y")
    case True
    with Cons.prems have "key x \<notin> key ` set xs" by auto
    then show ?thesis using True by (simp add: fold_put_other get_put)
  next
    case False
    with Cons show ?thesis by simp
  qed
qed

lemma inv_fold_put: "inv m \<Longrightarrow> inv (fold (\<lambda>x m. put m (key x) (val x)) xs m)"
  by (induction xs arbitrary: m) (auto intro: inv_put)

end

interpretation gm: map_ops "[]" go_get go_set go_delete wf_map
proof
  show "go_get [] k = None" for k :: 'a
    by (simp add: go_get_def)
  show "go_get (go_set m k v) k' = (if k = k' then Some v else go_get m k')"
    for m :: "('a, 'b) gomap" and k k' v
    by (simp add: go_get_def go_set_def update_conv')
  show "go_get (go_delete m k) k' = (if k = k' then None else go_get m k')"
    for m :: "('a, 'b) gomap" and k k'
    by (simp add: go_get_def go_delete_def delete_conv')
  show "wf_map ([] :: ('a, 'b) gomap)"
    by (simp add: wf_map_def)
  show "wf_map (go_set m k v)" if "wf_map m" for m :: "('a, 'b) gomap" and k v
    using that by (simp add: wf_map_def go_set_def distinct_update)
  show "wf_map (go_delete m k)" if "wf_map m" for m :: "('a, 'b) gomap" and k
    using that by (simp add: wf_map_def go_delete_def distinct_delete)
qed

lemmas go_map_lookup [simp, lookup_simps] = gm.get_empty gm.get_put gm.get_del

lemma go_set_not_empty [simp]: "go_set m k v \<noteq> []"
  by (cases m) (auto simp: go_set_def)

lemma go_get_in: "wf_map m \<Longrightarrow> (k, v) \<in> set m \<Longrightarrow> go_get m k = Some v"
  by (simp add: go_get_def wf_map_def)

lemma go_get_mem: "go_get m k = Some v \<Longrightarrow> (k, v) \<in> set m"
  by (auto simp: go_get_def dest: map_of_SomeD)

lemma go_get_key: "k \<in> fst ` set m \<longleftrightarrow> go_get m k \<noteq> None"
  by (simp add: go_get_def map_of_eq_None_iff)

lemma go_has_set [simp]: "go_has (go_set m k v) k' \<longleftrightarrow> k = k' \<or> go_has m k'"
  by (simp add: go_has_def)

lemma go_has_empty [simp]: "\<not> go_has [] k"
  by (simp add: go_has_def)

lemma go_has_fold_set:
  "go_has (fold (\<lambda>x m. go_set m (key x) (val x)) xs m) k \<longleftrightarrow> k \<in> key ` set xs \<or> go_has m k"
  by (induction xs arbitrary: m) auto

section \<open>Loops that return the first error\<close>

text \<open>
  An error result is an \<open>option\<close>: \<open>None\<close> is Go's nil error. A loop whose body
  returns early on an error is \<open>check_all\<close>.
\<close>

primrec check_all :: "('a \<Rightarrow> 'e option) \<Rightarrow> 'a list \<Rightarrow> 'e option" where
  "check_all f [] = None"
| "check_all f (x # xs) = (case f x of Some e \<Rightarrow> Some e | None \<Rightarrow> check_all f xs)"

lemma check_all_None [check_simps]: "check_all f xs = None \<longleftrightarrow> (\<forall>x \<in> set xs. f x = None)"
  by (induction xs) (auto split: option.splits)

lemma then_check_None [check_simps]:
  "(case x of None \<Rightarrow> y | Some e \<Rightarrow> Some e) = None \<longleftrightarrow> x = None \<and> y = None"
  by (simp split: option.split)

lemma if_check_None [check_simps]:
  "(if b then x else y) = None \<longleftrightarrow> (b \<longrightarrow> x = None) \<and> (\<not> b \<longrightarrow> y = None)"
  by simp

lemma check_all_Some:
  "check_all f xs = Some e \<longleftrightarrow>
     (\<exists>ys x zs. xs = ys @ x # zs \<and> (\<forall>y \<in> set ys. f y = None) \<and> f x = Some e)"
proof (induction xs)
  case Nil
  then show ?case by simp
next
  case (Cons a xs)
  show ?case
  proof (cases "f a")
    case None
    have "(\<exists>ys x zs. a # xs = ys @ x # zs \<and> (\<forall>y \<in> set ys. f y = None) \<and> f x = Some e)
      \<longleftrightarrow> (\<exists>ys x zs. xs = ys @ x # zs \<and> (\<forall>y \<in> set ys. f y = None) \<and> f x = Some e)"
      (is "?L \<longleftrightarrow> ?R")
    proof
      assume ?L
      then obtain ys x zs where eq: "a # xs = ys @ x # zs"
        and ok: "\<forall>y \<in> set ys. f y = None" and bad: "f x = Some e" by blast
      from eq bad None obtain us where "ys = a # us" by (cases ys) auto
      with eq ok bad show ?R by auto
    next
      assume ?R
      then obtain ys x zs where "xs = ys @ x # zs"
        and "\<forall>y \<in> set ys. f y = None" and "f x = Some e" by blast
      with None have "a # xs = (a # ys) @ x # zs \<and> (\<forall>y \<in> set (a # ys). f y = None)
        \<and> f x = Some e" by simp
      then show ?L by blast
    qed
    with Cons.IH None show ?thesis by simp
  next
    case (Some e')
    show ?thesis
    proof
      assume "check_all f (a # xs) = Some e"
      with Some have "f a = Some e" by simp
      then show "\<exists>ys x zs. a # xs = ys @ x # zs \<and> (\<forall>y \<in> set ys. f y = None) \<and> f x = Some e"
        by (intro exI [of _ "[]"]) auto
    next
      assume "\<exists>ys x zs. a # xs = ys @ x # zs \<and> (\<forall>y \<in> set ys. f y = None) \<and> f x = Some e"
      with Some show "check_all f (a # xs) = Some e"
        by (auto simp: Cons_eq_append_conv)
    qed
  qed
qed

lemma check_all_cong [fundef_cong]:
  "xs = ys \<Longrightarrow> (\<And>x. x \<in> set ys \<Longrightarrow> f x = g x) \<Longrightarrow> check_all f xs = check_all g ys"
  by (induction xs arbitrary: ys) (auto split: option.splits)

section \<open>Lists of strings\<close>

lemma set_sort_keys [simp]: "set (sort (map fst m)) = fst ` set m"
  by simp

lemma distinct_sort_keys: "wf_map m \<Longrightarrow> distinct (sort (map fst m))"
  by (simp add: wf_map_def)

fun join :: "string \<Rightarrow> string list \<Rightarrow> string" where
  "join sep [] = []"
| "join sep [x] = x"
| "join sep (x # y # xs) = x @ sep @ join sep (y # xs)"

end
