(* ===== verification/Errors.thy ===== *)
theory Errors
  imports Prelude
begin

text \<open>
  Errors as values. Every error the operator creates is a constructor that carries what the
  Go message is formatted from; the English text and \<open>%q\<close> quoting are left out. Wrapping
  with \<open>fmt.Errorf("...%w")\<close> or \<open>errors.Join\<close> is a node of a tree, so that
  \<open>errors.As\<close> can be the tree search it is.
\<close>

text \<open>
  What the Kubernetes client reports: one constructor per class the code tells apart with the
  \<open>apierrors\<close> and \<open>meta\<close> predicates, and one for everything else.
\<close>

datatype api_error =
    NotFound
  | NoMatch
  | Conflict
  | ServiceUnavailable
  | Timeout
  | ServerTimeout
  | TooManyRequests
  | DeadlineExceeded
  | OtherAPI string

text \<open>The errors of \<open>validateSpec\<close> and its helpers, in the order of the source.\<close>

datatype validation_error =
    UnsupportedDBBackend string
  | SyncDispatchRemoved
  | AsyncConfigRequired
  | RedisAndSQL
  | NoTransport
  | ResultPollTimeoutRequired
  | ModelGatewaysRequired
  | InferencePoolRequired string
  | QueueNamesMismatch string
  | SharedInferencePool string string string
  | SharedResultQueue string string string
  | DuplicateQueue string string
  | MissingRequestQueue string string string
  | UnpublishedQueue string string
  | GatewayURLRequired string string
  | PrometheusURLRequiredForQueue string string string
  | PrometheusURLRequiredForPool string string

datatype ref_reason =
    ReferenceGrantCRDMissing
  | NoGrantPermits string string string string

record ReferenceNotPermittedError =
  rnp_GatewayName :: string
  rnp_SecretName :: string
  rnp_SecretNamespace :: string
  rnp_Reason :: ref_reason

record SecretRefImmutableError =
  sri_OldRef :: string
  sri_NewRef :: string

text \<open>
  \<open>ErrExternal\<close> is an error of a library outside the repository (Helm, YAML, JSON,
  \<open>controllerutil\<close>); \<open>Wrap\<close> has the context words of the message and the wrapped
  errors, one for \<open>%w\<close>, several for two \<open>%w\<close> or a join.
\<close>

datatype goerr =
    ErrApi api_error
  | ErrExternal string
  | ErrValidation validation_error
  | ErrRef ReferenceNotPermittedError
  | ErrImmutable SecretRefImmutableError
  | ErrNew string
  | Wrap "string list" "goerr list"

text \<open>\<open>errors.As\<close> for the two error types the controller looks for: preorder search.\<close>

fun as_ref :: "goerr \<Rightarrow> ReferenceNotPermittedError option" where
  "as_ref (ErrRef e) = Some e"
| "as_ref (Wrap ctx es) = check_all as_ref es"
| "as_ref _ = None"

fun as_immutable :: "goerr \<Rightarrow> SecretRefImmutableError option" where
  "as_immutable (ErrImmutable e) = Some e"
| "as_immutable (Wrap ctx es) = check_all as_immutable es"
| "as_immutable _ = None"

text \<open>
  \<open>apierrors.IsNotFound\<close> and \<open>meta.IsNoMatchError\<close>, on the errors a client call
  returns.
\<close>

definition isNotFound :: "goerr \<Rightarrow> bool" where
  "isNotFound e \<longleftrightarrow> e = ErrApi NotFound"

definition isNoMatch :: "goerr \<Rightarrow> bool" where
  "isNoMatch e \<longleftrightarrow> e = ErrApi NoMatch"

lemma error_class_simps [simp]:
  "isNotFound (ErrApi a) \<longleftrightarrow> a = NotFound" "isNoMatch (ErrApi a) \<longleftrightarrow> a = NoMatch"
  "\<not> isNotFound (Wrap c es)" "\<not> isNoMatch (Wrap c es)"
  by (simp_all add: isNotFound_def isNoMatch_def)

text \<open>
  The message of a condition or of an event: a fixed text, an error behind some context
  words, or the replica counts of a component.
\<close>

datatype message =
    MsgText string
  | MsgError "string list" goerr
  | MsgReplicas string int32 int32

end
