(* ===== verification/Types.thy ===== *)
theory Types
  imports Errors
begin

text \<open>
  The custom resource, from \<open>api/v1alpha1/llmbatchgateway_types.go\<close> and
  \<open>llmdasync_types.go\<close>: one record per struct, fields in the order of the source, each
  prefixed with a short name of its struct. A pointer or a slice that the code compares with
  nil is an \<open>option\<close>; a slice or map of which only the length is read is a list, nil and
  empty being the same. An optional string is the string itself, empty when absent, as in Go.
\<close>

section \<open>Kubernetes structs the resource embeds\<close>

record SecretReference =
  ref_Name :: string
  ref_Namespace :: string

record LocalObjectReference =
  lor_Name :: string

text \<open>
  A resource quantity is represented by its canonical text, the only thing the operator reads
  of it (\<open>Quantity.String\<close>).
\<close>

record ResourceRequirements =
  res_Limits :: "string smap option"
  res_Requests :: "string smap option"

datatype ConditionStatus = ConditionTrue | ConditionFalse | ConditionUnknown

section \<open>File storage\<close>

record S3StorageSpec =
  s3_Region :: string
  s3_Bucket :: string
  s3_Endpoint :: string
  s3_AccessKeyID :: string
  s3_Prefix :: string
  s3_UsePathStyle :: bool
  s3_AutoCreateBucket :: "bool option"

record FSStorageSpec =
  fs_BasePath :: string
  fs_ClaimName :: string

record FileRetrySpec =
  retry_MaxRetries :: "int32 option"
  retry_InitialBackoff :: string
  retry_MaxBackoff :: string

record FileStorageSpec =
  storage_S3 :: "S3StorageSpec option"
  storage_FS :: "FSStorageSpec option"
  storage_Retry :: "FileRetrySpec option"

section \<open>API server\<close>

record BatchAPIConfig =
  batch_EventTTLSeconds :: int32
  batch_PassThroughHeaders :: "string list"
  batch_ExtraEndpoints :: "string list option"

record FileAPIConfig =
  file_DefaultExpirationSeconds :: int64
  file_MaxSizeBytes :: int64
  file_MaxLineCount :: int64

record LoggingConfig =
  log_Verbosity :: int32

record APIServerConfigSpec =
  apicfg_Port :: int32
  apicfg_ObservabilityPort :: int32
  apicfg_ReadTimeoutSeconds :: int32
  apicfg_WriteTimeoutSeconds :: int32
  apicfg_IdleTimeoutSeconds :: int32
  apicfg_InputHeaders :: "string smap"
  apicfg_BatchAPI :: "BatchAPIConfig option"
  apicfg_FileAPI :: "FileAPIConfig option"
  apicfg_EnablePprof :: bool
  apicfg_Logging :: "LoggingConfig option"

record APIServerSpec =
  api_Replicas :: "int32 option"
  api_Resources :: "ResourceRequirements option"
  api_Config :: "APIServerConfigSpec option"
  api_ImagePullPolicy :: string

section \<open>Async processor\<close>

record InferenceGatewaySpec =
  ig_URL :: string

record AsyncQueueConfig =
  q_Name :: string
  q_WorkerPoolID :: string
  q_IGWBaseURL :: string
  q_RequestPathURL :: string
  q_GateType :: string
  q_GateParams :: "string smap"

record AsyncRedisSpec =
  redis_RequestPathURL :: string
  redis_PollIntervalMs :: "int32 option"
  redis_BatchSize :: "int32 option"
  redis_GateType :: string
  redis_GateParams :: "string smap"
  redis_QueuesConfig :: "AsyncQueueConfig list"

record AsyncSQLSpec =
  sql_PollIntervalMs :: "int32 option"
  sql_BatchSize :: "int32 option"
  sql_MaxConnections :: "int32 option"
  sql_ResultBatchSize :: "int32 option"
  sql_LeaseTTLSeconds :: "int32 option"
  sql_HandoffTimeoutSeconds :: "int32 option"
  sql_QueuesConfig :: "AsyncQueueConfig list"

record AsyncTLSSpec =
  atls_SecretName :: string
  atls_InsecureSkipVerify :: bool
  atls_CACertKey :: string
  atls_CertKey :: string
  atls_KeyKey :: string

record AsyncRequestTransform =
  rt_Name :: string
  rt_Type :: string
  rt_Parameters :: "string smap"

record AsyncTransformConfig =
  tc_RequestTransforms :: "AsyncRequestTransform list"

record AsyncModelServerMonitorSpec =
  msm_Enabled :: bool
  msm_Selector :: "string smap"
  msm_Port :: string
  msm_Path :: string
  msm_Interval :: string

record AsyncWorkerPool =
  wp_Name :: string
  wp_Workers :: int32
  wp_GateType :: string
  wp_GateParams :: "string smap"

record AsyncProcessorSpec =
  ac_Replicas :: "int32 option"
  ac_Resources :: "ResourceRequirements option"
  ac_ImagePullPolicy :: string
  ac_InferenceGateway :: "InferenceGatewaySpec option"
  ac_Concurrency :: "int32 option"
  ac_DrainTimeout :: string
  ac_ResultPollTimeout :: string
  ac_Redis :: "AsyncRedisSpec option"
  ac_SQL :: "AsyncSQLSpec option"
  ac_WorkerPools :: "AsyncWorkerPool list"
  ac_PrometheusURL :: string
  ac_PrometheusCacheTTL :: string
  ac_TLS :: "AsyncTLSSpec option"
  ac_TransformConfig :: "AsyncTransformConfig option"
  ac_ModelServerMonitor :: "AsyncModelServerMonitorSpec option"

section \<open>Processor\<close>

record ModelGatewaySpec =
  mg_InferencePoolName :: string
  mg_InferenceObjective :: string
  mg_RequestQueueName :: string
  mg_ResultQueueName :: string

record AIMDConfig =
  aimd_Enabled :: "bool option"
  aimd_Min :: int32
  aimd_BackoffFactor :: string
  aimd_AdditiveIncrease :: int32

record ConcurrencyConfig =
  conc_Global :: int32
  conc_PerEndpoint :: int32
  conc_Recovery :: int32
  conc_AIMD :: "AIMDConfig option"

record ResumableConfigSpec =
  resume_LeaseDuration :: string
  resume_FinalizeConcurrency :: int32
  resume_FinalizeTimeout :: string

record ProcessorConfigSpec =
  pcfg_NumWorkers :: int32
  pcfg_InputFileDiskBudgetPercent :: int32
  pcfg_ExtraEndpoints :: "string list option"
  pcfg_Concurrency :: "ConcurrencyConfig option"
  pcfg_Resumable :: "ResumableConfigSpec option"
  pcfg_DefaultOutputExpirationSeconds :: int64
  pcfg_ProgressTTLSeconds :: int64
  pcfg_ProgressUpdateInterval :: string
  pcfg_SendFairnessHeader :: "bool option"
  pcfg_RouteKeyMethod :: string
  pcfg_EnablePprof :: bool
  pcfg_Logging :: "LoggingConfig option"

record ProcessorSpec =
  proc_Replicas :: "int32 option"
  proc_Resources :: "ResourceRequirements option"
  proc_ImagePullPolicy :: string
  proc_Config :: "ProcessorConfigSpec option"
  proc_DispatchMode :: string
  proc_ModelGateways :: "ModelGatewaySpec smap"
  proc_AsyncConfig :: "AsyncProcessorSpec option"

section \<open>Garbage collector\<close>

record ReconcilerSpec =
  rec_Enabled :: bool
  rec_Interval :: string

record GCConfigSpec =
  gccfg_DryRun :: bool
  gccfg_MaxConcurrency :: int32
  gccfg_Logging :: "LoggingConfig option"
  gccfg_Reconciler :: "ReconcilerSpec option"

record GCSpec =
  gc_Replicas :: "int32 option"
  gc_Resources :: "ResourceRequirements option"
  gc_Interval :: string
  gc_Config :: "GCConfigSpec option"
  gc_ImagePullPolicy :: string

section \<open>Observability, TLS and routing\<close>

record MonitoringSpec =
  mon_Enabled :: bool

record GrafanaSpec =
  grafana_Enabled :: bool

record PrometheusRuleSpec =
  prule_Enabled :: bool
  prule_Labels :: "string smap"

record OTELSpec =
  otel_Endpoint :: string
  otel_Insecure :: bool
  otel_Sampler :: string
  otel_SamplerArg :: string
  otel_RedisTracing :: bool
  otel_PostgresqlTracing :: bool

record CertManagerSpec =
  cm_IssuerName :: string
  cm_IssuerKind :: string
  cm_DNSNames :: "string list"

record TLSSpec =
  tls_Enabled :: bool
  tls_SecretName :: string
  tls_CertManager :: "CertManagerSpec option"

record ParentReference =
  parent_Name :: string
  parent_Namespace :: string
  parent_SectionName :: string

record HTTPRouteSpec =
  hr_Enabled :: bool
  hr_Annotations :: "string smap"
  hr_ParentRefs :: "ParentReference list"

section \<open>The resource\<close>

record LLMBatchGatewaySpec =
  spec_SecretRef :: SecretReference
  spec_DBBackend :: string
  spec_ExtraEndpoints :: "string list option"
  spec_FileStorage :: "FileStorageSpec option"
  spec_APIServer :: APIServerSpec
  spec_Processor :: ProcessorSpec
  spec_GC :: GCSpec
  spec_Monitoring :: "MonitoringSpec option"
  spec_Grafana :: "GrafanaSpec option"
  spec_TLS :: "TLSSpec option"
  spec_HTTPRoute :: "HTTPRouteSpec option"
  spec_OTEL :: "OTELSpec option"
  spec_PrometheusRule :: "PrometheusRuleSpec option"
  spec_ImagePullSecrets :: "LocalObjectReference list"

record ComponentReplicaStatus =
  crs_Replicas :: int32
  crs_ReadyReplicas :: int32

record ComponentStatus =
  cs_APIServer :: "ComponentReplicaStatus option"
  cs_Processor :: "ComponentReplicaStatus option"
  cs_GC :: "ComponentReplicaStatus option"
  cs_AsyncProcessor :: "ComponentReplicaStatus option"

text \<open>
  A condition without its transition time, which the condition library sets from the clock
  and the operator never reads.
\<close>

record Condition =
  cond_Type :: string
  cond_Status :: ConditionStatus
  cond_Reason :: string
  cond_Message :: message
  cond_ObservedGeneration :: int64

record LLMBatchGatewayStatus =
  status_ObservedGeneration :: int64
  status_Conditions :: "Condition list"
  status_ComponentStatus :: "ComponentStatus option"

text \<open>Of the object metadata, the fields the operator reads.\<close>

record LLMBatchGateway =
  gw_Name :: string
  gw_Namespace :: string
  gw_UID :: string
  gw_Generation :: int64
  gw_ResourceVersion :: string
  gw_Spec :: LLMBatchGatewaySpec
  gw_Status :: LLMBatchGatewayStatus

text \<open>\<open>GroupVersion\<close> of \<open>groupversion_info.go\<close>.\<close>

definition GroupVersion_Group :: string where
  "GroupVersion_Group = ''batch.llm-d.ai''"

definition GroupVersion_Version :: string where
  "GroupVersion_Version = ''v1alpha1''"

definition GroupVersion_String :: string where
  "GroupVersion_String = GroupVersion_Group @ ''/'' @ GroupVersion_Version"

section \<open>Shorthands and well-formedness\<close>

abbreviation gwProcessor :: "LLMBatchGateway \<Rightarrow> ProcessorSpec" where
  "gwProcessor gw \<equiv> spec_Processor (gw_Spec gw)"

abbreviation gwModels :: "LLMBatchGateway \<Rightarrow> ModelGatewaySpec smap" where
  "gwModels gw \<equiv> proc_ModelGateways (gwProcessor gw)"

abbreviation gwAsync :: "LLMBatchGateway \<Rightarrow> AsyncProcessorSpec option" where
  "gwAsync gw \<equiv> proc_AsyncConfig (gwProcessor gw)"

text \<open>The model map is a Go map: its keys are distinct.\<close>

definition wf_gateway :: "LLMBatchGateway \<Rightarrow> bool" where
  "wf_gateway gw \<longleftrightarrow> wf_map (gwModels gw)"

end
