(* ===== verification/TLSProfile.thy ===== *)
theory TLSProfile
  imports Errors
begin

text \<open>
  \<open>internal/tls/profile.go\<close>: resolving the cluster TLS profile and turning it into the
  strings the charts take. The OpenShift library (\<open>NewTLSConfigFromProfile\<close>, the two fetch
  functions, the Intermediate profile, the watcher) and the cipher tables of Go's
  \<open>crypto/tls\<close> are parameters, gathered in \<open>tls_env\<close>.
\<close>

section \<open>Types\<close>

record TLSProfileSpec =
  prof_Ciphers :: "string list"
  prof_MinTLSVersion :: string

type_synonym suite_id = "16 word"

record CipherSuite =
  suite_Name :: string
  suite_SupportedVersions :: "16 word list"

text \<open>Of \<open>tls.Config\<close>, the fields the operator sets or reads.\<close>

record tls_Config =
  conf_MinVersion :: "16 word"
  conf_CipherSuites :: "suite_id list"
  conf_NextProtos :: "string list"
  conf_Certificate :: "(string \<times> string) option"

type_synonym tls_opt = "tls_Config \<Rightarrow> tls_Config"

definition empty_Config :: tls_Config where
  "empty_Config = \<lparr>conf_MinVersion = 0, conf_CipherSuites = [], conf_NextProtos = [],
     conf_Certificate = None\<rparr>"

record tls_env =
  te_CipherSuites :: "CipherSuite list"
  te_CipherSuiteName :: "suite_id \<Rightarrow> string"
  te_NewTLSConfigFromProfile :: "TLSProfileSpec \<Rightarrow> tls_opt \<times> string list"
  te_Intermediate :: TLSProfileSpec

record ProfileValues =
  pv_MinVersion :: string
  pv_CipherSuites :: string
  pv_NextProtos :: string

record tls_Result =
  tr_Profile :: TLSProfileSpec
  tr_ProfileFetched :: bool
  tr_Adherence :: string
  tr_AdherenceFetched :: bool
  tr_TLSOpts :: "tls_opt list"

definition VersionTLS12 :: string where
  "VersionTLS12 = ''VersionTLS12''"

definition VersionTLS13 :: string where
  "VersionTLS13 = ''VersionTLS13''"

definition tls_VersionTLS12 :: "16 word" where
  "tls_VersionTLS12 = 0x0303"

definition defaultNextProtos :: string where
  "defaultNextProtos = ''h2,http/1.1''"

section \<open>Cipher names\<close>

text \<open>
  The loop over the profile's ciphers. The two indices only move forward, so each is the list
  of elements not yet consumed.
\<close>

fun alignCiphers ::
  "(suite_id \<Rightarrow> string) \<Rightarrow> string list \<Rightarrow> string list \<Rightarrow> suite_id list \<Rightarrow> string list \<Rightarrow>
   string list \<times> string list" where
  "alignCiphers nameOf supported [] codes unsupportedProfile = ([], [])"
| "alignCiphers nameOf supported (cipher # ciphers) codes unsupportedProfile =
     (if unsupportedProfile \<noteq> [] \<and> hd unsupportedProfile = cipher
      then (case alignCiphers nameOf supported ciphers codes (tl unsupportedProfile) of
              (names, unsupported) \<Rightarrow> (names, cipher # unsupported))
      else case codes of
        [] \<Rightarrow> (case alignCiphers nameOf supported ciphers [] unsupportedProfile of
              (names, unsupported) \<Rightarrow> (names, cipher # unsupported))
      | code # codes' \<Rightarrow>
          (case alignCiphers nameOf supported ciphers codes' unsupportedProfile of
             (names, unsupported) \<Rightarrow>
               if nameOf code \<in> set supported then (nameOf code # names, unsupported)
               else (names, cipher # unsupported)))"

definition batchGatewayCipherSuiteNames ::
  "tls_env \<Rightarrow> TLSProfileSpec \<Rightarrow> string list \<times> string list" where
  "batchGatewayCipherSuiteNames env spec =
     (if prof_MinTLSVersion spec = VersionTLS13 then ([], [])
      else
        (let supported = map suite_Name (te_CipherSuites env);
             (tlsConfigFn, unsupportedProfileCiphers) = te_NewTLSConfigFromProfile env spec;
             tlsConfig = tlsConfigFn empty_Config
         in alignCiphers (te_CipherSuiteName env) supported (prof_Ciphers spec)
              (conf_CipherSuites tlsConfig) unsupportedProfileCiphers))"

definition hasTLS12CipherSuite :: "tls_env \<Rightarrow> string list \<Rightarrow> bool" where
  "hasTLS12CipherSuite env names \<longleftrightarrow>
     list_ex (\<lambda>suite. list_ex (\<lambda>name. suite_Name suite = name \<and>
        tls_VersionTLS12 \<in> set (suite_SupportedVersions suite)) names) (te_CipherSuites env)"

text \<open>The result is the values, the unsupported ciphers and the error.\<close>

definition ProfileValuesFromSpec ::
  "tls_env \<Rightarrow> TLSProfileSpec \<Rightarrow> ProfileValues \<times> string list \<times> goerr option" where
  "ProfileValuesFromSpec env spec =
     (let vals = \<lparr>pv_MinVersion = '''', pv_CipherSuites = '''', pv_NextProtos = defaultNextProtos\<rparr>;
          vals = (if prof_MinTLSVersion spec \<noteq> ''''
                  then vals\<lparr>pv_MinVersion := prof_MinTLSVersion spec\<rparr> else vals)
      in if prof_MinTLSVersion spec \<noteq> '''' \<and> prof_MinTLSVersion spec \<noteq> VersionTLS12 \<and>
            prof_MinTLSVersion spec \<noteq> VersionTLS13
         then (vals, [], Some (Wrap [''TLS profile minimum version not supported'',
                                     prof_MinTLSVersion spec] []))
         else if prof_Ciphers spec \<noteq> []
         then (case batchGatewayCipherSuiteNames env spec of
                 (cipherSuites, unsupported) \<Rightarrow>
                   if prof_MinTLSVersion spec \<noteq> VersionTLS13 \<and>
                      \<not> hasTLS12CipherSuite env cipherSuites
                   then (let details = (if unsupported = [] then prof_Ciphers spec else unsupported)
                         in (vals, unsupported,
                             Some (Wrap [''TLS profile contains no cipher suite usable with TLS 1.2'',
                                         join '', '' details] [])))
                   else (vals\<lparr>pv_CipherSuites := join '','' cipherSuites\<rparr>, unsupported, None))
         else (vals, [], None))"

section \<open>Resolving the cluster profile\<close>

text \<open>The errors after which the code falls back to defaults and goes on.\<close>

definition isTransient :: "api_error \<Rightarrow> bool" where
  "isTransient e \<longleftrightarrow> e = ServiceUnavailable \<or> e = Timeout \<or> e = ServerTimeout \<or>
     e = TooManyRequests \<or> e = DeadlineExceeded"

text \<open>
  \<open>fetchProfile\<close> and \<open>fetchAdherence\<close> are the answers of the two fetch calls; the second
  comes with the value the library returns beside an error. The code stores that value
  whether or not there was an error.
\<close>

definition Resolve ::
  "tls_env \<Rightarrow> api_error + TLSProfileSpec \<Rightarrow> string \<times> api_error option \<Rightarrow> goerr + tls_Result" where
  "Resolve env fetchProfile fetchAdherence =
     (let
        profileStep =
          (case fetchProfile of
             Inr profile \<Rightarrow> Inr (profile, True)
           | Inl e \<Rightarrow>
               if e = NoMatch then Inr (te_Intermediate env, False)
               else if e = NotFound then Inr (te_Intermediate env, False)
               else if isTransient e then Inr (te_Intermediate env, True)
               else Inl (Wrap [''reading APIServer TLS profile''] [ErrApi e]))
      in case profileStep of
        Inl e \<Rightarrow> Inl e
      | Inr (profile, profileFetched) \<Rightarrow>
          (let tlsConfigFn = fst (te_NewTLSConfigFromProfile env profile);
               opts = [tlsConfigFn, \<lambda>c. c\<lparr>conf_NextProtos := [''h2'', ''http/1.1'']\<rparr>];
               (adherence, adherenceErr) = fetchAdherence;
               adherenceStep =
                 (case adherenceErr of
                    None \<Rightarrow> Inr True
                  | Some e \<Rightarrow>
                      if e = NoMatch \<or> e = NotFound \<or> isTransient e then Inr False
                      else Inl (Wrap [''unable to read TLS adherence policy''] [ErrApi e]))
           in case adherenceStep of
                Inl e \<Rightarrow> Inl e
              | Inr adherenceFetched \<Rightarrow>
                  Inr \<lparr>tr_Profile = profile, tr_ProfileFetched = profileFetched,
                       tr_Adherence = adherence, tr_AdherenceFetched = adherenceFetched,
                       tr_TLSOpts = opts\<rparr>))"

text \<open>
  The watcher handed to the library. A callback that shuts the manager down is
  \<open>Shutdown\<close>; an absent callback is \<open>None\<close>.
\<close>

datatype watch_action = Shutdown

record SecurityProfileWatcher =
  w_InitialTLSProfileSpec :: TLSProfileSpec
  w_OnProfileChange :: "watch_action option"
  w_InitialTLSAdherencePolicy :: string
  w_OnAdherencePolicyChange :: "watch_action option"

text \<open>
  \<open>setup\<close> is the library's \<open>SetupWithManager\<close>. The result is the registered watcher, if
  any, or the error.
\<close>

definition SetupWatcher ::
  "(SecurityProfileWatcher \<Rightarrow> string option) \<Rightarrow> tls_Result \<Rightarrow>
   goerr + SecurityProfileWatcher option" where
  "SetupWatcher setup result =
     (if \<not> tr_ProfileFetched result then Inr None
      else
        (let watcher = \<lparr>w_InitialTLSProfileSpec = tr_Profile result,
                        w_OnProfileChange = Some Shutdown,
                        w_InitialTLSAdherencePolicy = '''', w_OnAdherencePolicyChange = None\<rparr>;
             watcher = (if tr_AdherenceFetched result
                        then watcher\<lparr>w_InitialTLSAdherencePolicy := tr_Adherence result,
                                     w_OnAdherencePolicyChange := Some Shutdown\<rparr>
                        else watcher)
         in case setup watcher of
              Some e \<Rightarrow> Inl (Wrap [''setting up TLS profile watcher''] [ErrExternal e])
            | None \<Rightarrow> Inr (Some watcher)))"

section \<open>Alignment of ciphers, codes and unsupported names\<close>

text \<open>
  What the code relies on: the library maps each cipher to at most one code, lists the codes
  of the mapped ciphers in order, and lists the ciphers without a code in order.
\<close>

definition profile_library_ok :: "tls_env \<Rightarrow> (string \<Rightarrow> suite_id option) \<Rightarrow> bool" where
  "profile_library_ok env codeOf \<longleftrightarrow>
     (\<forall>spec. prof_MinTLSVersion spec \<noteq> VersionTLS13 \<longrightarrow>
        conf_CipherSuites (fst (te_NewTLSConfigFromProfile env spec) empty_Config)
          = List.map_filter codeOf (prof_Ciphers spec) \<and>
        snd (te_NewTLSConfigFromProfile env spec)
          = filter (\<lambda>c. codeOf c = None) (prof_Ciphers spec))"

text \<open>The classification of one cipher, by its own code.\<close>

definition cipherName :: "tls_env \<Rightarrow> (string \<Rightarrow> suite_id option) \<Rightarrow> string \<Rightarrow> string option" where
  "cipherName env codeOf cipher =
     (case codeOf cipher of
        None \<Rightarrow> None
      | Some code \<Rightarrow>
          if te_CipherSuiteName env code \<in> suite_Name ` set (te_CipherSuites env)
          then Some (te_CipherSuiteName env code) else None)"

lemma alignCiphers_reference:
  "alignCiphers (te_CipherSuiteName env) (map suite_Name (te_CipherSuites env)) ciphers
     (List.map_filter codeOf ciphers) (filter (\<lambda>c. codeOf c = None) ciphers)
   = (List.map_filter (cipherName env codeOf) ciphers,
      filter (\<lambda>c. cipherName env codeOf c = None) ciphers)"
proof (induction ciphers)
  case Nil
  then show ?case by (simp add: map_filter_simps)
next
  case (Cons c cs)
  show ?case
  proof (cases "codeOf c")
    case None
    then have "cipherName env codeOf c = None" by (simp add: cipherName_def)
    with Cons None show ?thesis by (simp add: map_filter_simps)
  next
    case (Some code)
    have "filter (\<lambda>c. codeOf c = None) cs = [] \<or> hd (filter (\<lambda>c. codeOf c = None) cs) \<noteq> c"
      using Some hd_in_set [of "filter (\<lambda>c. codeOf c = None) cs"] by auto
    moreover have "cipherName env codeOf c =
        (if te_CipherSuiteName env code \<in> suite_Name ` set (te_CipherSuites env)
         then Some (te_CipherSuiteName env code) else None)"
      using Some by (simp add: cipherName_def)
    ultimately show ?thesis
      using Cons Some by (auto simp: map_filter_simps)
  qed
qed

lemma has12_iff:
  "hasTLS12CipherSuite env names \<longleftrightarrow>
     (\<exists>suite \<in> set (te_CipherSuites env). suite_Name suite \<in> set names \<and>
        tls_VersionTLS12 \<in> set (suite_SupportedVersions suite))"
  by (auto simp: hasTLS12CipherSuite_def list_ex_iff)

section \<open>Properties\<close>

text \<open>A small library for the witnesses: two mapped ciphers, one of them unknown to Go.\<close>

definition sampleCode :: "string \<Rightarrow> suite_id option" where
  "sampleCode c = (if c = ''A'' then Some 1 else if c = ''B'' then Some 2 else None)"

definition sampleTLS :: tls_env where
  "sampleTLS = \<lparr>te_CipherSuites = [\<lparr>suite_Name = ''TLS_A'', suite_SupportedVersions = [0x0303]\<rparr>],
     te_CipherSuiteName = (\<lambda>code. if code = 1 then ''TLS_A'' else ''TLS_B''),
     te_NewTLSConfigFromProfile = (\<lambda>spec.
       (\<lambda>c. c\<lparr>conf_CipherSuites := List.map_filter sampleCode (prof_Ciphers spec)\<rparr>,
        filter (\<lambda>c. sampleCode c = None) (prof_Ciphers spec))),
     te_Intermediate = \<lparr>prof_Ciphers = [''A''], prof_MinTLSVersion = VersionTLS12\<rparr>\<rparr>"

definition sampleProfile :: TLSProfileSpec where
  "sampleProfile = \<lparr>prof_Ciphers = [''X'', ''B'', ''A''], prof_MinTLSVersion = VersionTLS12\<rparr>"

lemma sample_library_ok: "profile_library_ok sampleTLS sampleCode"
  by (simp add: profile_library_ok_def sampleTLS_def empty_Config_def)

text \<open>
  C36: with the library's contract, the two-index walk of \<open>batchGatewayCipherSuiteNames\<close>
  classifies every cipher by its own code: the names are those of the ciphers whose code Go
  supports, in profile order, and the rest are reported unsupported under their original
  names, in profile order.
\<close>

theorem ciphers_classified_by_own_code:
  assumes "profile_library_ok env codeOf" and "prof_MinTLSVersion spec \<noteq> VersionTLS13"
  shows "batchGatewayCipherSuiteNames env spec =
    (List.map_filter (cipherName env codeOf) (prof_Ciphers spec),
     filter (\<lambda>c. cipherName env codeOf c = None) (prof_Ciphers spec))"
  using assms alignCiphers_reference [of env "prof_Ciphers spec" codeOf]
  by (simp add: batchGatewayCipherSuiteNames_def profile_library_ok_def case_prod_beta)

theorem ciphers_classified_by_own_code_witness:
  "batchGatewayCipherSuiteNames sampleTLS sampleProfile = ([''TLS_A''], [''X'', ''B''])"
proof -
  have "prof_MinTLSVersion sampleProfile \<noteq> VersionTLS13"
    by (simp add: sampleProfile_def VersionTLS12_def VersionTLS13_def)
  from ciphers_classified_by_own_code [OF sample_library_ok this] show ?thesis
    by (simp add: sampleProfile_def cipherName_def sampleCode_def sampleTLS_def map_filter_simps)
qed

text \<open>
  \<open>ProfileValuesFromSpec\<close> succeeds exactly when the minimum version is unset, TLS 1.2
  or TLS 1.3 and, for a profile that lists ciphers and is not TLS-1.3-only, some cipher
  suite that Go supports under TLS 1.2 is among the converted names.
\<close>

lemma profile_accepted_iff:
  "snd (snd (ProfileValuesFromSpec env spec)) = None \<longleftrightarrow>
     prof_MinTLSVersion spec \<in> {'''', VersionTLS12, VersionTLS13} \<and>
     (prof_Ciphers spec = [] \<or> prof_MinTLSVersion spec = VersionTLS13 \<or>
      (\<exists>suite \<in> set (te_CipherSuites env).
         suite_Name suite \<in> set (fst (batchGatewayCipherSuiteNames env spec)) \<and>
         tls_VersionTLS12 \<in> set (suite_SupportedVersions suite)))"
  unfolding has12_iff [symmetric]
  by (auto simp: ProfileValuesFromSpec_def Let_def case_prod_beta)

text \<open>What a successful resolution answers.\<close>

lemma resolve_result:
  assumes "Resolve env fetchProfile fetchAdherence = Inr r"
  shows "tr_Profile r = (case fetchProfile of Inr p \<Rightarrow> p | Inl _ \<Rightarrow> te_Intermediate env) \<and>
    (tr_ProfileFetched r \<longleftrightarrow> (case fetchProfile of Inr _ \<Rightarrow> True | Inl e \<Rightarrow> isTransient e)) \<and>
    (tr_AdherenceFetched r \<longleftrightarrow> snd fetchAdherence = None) \<and>
    conf_NextProtos (foldl (\<lambda>c f. f c) c (tr_TLSOpts r)) = [''h2'', ''http/1.1'']"
  using assms
  by (auto simp: Resolve_def Let_def case_prod_beta isTransient_def
      split: sum.splits option.splits if_splits)

text \<open>
  After a transient error of the adherence fetch the watcher is registered without an
  adherence callback, whatever the cluster's policy later becomes; the profile callback is
  there. The log message of that branch says that the watcher will retry.
\<close>

lemma transient_adherence_error_unwatched:
  assumes "isTransient e"
  shows "\<exists>r w. Resolve env (Inr p) (a, Some e) = Inr r \<and>
    SetupWatcher (\<lambda>_. None) r = Inr (Some w) \<and>
    w_OnProfileChange w = Some Shutdown \<and> w_OnAdherencePolicyChange w = None"
  using assms by (auto simp: Resolve_def SetupWatcher_def Let_def case_prod_beta)

lemma transient_adherence_error_unwatched_example:
  "\<exists>r w. Resolve sampleTLS (Inr sampleProfile) ('''', Some TooManyRequests) = Inr r \<and>
    SetupWatcher (\<lambda>_. None) r = Inr (Some w) \<and> w_OnAdherencePolicyChange w = None"
  using transient_adherence_error_unwatched [of TooManyRequests sampleTLS sampleProfile "''''"]
  by (auto simp: isTransient_def)

end
