(* ===== verification/Helm.thy ===== *)
theory Helm
  imports Types TLSProfile
begin

text \<open>
  \<open>internal/controller/helm.go\<close>: the tree of Helm values, the helpers that build it, the
  splitting of image references, and \<open>renderChart\<close>. The Helm engine and the YAML decoder
  are parameters (\<open>helm_lib\<close>).
\<close>

section \<open>Value trees\<close>

text \<open>\<open>any\<close> as the mapping code produces it; a JSON number is kept by its text.\<close>

datatype val =
    VNull
  | VBool bool
  | VInt int64
  | VNum string
  | VStr string
  | VList "val list"
  | VMap "(string \<times> val) list"

type_synonym vmap = "val smap"

text \<open>Following a path of keys, for stating what a tree holds.\<close>

fun at :: "val \<Rightarrow> string list \<Rightarrow> val option" where
  "at v [] = Some v"
| "at (VMap m) (k # ks) = (case go_get m k of None \<Rightarrow> None | Some v \<Rightarrow> at v ks)"
| "at _ (k # ks) = None"

definition setIfNotEmpty :: "vmap \<Rightarrow> string \<Rightarrow> string \<Rightarrow> vmap" where
  "setIfNotEmpty m key value = (if value \<noteq> '''' then go_set m key (VStr value) else m)"

text \<open>
  Three more shapes of guarded assignment that the mapping code repeats: under a condition,
  of a non-zero \<open>int32\<close>, and of the target of a non-nil pointer.
\<close>

definition setIf :: "bool \<Rightarrow> vmap \<Rightarrow> string \<Rightarrow> val \<Rightarrow> vmap" where
  "setIf b m key v = (if b then go_set m key v else m)"

definition setInt32 :: "vmap \<Rightarrow> string \<Rightarrow> int32 \<Rightarrow> vmap" where
  "setInt32 m key n = (if n \<noteq> 0 then go_set m key (VInt (to_int64 n)) else m)"

definition setSome :: "vmap \<Rightarrow> string \<Rightarrow> ('a \<Rightarrow> val) \<Rightarrow> 'a option \<Rightarrow> vmap" where
  "setSome m key f p = (case p of None \<Rightarrow> m | Some x \<Rightarrow> go_set m key (f x))"

abbreviation VInt32 :: "int32 \<Rightarrow> val" where
  "VInt32 n \<equiv> VInt (to_int64 n)"

lemma get_setIfNotEmpty [simp, lookup_simps]:
  "go_get (setIfNotEmpty m key value) k =
     (if k = key \<and> value \<noteq> '''' then Some (VStr value) else go_get m k)"
  by (auto simp: setIfNotEmpty_def)

lemma get_setIf [simp, lookup_simps]:
  "go_get (setIf b m key v) k = (if k = key \<and> b then Some v else go_get m k)"
  by (auto simp: setIf_def)

lemma get_setInt32 [simp, lookup_simps]:
  "go_get (setInt32 m key n) k = (if k = key \<and> n \<noteq> 0 then Some (VInt32 n) else go_get m k)"
  by (auto simp: setInt32_def)

lemma get_setSome_other [simp, lookup_simps]:
  "k \<noteq> key \<Longrightarrow> go_get (setSome m key f p) k = go_get m k"
  by (auto simp: setSome_def split: option.splits)

lemma get_setSome_fresh [simp, lookup_simps]:
  "go_get m key = None \<Longrightarrow> go_get (setSome m key f p) key = map_option f p"
  by (auto simp: setSome_def split: option.splits)

lemma case_option_map [simp]: "(case p of None \<Rightarrow> None | Some x \<Rightarrow> Some (f x)) = map_option f p"
  by (cases p) simp_all

lemma get_case_keeps [simp]:
  "(\<And>x. go_get (b x) k = go_get a k) \<Longrightarrow> go_get (case p of None \<Rightarrow> a | Some x \<Rightarrow> b x) k = go_get a k"
  by (cases p) simp_all

lemma get_literal [simp, lookup_simps]:
  "go_get ((k, v) # m) k' = (if k = k' then Some v else go_get m k')"
  by (simp add: go_get_def)

lemma set_empty_iff [simp]:
  "setIfNotEmpty m key value = [] \<longleftrightarrow> m = [] \<and> value = ''''"
  "setIf b m key v = [] \<longleftrightarrow> m = [] \<and> \<not> b"
  "setInt32 m key n = [] \<longleftrightarrow> m = [] \<and> n = 0"
  "setSome m key f p = [] \<longleftrightarrow> m = [] \<and> p = None"
  by (auto simp: setIfNotEmpty_def setIf_def setInt32_def setSome_def split: option.splits)

definition toInterfaceSlice :: "string list \<Rightarrow> val" where
  "toInterfaceSlice ss = VList (map VStr ss)"

definition toStringInterfaceMap :: "string smap \<Rightarrow> val" where
  "toStringInterfaceMap m = VMap (fold (\<lambda>(k, v) result. go_set result k (VStr v)) m [])"

text \<open>
  \<open>unmarshal\<close> is \<open>json.Unmarshal\<close> into \<open>any\<close>: the parsed value, or \<open>None\<close> on a
  syntax error. A string that parses to a JSON string is kept as written.
\<close>

definition jsonAware :: "(string \<Rightarrow> val option) \<Rightarrow> string \<Rightarrow> val" where
  "jsonAware unmarshal v =
     (case unmarshal v of
        None \<Rightarrow> VStr v
      | Some parsed \<Rightarrow> (case parsed of VStr _ \<Rightarrow> VStr v | _ \<Rightarrow> parsed))"

definition toJSONAwareMap :: "(string \<Rightarrow> val option) \<Rightarrow> string smap \<Rightarrow> val" where
  "toJSONAwareMap unmarshal m =
     VMap (fold (\<lambda>(k, v) result. go_set result k (jsonAware unmarshal v)) m [])"

lemma fold_set_get:
  assumes "wf_map m"
  shows "go_get (fold (\<lambda>(k, v) result. go_set result k (f v)) m r) k =
    (case go_get m k of Some v \<Rightarrow> Some (f v) | None \<Rightarrow> go_get r k)"
proof -
  let ?put = "\<lambda>x result. go_set result (fst x) (f (snd x))"
  have eq: "(\<lambda>(k, v) result. go_set result k (f v)) = ?put"
    by (simp add: fun_eq_iff)
  have "go_get (fold ?put m r) k = (case go_get m k of Some v \<Rightarrow> Some (f v) | None \<Rightarrow> go_get r k)"
  proof (cases "go_get m k")
    case None
    then have "k \<notin> fst ` set m" by (simp add: go_get_key)
    then have "go_get (fold ?put m r) k = go_get r k"
      by (rule gm.fold_put_other)
    with None show ?thesis by simp
  next
    case (Some v)
    then have "(k, v) \<in> set m" by (rule go_get_mem)
    moreover have "distinct (map fst m)" using assms by (simp add: wf_map_def)
    ultimately have "go_get (fold ?put m r) (fst (k, v)) = Some (f (snd (k, v)))"
      using gm.fold_put [of fst m "(k, v)" "\<lambda>x. f (snd x)" r] by blast
    with Some show ?thesis by simp
  qed
  then show ?thesis by (simp only: eq)
qed

section \<open>Image references\<close>

text \<open>\<open>strings.LastIndex\<close> for one character; \<open>None\<close> is \<open>-1\<close>.\<close>

fun lastIndex :: "char \<Rightarrow> string \<Rightarrow> nat option" where
  "lastIndex c [] = None"
| "lastIndex c (x # xs) =
     (case lastIndex c xs of
        Some i \<Rightarrow> Some (Suc i)
      | None \<Rightarrow> if x = c then Some 0 else None)"

definition splitImage :: "string \<Rightarrow> string \<times> string" where
  "splitImage img =
     (case lastIndex CHR '':'' img of
        None \<Rightarrow> (img, ''latest'')
      | Some lastColon \<Rightarrow>
          (let afterColon = drop (lastColon + 1) img in
           if CHR ''/'' \<in> set afterColon then (img, ''latest'')
           else (take lastColon img, afterColon)))"

lemma lastIndex_None [simp]: "lastIndex c s = None \<longleftrightarrow> c \<notin> set s"
  by (induction s) (auto split: option.splits)

lemma lastIndex_Some:
  "lastIndex c s = Some i \<Longrightarrow> s = take i s @ c # drop (Suc i) s \<and> c \<notin> set (drop (Suc i) s)"
proof (induction s arbitrary: i)
  case Nil
  then show ?case by simp
next
  case (Cons x xs)
  show ?case
  proof (cases "lastIndex c xs")
    case None
    with Cons.prems have "i = 0" "x = c" by (auto split: if_splits)
    moreover from None have "c \<notin> set xs" by simp
    ultimately show ?thesis by simp
  next
    case (Some j)
    with Cons.prems have "i = Suc j" by simp
    with Cons.IH [OF Some] show ?thesis by simp
  qed
qed

lemma lastIndex_append: "c \<notin> set t \<Longrightarrow> lastIndex c (r @ c # t) = Some (length r)"
proof (induction r)
  case Nil
  then have "lastIndex c t = None" by (rule lastIndex_None [THEN iffD2])
  then show ?case by (simp del: lastIndex_None)
next
  case (Cons x r)
  then show ?case by simp
qed

section \<open>Rendered objects\<close>

record OwnerReference =
  owner_APIVersion :: string
  owner_Kind :: string
  owner_Name :: string
  owner_UID :: string
  owner_Controller :: "bool option"

text \<open>
  An unstructured object: the metadata the operator reads or writes, and the rest of the
  document as a value tree. A nil label map is \<open>None\<close>.
\<close>

record Unstructured =
  u_Group :: string
  u_Version :: string
  u_Kind :: string
  u_Name :: string
  u_Namespace :: string
  u_Labels :: "string smap option"
  u_OwnerReferences :: "OwnerReference list"
  u_Content :: vmap

section \<open>Rendering a chart\<close>

record ReleaseOptions =
  rel_Name :: string
  rel_Namespace :: string
  rel_IsInstall :: bool

text \<open>
  The decoder reads a template's output as a stream of documents, each possibly empty, until
  it ends (\<open>io.EOF\<close>) or fails.
\<close>

datatype decode_step =
    Document "Unstructured option"
  | DecodeFailure string

record ('c, 'rv) helm_lib =
  lib_Load :: "string \<Rightarrow> string + 'c"
  lib_ToRenderValues :: "'c \<Rightarrow> vmap \<Rightarrow> ReleaseOptions \<Rightarrow> string + 'rv"
  lib_Render :: "'c \<Rightarrow> 'rv \<Rightarrow> string + string smap"
  lib_Decode :: "string \<Rightarrow> decode_step list"

record ComponentImages =
  img_APIServer :: string
  img_Processor :: string
  img_GC :: string
  img_Async :: string

record 'c HelmRenderer =
  hr_chart :: 'c
  hr_images :: ComponentImages
  hr_tlsProfile :: ProfileValues

definition NewHelmRenderer ::
  "('c, 'rv) helm_lib \<Rightarrow> string \<Rightarrow> ComponentImages \<Rightarrow> ProfileValues \<Rightarrow> goerr + 'c HelmRenderer" where
  "NewHelmRenderer lib chartPath images tlsProfile =
     (case lib_Load lib chartPath of
        Inl e \<Rightarrow> Inl (Wrap [''loading chart from'', chartPath] [ErrExternal e])
      | Inr c \<Rightarrow> Inr \<lparr>hr_chart = c, hr_images = images, hr_tlsProfile = tlsProfile\<rparr>)"

text \<open>
  White space as \<open>strings.TrimSpace\<close> strips it: the UTF-8 encodings of the code points
  with the Unicode \<open>White_Space\<close> property, read off the front one by one.
\<close>

definition spaces :: "string list" where
  "spaces =
     map (map char_of)
       ([[9], [10], [11], [12], [13], [32], [0xC2, 0x85], [0xC2, 0xA0], [0xE1, 0x9A, 0x80]] @
        map (\<lambda>b. [0xE2, 0x80, b]) [0x80, 0x81, 0x82, 0x83, 0x84, 0x85, 0x86, 0x87, 0x88, 0x89, 0x8A,
                                    0xA8, 0xA9, 0xAF] @
        [[0xE2, 0x81, 0x9F], [0xE3, 0x80, 0x80 :: nat]])"

lemma spaces_nonempty: "sp \<in> set spaces \<Longrightarrow> 0 < length sp"
  by (auto simp: spaces_def)

text \<open>\<open>len(strings.TrimSpace(s)) == 0\<close>\<close>

function blank :: "string \<Rightarrow> bool" where
  "blank s =
     (if s = [] then True
      else list_ex (\<lambda>sp. if take (length sp) s = sp then blank (drop (length sp) s) else False)
             spaces)"
  by pat_completeness auto
termination
  by (relation "measure length") (auto dest: spaces_nonempty)

declare blank.simps [simp del]

lemma blank_Nil [simp]: "blank []"
  by (subst blank.simps) simp

lemma not_blank: "s \<noteq> [] \<Longrightarrow> list_all (\<lambda>sp. take (length sp) s \<noteq> sp) spaces \<Longrightarrow> \<not> blank s"
  by (subst blank.simps) (auto simp: list_ex_iff list_all_iff)

text \<open>\<open>filepath.Base\<close>: the last element of the path, trailing slashes removed.\<close>

definition baseName :: "string \<Rightarrow> string" where
  "baseName path =
     (if path = '''' then ''.''
      else (let p = rev (dropWhile (\<lambda>c. c = CHR ''/'') (rev path));
                b = rev (takeWhile (\<lambda>c. c \<noteq> CHR ''/'') (rev p))
            in if b = '''' then ''/'' else b))"

text \<open>The inner loop: decode until the end of the stream, skipping empty documents.\<close>

fun decodeTemplate ::
  "(Unstructured \<Rightarrow> Unstructured) option \<Rightarrow> string \<Rightarrow> decode_step list \<Rightarrow> Unstructured list \<Rightarrow>
   goerr + Unstructured list" where
  "decodeTemplate postProcess name [] objects = Inr objects"
| "decodeTemplate postProcess name (DecodeFailure e # steps) objects =
     Inl (Wrap [''decoding template'', name] [ErrExternal e])"
| "decodeTemplate postProcess name (Document None # steps) objects =
     decodeTemplate postProcess name steps objects"
| "decodeTemplate postProcess name (Document (Some obj) # steps) objects =
     decodeTemplate postProcess name steps
       (objects @ [case postProcess of None \<Rightarrow> obj | Some f \<Rightarrow> f obj])"

text \<open>
  The outer loop, over the rendered templates in the order the runtime visits them.
\<close>

fun decodeAll ::
  "('c, 'rv) helm_lib \<Rightarrow> (Unstructured \<Rightarrow> Unstructured) option \<Rightarrow> string smap \<Rightarrow>
   Unstructured list \<Rightarrow> goerr + Unstructured list" where
  "decodeAll lib postProcess [] objects = Inr objects"
| "decodeAll lib postProcess ((name, content) # rendered) objects =
     (if blank content \<or> baseName name = ''NOTES.txt''
      then decodeAll lib postProcess rendered objects
      else case decodeTemplate postProcess name (lib_Decode lib content) objects of
             Inl e \<Rightarrow> Inl e
           | Inr objects' \<Rightarrow> decodeAll lib postProcess rendered objects')"

definition renderChart ::
  "('c, 'rv) helm_lib \<Rightarrow> 'c HelmRenderer \<Rightarrow> LLMBatchGateway \<Rightarrow> vmap \<Rightarrow>
   (Unstructured \<Rightarrow> Unstructured) option \<Rightarrow> goerr + Unstructured list" where
  "renderChart lib h gw vals postProcess =
     (let releaseOpts = \<lparr>rel_Name = gw_Name gw, rel_Namespace = gw_Namespace gw,
                        rel_IsInstall = True\<rparr>
      in case lib_ToRenderValues lib (hr_chart h) vals releaseOpts of
           Inl e \<Rightarrow> Inl (Wrap [''preparing render values''] [ErrExternal e])
         | Inr renderVals \<Rightarrow>
             (case lib_Render lib (hr_chart h) renderVals of
                Inl e \<Rightarrow> Inl (Wrap [''rendering templates''] [ErrExternal e])
              | Inr rendered \<Rightarrow> decodeAll lib postProcess rendered []))"

section \<open>Properties\<close>

text \<open>The part of an image reference after its last slash.\<close>

definition lastSegment :: "string \<Rightarrow> string" where
  "lastSegment img = rev (takeWhile (\<lambda>c. c \<noteq> CHR ''/'') (rev img))"

lemma lastSegment_tag:
  assumes "CHR '':'' \<notin> set t"
  shows "CHR '':'' \<in> set (lastSegment (r @ CHR '':'' # t)) \<longleftrightarrow> CHR ''/'' \<notin> set t"
proof (cases "CHR ''/'' \<in> set t")
  case True
  then have "lastSegment (r @ CHR '':'' # t) = rev (takeWhile (\<lambda>c. c \<noteq> CHR ''/'') (rev t))"
    by (simp add: lastSegment_def takeWhile_append1)
  then show ?thesis using True assms by (auto dest: set_takeWhileD)
next
  case False
  have "takeWhile (\<lambda>c. c \<noteq> CHR ''/'') (rev t @ CHR '':'' # rev r) =
      rev t @ takeWhile (\<lambda>c. c \<noteq> CHR ''/'') (CHR '':'' # rev r)"
    by (rule takeWhile_append2) (use False in auto)
  then show ?thesis using False by (simp add: lastSegment_def)
qed

lemma lastSegment_subset: "set (lastSegment img) \<subseteq> set img"
  by (auto simp: lastSegment_def dest: set_takeWhileD)

text \<open>
  C38: the charts put an image together again with \<open>printf "%s:%s"\<close>. For every reference,
  what they get from the two halves of \<open>splitImage\<close> is the reference itself when its last
  path segment has a colon (a tag, or the digest of \<open>repo@sha256:abc\<close>), and otherwise,
  a registry port included, the reference with \<open>:latest\<close>.
\<close>

theorem splitImage_chart_reference:
  "fst (splitImage img) @ '':'' @ snd (splitImage img) =
     (if CHR '':'' \<in> set (lastSegment img) then img else img @ '':latest'')"
proof (cases "lastIndex CHR '':'' img")
  case None
  then have "CHR '':'' \<notin> set img" by simp
  with lastSegment_subset have "CHR '':'' \<notin> set (lastSegment img)" by blast
  with None show ?thesis by (simp add: splitImage_def del: lastIndex_None)
next
  case (Some i)
  define t where "t = drop (Suc i) img"
  have img: "img = take i img @ CHR '':'' # t" and t: "CHR '':'' \<notin> set t"
    using lastIndex_Some [OF Some] by (simp_all add: t_def)
  have "CHR '':'' \<in> set (lastSegment img) \<longleftrightarrow> CHR ''/'' \<notin> set t"
    using lastSegment_tag [OF t, of "take i img"] img by simp
  moreover have "splitImage img = (if CHR ''/'' \<in> set t then (img, ''latest'') else (take i img, t))"
    using Some by (simp add: splitImage_def t_def)
  ultimately show ?thesis using img by auto
qed

text \<open>The inverse: \<open>splitImage\<close> undoes the chart's join.\<close>

lemma splitImage_join:
  assumes "CHR '':'' \<notin> set tag" and "CHR ''/'' \<notin> set tag"
  shows "splitImage (repository @ '':'' @ tag) = (repository, tag)"
  using assms by (simp add: splitImage_def lastIndex_append)

lemma decodeTemplate_Inr:
  "decodeTemplate postProcess name steps objects = Inr res \<longleftrightarrow>
     (\<forall>e. DecodeFailure e \<notin> set steps) \<and>
     res = objects @ [(case postProcess of None \<Rightarrow> obj | Some f \<Rightarrow> f obj).
                      Document (Some obj) \<leftarrow> steps]"
proof (induction postProcess name steps objects rule: decodeTemplate.induct)
  case (1 postProcess name objects)
  then show ?case by auto
qed auto

definition keptTemplates :: "string smap \<Rightarrow> string smap" where
  "keptTemplates rendered =
     filter (\<lambda>(name, content). \<not> (blank content \<or> baseName name = ''NOTES.txt'')) rendered"

lemma decodeAll_Inr:
  "decodeAll lib postProcess rendered objects = Inr res \<longleftrightarrow>
     (\<forall>(name, content) \<in> set (keptTemplates rendered). \<forall>e.
        DecodeFailure e \<notin> set (lib_Decode lib content)) \<and>
     res = objects @ [(case postProcess of None \<Rightarrow> obj | Some f \<Rightarrow> f obj).
                      (name, content) \<leftarrow> keptTemplates rendered,
                      Document (Some obj) \<leftarrow> lib_Decode lib content]"
proof (induction lib postProcess rendered objects rule: decodeAll.induct)
  case (1 lib postProcess objects)
  then show ?case by (auto simp: keptTemplates_def)
next
  case (2 lib postProcess name content rendered objects)
  show ?case
  proof (cases "blank content \<or> baseName name = ''NOTES.txt''")
    case True
    then have "keptTemplates ((name, content) # rendered) = keptTemplates rendered"
      by (auto simp: keptTemplates_def)
    with True 2(1) [OF True] show ?thesis by simp
  next
    case False
    then have kept: "keptTemplates ((name, content) # rendered) =
        (name, content) # keptTemplates rendered"
      by (simp add: keptTemplates_def)
    show ?thesis
    proof (cases "decodeTemplate postProcess name (lib_Decode lib content) objects")
      case (Inl e)
      then have "\<not> (\<forall>e. DecodeFailure e \<notin> set (lib_Decode lib content))"
        using decodeTemplate_Inr [of postProcess name "lib_Decode lib content" objects] by auto
      with Inl False show ?thesis by (simp add: kept)
    next
      case (Inr objs)
      with decodeTemplate_Inr [of postProcess name "lib_Decode lib content" objects objs]
      have "\<forall>e. DecodeFailure e \<notin> set (lib_Decode lib content)"
        and "objs = objects @ [(case postProcess of None \<Rightarrow> obj | Some f \<Rightarrow> f obj).
                      Document (Some obj) \<leftarrow> lib_Decode lib content]"
        by simp_all
      with 2(2) [OF False Inr] False Inr show ?thesis by (simp add: kept)
    qed
  qed
qed

lemma renderChart_Inr:
  assumes "renderChart lib h gw vals postProcess = Inr objects"
  shows "\<exists>rendered. objects = [(case postProcess of None \<Rightarrow> obj | Some f \<Rightarrow> f obj).
       (name, content) \<leftarrow> keptTemplates rendered, Document (Some obj) \<leftarrow> lib_Decode lib content]"
  using assms by (auto simp: renderChart_def Let_def decodeAll_Inr split: sum.splits)

end
