(* ===== verification/AsyncQueues.thy ===== *)
theory AsyncQueues
  imports Types
begin

text \<open>
  The queue names of the async transports, from \<open>internal/controller/helm_async.go\<close>
  (lines 12-24 and 263-348): which request queue each model publishes to, which result queue
  it reads, and which queues the dispatcher is configured with. The two transports share one
  contract, the locale \<open>queue_transport\<close>.
\<close>

section \<open>Queue names\<close>

definition asyncQueuePrefix :: string where
  "asyncQueuePrefix = ''llm-d-async:''"

definition asyncTransportRedis :: string where
  "asyncTransportRedis = ''redis-sortedset''"

definition asyncTransportSQL :: string where
  "asyncTransportSQL = ''sql''"

definition asyncRequestQueueName :: "string \<Rightarrow> string" where
  "asyncRequestQueueName pool = asyncQueuePrefix @ ''requests:'' @ pool"

definition asyncResultQueueName :: "string \<Rightarrow> string" where
  "asyncResultQueueName pool = asyncQueuePrefix @ ''results:'' @ pool"

definition requestQueueNameFor :: "ModelGatewaySpec \<Rightarrow> string" where
  "requestQueueNameFor gateway =
     (if mg_RequestQueueName gateway \<noteq> '''' then mg_RequestQueueName gateway
      else asyncRequestQueueName (mg_InferencePoolName gateway))"

definition sqlResultQueueNameFor :: "ModelGatewaySpec \<Rightarrow> string" where
  "sqlResultQueueNameFor gateway =
     (if mg_ResultQueueName gateway \<noteq> '''' then mg_ResultQueueName gateway
      else asyncResultQueueName (mg_InferencePoolName gateway))"

section \<open>Models in a stable order\<close>

definition sortedModelNames :: "LLMBatchGateway \<Rightarrow> string list" where
  "sortedModelNames gw = sort (map fst (gwModels gw))"

text \<open>Indexing a Go map with an absent key gives the zero value of the struct.\<close>

definition zeroModelGatewaySpec :: ModelGatewaySpec where
  "zeroModelGatewaySpec = \<lparr>mg_InferencePoolName = '''', mg_InferenceObjective = '''',
     mg_RequestQueueName = '''', mg_ResultQueueName = ''''\<rparr>"

definition modelGateway :: "LLMBatchGateway \<Rightarrow> string \<Rightarrow> ModelGatewaySpec" where
  "modelGateway gw model =
     (case go_get (gwModels gw) model of None \<Rightarrow> zeroModelGatewaySpec | Some g \<Rightarrow> g)"

definition sortedModelGateways :: "LLMBatchGateway \<Rightarrow> ModelGatewaySpec list" where
  "sortedModelGateways gw = map (modelGateway gw) (sortedModelNames gw)"

definition sqlResultQueueName :: "LLMBatchGateway \<Rightarrow> string" where
  "sqlResultQueueName gw =
     (case sortedModelGateways gw of [] \<Rightarrow> '''' | g # _ \<Rightarrow> sqlResultQueueNameFor g)"

section \<open>Dispatcher queues\<close>

definition namedQueue :: "string \<Rightarrow> AsyncQueueConfig" where
  "namedQueue name = \<lparr>q_Name = name, q_WorkerPoolID = '''', q_IGWBaseURL = '''',
     q_RequestPathURL = '''', q_GateType = '''', q_GateParams = []\<rparr>"

text \<open>The loop of \<open>defaultAsyncQueues\<close>, with its set of names already seen.\<close>

fun dedupQueues :: "ModelGatewaySpec list \<Rightarrow> unit smap \<Rightarrow> AsyncQueueConfig list" where
  "dedupQueues [] seen = []"
| "dedupQueues (gateway # gateways) seen =
     (let name = requestQueueNameFor gateway in
      if go_has seen name then dedupQueues gateways seen
      else namedQueue name # dedupQueues gateways (go_set seen name ()))"

definition defaultAsyncQueues :: "LLMBatchGateway \<Rightarrow> AsyncQueueConfig list" where
  "defaultAsyncQueues gw = dedupQueues (sortedModelGateways gw) []"

text \<open>
  The code reads \<open>gw.Spec.Processor.AsyncConfig.Redis\<close> (or \<open>SQL\<close>) through
  pointers its callers have found to be non-nil; here the pointed-to struct is an argument.
\<close>

definition redisQueues :: "LLMBatchGateway \<Rightarrow> AsyncRedisSpec \<Rightarrow> AsyncQueueConfig list" where
  "redisQueues gw redis =
     (if redis_QueuesConfig redis \<noteq> [] then redis_QueuesConfig redis
      else map (\<lambda>q. q\<lparr>q_RequestPathURL := redis_RequestPathURL redis,
                       q_GateType := redis_GateType redis,
                       q_GateParams := redis_GateParams redis\<rparr>)
             (defaultAsyncQueues gw))"

definition sqlQueues :: "LLMBatchGateway \<Rightarrow> AsyncSQLSpec \<Rightarrow> AsyncQueueConfig list" where
  "sqlQueues gw sql =
     (if sql_QueuesConfig sql \<noteq> [] then sql_QueuesConfig sql else defaultAsyncQueues gw)"

section \<open>What the processor publishes to\<close>

definition publishedQueues :: "LLMBatchGateway \<Rightarrow> string set" where
  "publishedQueues gw = requestQueueNameFor ` snd ` set (gwModels gw)"

lemma modelGateway_entry:
  "wf_gateway gw \<Longrightarrow> (model, g) \<in> set (gwModels gw) \<Longrightarrow> modelGateway gw model = g"
  by (simp add: modelGateway_def wf_gateway_def go_get_in)

lemma set_sortedModelNames [simp]: "set (sortedModelNames gw) = fst ` set (gwModels gw)"
  by (simp add: sortedModelNames_def)

lemma distinct_sortedModelNames: "wf_gateway gw \<Longrightarrow> distinct (sortedModelNames gw)"
  by (simp add: sortedModelNames_def wf_gateway_def wf_map_def)

lemma models_by_name:
  "wf_gateway gw \<Longrightarrow> f ` modelGateway gw ` fst ` set (gwModels gw) = f ` snd ` set (gwModels gw)"
  by (force simp: image_image modelGateway_entry intro!: image_cong)

lemma publishedQueues_by_name:
  "wf_gateway gw \<Longrightarrow>
   publishedQueues gw = (\<lambda>m. requestQueueNameFor (modelGateway gw m)) ` fst ` set (gwModels gw)"
  using models_by_name [of gw requestQueueNameFor]
  by (simp add: publishedQueues_def image_image)

lemma q_Name_namedQueue [simp]: "q_Name (namedQueue n) = n"
  by (simp add: namedQueue_def)

lemma dedupQueues_names:
  "q_Name ` set (dedupQueues gs seen) = requestQueueNameFor ` set gs - {n. go_has seen n}"
  by (induction gs seen rule: dedupQueues.induct) (auto simp: Let_def)

lemma dedupQueues_distinct: "distinct (map q_Name (dedupQueues gs seen))"
  by (induction gs seen rule: dedupQueues.induct) (auto simp: Let_def dedupQueues_names)

lemma defaultAsyncQueues_names:
  "wf_gateway gw \<Longrightarrow> q_Name ` set (defaultAsyncQueues gw) = publishedQueues gw"
  using models_by_name [of gw requestQueueNameFor]
  by (simp add: defaultAsyncQueues_def dedupQueues_names sortedModelGateways_def
      publishedQueues_def)

section \<open>The contract of a transport\<close>

text \<open>
  A transport has an optional list of configured queues and yields the dispatcher's queues.
  The law: the configured list wins as it is, and without one the names are the derived ones.
  \<open>covers\<close> is the condition the validation imposes on a configured list.
\<close>

definition covers :: "LLMBatchGateway \<Rightarrow> AsyncQueueConfig list \<Rightarrow> bool" where
  "covers gw qs \<longleftrightarrow> distinct (map q_Name qs) \<and> q_Name ` set qs = publishedQueues gw"

locale queue_transport =
  fixes configured :: "'t \<Rightarrow> AsyncQueueConfig list"
    and queues :: "LLMBatchGateway \<Rightarrow> 't \<Rightarrow> AsyncQueueConfig list"
  assumes configured_wins: "configured t \<noteq> [] \<Longrightarrow> queues gw t = configured t"
    and derived_names:
      "configured t = [] \<Longrightarrow> map q_Name (queues gw t) = map q_Name (defaultAsyncQueues gw)"
begin

lemma queues_cover:
  assumes "wf_gateway gw" and "configured t = [] \<or> covers gw (configured t)"
  shows "covers gw (queues gw t)"
proof (cases "configured t = []")
  case True
  have "q_Name ` set (queues gw t) = set (map q_Name (queues gw t))"
    by simp
  also have "\<dots> = publishedQueues gw"
    using assms(1) by (simp add: derived_names [OF True] defaultAsyncQueues_names)
  finally show ?thesis
    by (simp add: covers_def derived_names [OF True] defaultAsyncQueues_def dedupQueues_distinct)
next
  case False
  then show ?thesis using assms(2) by (simp add: configured_wins)
qed

lemma one_queue_per_model:
  assumes "wf_gateway gw" and "configured t = [] \<or> covers gw (configured t)"
    and "(model, g) \<in> set (gwModels gw)"
  shows "\<exists>!q. q \<in> set (queues gw t) \<and> q_Name q = requestQueueNameFor g"
proof -
  have "covers gw (queues gw t)" by (rule queues_cover) fact+
  then have d: "distinct (map q_Name (queues gw t))"
    and n: "q_Name ` set (queues gw t) = publishedQueues gw"
    by (simp_all add: covers_def)
  have "requestQueueNameFor g \<in> publishedQueues gw"
    using assms(3) by (force simp: publishedQueues_def)
  with n obtain q where "q \<in> set (queues gw t)" "q_Name q = requestQueueNameFor g"
    by (metis imageE)
  then show ?thesis
    using d by (auto simp: distinct_map inj_on_def)
qed

lemma no_idle_queue:
  assumes "wf_gateway gw" and "configured t = [] \<or> covers gw (configured t)"
    and "q \<in> set (queues gw t)"
  shows "\<exists>model g. (model, g) \<in> set (gwModels gw) \<and> requestQueueNameFor g = q_Name q"
  using queues_cover [OF assms(1,2)] assms(3)
  by (force simp: covers_def publishedQueues_def)

end

interpretation redis: queue_transport redis_QueuesConfig redisQueues
  by unfold_locales (simp_all add: redisQueues_def comp_def)

interpretation sql: queue_transport sql_QueuesConfig sqlQueues
  by unfold_locales (simp_all add: sqlQueues_def)

end
