(* ===== verification/Validation.thy ===== *)
theory Validation
  imports AsyncQueues
begin

text \<open>
  \<open>validateSpec\<close> and its helpers, \<open>internal/controller/llmbatchgateway_controller.go\<close>
  lines 718-893. Each function returns \<open>None\<close> (nil) or the error; loops that return early
  are \<open>check_all\<close>. The loop over the model map visits it in the order the runtime picks:
  \<open>visit\<close> is that choice, a permutation of the entries.
\<close>

section \<open>Names and gates\<close>

definition dispatchModeAsync :: string where
  "dispatchModeAsync = ''async''"

definition dispatchModeSync :: string where
  "dispatchModeSync = ''sync''"

definition dbBackendPostgreSQL :: string where
  "dbBackendPostgreSQL = ''postgresql''"

definition gatePrometheusBudget :: string where
  "gatePrometheusBudget = ''prometheus-budget''"

definition gatePrometheusQuery :: string where
  "gatePrometheusQuery = ''prometheus-query''"

definition gatePrometheusSaturation :: string where
  "gatePrometheusSaturation = ''prometheus-saturation''"

definition isPrometheusGate :: "string \<Rightarrow> bool" where
  "isPrometheusGate gateType \<longleftrightarrow>
     gateType = gatePrometheusBudget \<or> gateType = gatePrometheusQuery \<or>
     gateType = gatePrometheusSaturation"

section \<open>The checks\<close>

definition validateAsyncPrometheusGates ::
  "string \<Rightarrow> AsyncQueueConfig list \<Rightarrow> AsyncWorkerPool list \<Rightarrow> string \<Rightarrow> validation_error option" where
  "validateAsyncPrometheusGates transport queues pools prometheusURL =
     (if prometheusURL \<noteq> '''' then None
      else case check_all (\<lambda>q. if isPrometheusGate (q_GateType q)
                    then Some (PrometheusURLRequiredForQueue transport (q_Name q) (q_GateType q))
                    else None) queues of
             Some e \<Rightarrow> Some e
           | None \<Rightarrow> check_all (\<lambda>p. if isPrometheusGate (wp_GateType p)
                    then Some (PrometheusURLRequiredForPool (wp_Name p) (wp_GateType p))
                    else None) pools)"

definition validateAsyncQueueGatewayURL ::
  "string \<Rightarrow> AsyncQueueConfig list \<Rightarrow> InferenceGatewaySpec option \<Rightarrow> validation_error option" where
  "validateAsyncQueueGatewayURL transport queues ig =
     (if (case ig of Some g \<Rightarrow> ig_URL g \<noteq> '''' | None \<Rightarrow> False) then None
      else check_all (\<lambda>q. if q_IGWBaseURL q = ''''
                          then Some (GatewayURLRequired transport (q_Name q)) else None) queues)"

text \<open>
  The loop that fills \<open>configured\<close>: the error of the first repeated name, or the set.
\<close>

fun configuredSet ::
  "string \<Rightarrow> AsyncQueueConfig list \<Rightarrow> unit smap \<Rightarrow> validation_error + unit smap" where
  "configuredSet transport [] configured = Inr configured"
| "configuredSet transport (q # qs) configured =
     (if go_has configured (q_Name q) then Inl (DuplicateQueue transport (q_Name q))
      else configuredSet transport qs (go_set configured (q_Name q) ()))"

definition publishedMap :: "LLMBatchGateway \<Rightarrow> string smap" where
  "publishedMap gw =
     fold (\<lambda>model published. go_set published (requestQueueNameFor (modelGateway gw model)) model)
       (sortedModelNames gw) []"

definition validateAsyncQueueCoverage ::
  "string \<Rightarrow> LLMBatchGateway \<Rightarrow> AsyncQueueConfig list \<Rightarrow> validation_error option" where
  "validateAsyncQueueCoverage transport gw queues =
     (let published = publishedMap gw in
      case configuredSet transport queues [] of
        Inl e \<Rightarrow> Some e
      | Inr configured \<Rightarrow>
          (case check_all (\<lambda>model.
                  let requestQueue = requestQueueNameFor (modelGateway gw model) in
                  if go_has configured requestQueue then None
                  else Some (MissingRequestQueue transport requestQueue model))
                (sortedModelNames gw) of
             Some e \<Rightarrow> Some e
           | None \<Rightarrow> check_all (\<lambda>q. if go_has published (q_Name q) then None
                                     else Some (UnpublishedQueue transport (q_Name q))) queues))"

definition validateAsyncRedisConfig ::
  "LLMBatchGateway \<Rightarrow> AsyncProcessorSpec \<Rightarrow> AsyncRedisSpec \<Rightarrow> validation_error option" where
  "validateAsyncRedisConfig gw ac redis =
     (case (if redis_QueuesConfig redis \<noteq> []
            then validateAsyncQueueCoverage ''redis'' gw (redis_QueuesConfig redis) else None) of
        Some e \<Rightarrow> Some e
      | None \<Rightarrow>
          (let queues = redisQueues gw redis in
           case validateAsyncQueueGatewayURL ''Redis'' queues (ac_InferenceGateway ac) of
             Some e \<Rightarrow> Some e
           | None \<Rightarrow> validateAsyncPrometheusGates ''Redis'' queues (ac_WorkerPools ac)
                       (ac_PrometheusURL ac)))"

text \<open>
  The two loops of \<open>validateAsyncSQLConfig\<close> over the sorted models have the same shape: the
  map from a key (pool, result queue) to the model that has it, and an error when it is taken.
\<close>

fun uniqueKeys ::
  "(string \<Rightarrow> string) \<Rightarrow> (string \<Rightarrow> string \<Rightarrow> string \<Rightarrow> validation_error) \<Rightarrow>
   string list \<Rightarrow> string smap \<Rightarrow> validation_error option" where
  "uniqueKeys key err [] taken = None"
| "uniqueKeys key err (model # models) taken =
     (case go_get taken (key model) of
        Some other \<Rightarrow> Some (err other model (key model))
      | None \<Rightarrow> uniqueKeys key err models (go_set taken (key model) model))"

definition validateAsyncSQLConfig ::
  "LLMBatchGateway \<Rightarrow> AsyncProcessorSpec \<Rightarrow> AsyncSQLSpec \<Rightarrow> validation_error option" where
  "validateAsyncSQLConfig gw ac sql =
     (let models = sortedModelNames gw in
      case uniqueKeys (\<lambda>m. mg_InferencePoolName (modelGateway gw m)) SharedInferencePool models [] of
        Some e \<Rightarrow> Some e
      | None \<Rightarrow>
      (case uniqueKeys (\<lambda>m. sqlResultQueueNameFor (modelGateway gw m)) SharedResultQueue models [] of
        Some e \<Rightarrow> Some e
      | None \<Rightarrow>
      (case (if sql_QueuesConfig sql \<noteq> []
             then validateAsyncQueueCoverage ''sql'' gw (sql_QueuesConfig sql) else None) of
        Some e \<Rightarrow> Some e
      | None \<Rightarrow>
          (let queues = sqlQueues gw sql in
           case validateAsyncQueueGatewayURL ''SQL'' queues (ac_InferenceGateway ac) of
             Some e \<Rightarrow> Some e
           | None \<Rightarrow> validateAsyncPrometheusGates ''SQL'' queues (ac_WorkerPools ac)
                       (ac_PrometheusURL ac)))))"

definition validateModelGateway :: "string \<times> ModelGatewaySpec \<Rightarrow> validation_error option" where
  "validateModelGateway = (\<lambda>(model, gateway).
     if mg_InferencePoolName gateway = '''' then Some (InferencePoolRequired model)
     else if (mg_RequestQueueName gateway = '''') \<noteq> (mg_ResultQueueName gateway = '''')
          then Some (QueueNamesMismatch model)
     else None)"

definition validateSpec ::
  "(ModelGatewaySpec smap \<Rightarrow> ModelGatewaySpec smap) \<Rightarrow> LLMBatchGateway \<Rightarrow> validation_error option" where
  "validateSpec visit gw =
     (if spec_DBBackend (gw_Spec gw) \<noteq> '''' \<and> spec_DBBackend (gw_Spec gw) \<noteq> dbBackendPostgreSQL
      then Some (UnsupportedDBBackend (spec_DBBackend (gw_Spec gw)))
      else if proc_DispatchMode (gwProcessor gw) = dispatchModeSync then Some SyncDispatchRemoved
      else case gwAsync gw of
        None \<Rightarrow> Some AsyncConfigRequired
      | Some ac \<Rightarrow>
          (if ac_Redis ac \<noteq> None \<and> ac_SQL ac \<noteq> None then Some RedisAndSQL
           else if ac_Redis ac = None \<and> ac_SQL ac = None then Some NoTransport
           else if ac_ResultPollTimeout ac = '''' then Some ResultPollTimeoutRequired
           else if gwModels gw = [] then Some ModelGatewaysRequired
           else case check_all validateModelGateway (visit (gwModels gw)) of
             Some e \<Rightarrow> Some e
           | None \<Rightarrow>
               (case ac_Redis ac of
                  Some redis \<Rightarrow> validateAsyncRedisConfig gw ac redis
                | None \<Rightarrow>
                    (case ac_SQL ac of
                       Some sql \<Rightarrow> validateAsyncSQLConfig gw ac sql
                     | None \<Rightarrow> None))))"

section \<open>Acceptance, stated without loops\<close>

definition model_ok :: "ModelGatewaySpec \<Rightarrow> bool" where
  "model_ok g \<longleftrightarrow> mg_InferencePoolName g \<noteq> '''' \<and>
     (mg_RequestQueueName g = '''' \<longleftrightarrow> mg_ResultQueueName g = '''')"

definition urls_ok :: "AsyncProcessorSpec \<Rightarrow> AsyncQueueConfig list \<Rightarrow> bool" where
  "urls_ok ac qs \<longleftrightarrow> (\<exists>ig. ac_InferenceGateway ac = Some ig \<and> ig_URL ig \<noteq> '''') \<or>
     (\<forall>q \<in> set qs. q_IGWBaseURL q \<noteq> '''')"

definition gates_ok :: "AsyncProcessorSpec \<Rightarrow> AsyncQueueConfig list \<Rightarrow> bool" where
  "gates_ok ac qs \<longleftrightarrow> ac_PrometheusURL ac \<noteq> '''' \<or>
     (\<forall>q \<in> set qs. \<not> isPrometheusGate (q_GateType q)) \<and>
     (\<forall>p \<in> set (ac_WorkerPools ac). \<not> isPrometheusGate (wp_GateType p))"

definition queues_ok ::
  "LLMBatchGateway \<Rightarrow> AsyncProcessorSpec \<Rightarrow> AsyncQueueConfig list \<Rightarrow> AsyncQueueConfig list \<Rightarrow> bool" where
  "queues_ok gw ac configured queues \<longleftrightarrow>
     (configured = [] \<or> covers gw configured) \<and> urls_ok ac queues \<and> gates_ok ac queues"

definition distinct_models :: "LLMBatchGateway \<Rightarrow> (ModelGatewaySpec \<Rightarrow> string) \<Rightarrow> bool" where
  "distinct_models gw f \<longleftrightarrow> distinct (map (\<lambda>(model, g). f g) (gwModels gw))"

definition redis_ok :: "LLMBatchGateway \<Rightarrow> AsyncProcessorSpec \<Rightarrow> AsyncRedisSpec \<Rightarrow> bool" where
  "redis_ok gw ac redis \<longleftrightarrow> queues_ok gw ac (redis_QueuesConfig redis) (redisQueues gw redis)"

definition sql_ok :: "LLMBatchGateway \<Rightarrow> AsyncProcessorSpec \<Rightarrow> AsyncSQLSpec \<Rightarrow> bool" where
  "sql_ok gw ac sql \<longleftrightarrow>
     distinct_models gw mg_InferencePoolName \<and> distinct_models gw sqlResultQueueNameFor \<and>
     queues_ok gw ac (sql_QueuesConfig sql) (sqlQueues gw sql)"

definition valid_spec :: "LLMBatchGateway \<Rightarrow> bool" where
  "valid_spec gw \<longleftrightarrow>
     spec_DBBackend (gw_Spec gw) \<in> {'''', dbBackendPostgreSQL} \<and>
     proc_DispatchMode (gwProcessor gw) \<noteq> dispatchModeSync \<and>
     gwModels gw \<noteq> [] \<and> (\<forall>(model, g) \<in> set (gwModels gw). model_ok g) \<and>
     (\<exists>ac. gwAsync gw = Some ac \<and> ac_ResultPollTimeout ac \<noteq> '''' \<and>
        ((\<exists>redis. ac_Redis ac = Some redis \<and> ac_SQL ac = None \<and> redis_ok gw ac redis) \<or>
         (\<exists>sql. ac_SQL ac = Some sql \<and> ac_Redis ac = None \<and> sql_ok gw ac sql)))"

lemma gates_None [check_simps]:
  "validateAsyncPrometheusGates tr qs (ac_WorkerPools ac) (ac_PrometheusURL ac) = None
   \<longleftrightarrow> gates_ok ac qs"
  by (auto simp: validateAsyncPrometheusGates_def gates_ok_def check_simps)

lemma urls_None [check_simps]:
  "validateAsyncQueueGatewayURL tr qs (ac_InferenceGateway ac) = None \<longleftrightarrow> urls_ok ac qs"
  by (auto simp: validateAsyncQueueGatewayURL_def urls_ok_def check_simps split: option.splits)

lemma configuredSet_cases:
  "case configuredSet tr qs cfg of
     Inr c \<Rightarrow> distinct (map q_Name qs) \<and> (\<forall>q \<in> set qs. \<not> go_has cfg (q_Name q)) \<and>
       (\<forall>n. go_has c n \<longleftrightarrow> n \<in> q_Name ` set qs \<or> go_has cfg n)
   | Inl e \<Rightarrow> \<not> (distinct (map q_Name qs) \<and> (\<forall>q \<in> set qs. \<not> go_has cfg (q_Name q)))"
proof (induction tr qs cfg rule: configuredSet.induct)
  case (1 tr cfg)
  then show ?case by simp
next
  case (2 tr q qs cfg)
  then show ?case
    by (cases "go_has cfg (q_Name q)") (auto split: sum.splits)
qed

lemma publishedMap_has:
  "wf_gateway gw \<Longrightarrow> go_has (publishedMap gw) n \<longleftrightarrow> n \<in> publishedQueues gw"
  by (auto simp: publishedMap_def go_has_fold_set publishedQueues_by_name)

lemma coverage_None [check_simps]:
  assumes "wf_gateway gw"
  shows "validateAsyncQueueCoverage tr gw qs = None \<longleftrightarrow> covers gw qs"
proof (cases "configuredSet tr qs []")
  case (Inl e)
  then have "\<not> distinct (map q_Name qs)"
    using configuredSet_cases [of qs "[]" tr] by simp
  with Inl show ?thesis
    by (simp add: validateAsyncQueueCoverage_def Let_def covers_def)
next
  case (Inr c)
  then have d: "distinct (map q_Name qs)" and c: "\<And>n. go_has c n \<longleftrightarrow> n \<in> q_Name ` set qs"
    using configuredSet_cases [of qs "[]" tr] by auto
  have "validateAsyncQueueCoverage tr gw qs = None \<longleftrightarrow>
      publishedQueues gw \<subseteq> q_Name ` set qs \<and> q_Name ` set qs \<subseteq> publishedQueues gw"
    using Inr assms
    by (auto simp: validateAsyncQueueCoverage_def Let_def check_simps c publishedMap_has
        publishedQueues_by_name)
  with d show ?thesis by (auto simp: covers_def)
qed

lemma uniqueKeys_None [check_simps]:
  "uniqueKeys key err ms taken = None \<longleftrightarrow>
     distinct (map key ms) \<and> (\<forall>m \<in> set ms. go_get taken (key m) = None)"
  by (induction key err ms taken rule: uniqueKeys.induct) (auto split: option.splits)

lemma distinct_by_name:
  assumes "wf_gateway gw"
  shows "distinct (map (\<lambda>m. f (modelGateway gw m)) (sortedModelNames gw)) \<longleftrightarrow> distinct_models gw f"
proof -
  have "distinct (map (\<lambda>m. f (modelGateway gw m)) (sortedModelNames gw))
      \<longleftrightarrow> distinct (map (\<lambda>m. f (modelGateway gw m)) (map fst (gwModels gw)))"
    by (simp only: sortedModelNames_def distinct_map [of "\<lambda>m. f (modelGateway gw m)"]
        distinct_sort set_sort)
  also have "map (\<lambda>m. f (modelGateway gw m)) (map fst (gwModels gw))
      = map (\<lambda>(model, g). f g) (gwModels gw)"
    using modelGateway_entry [OF assms] by (auto intro!: map_cong)
  finally show ?thesis
    by (simp only: distinct_models_def)
qed

lemma redis_None [check_simps]:
  "wf_gateway gw \<Longrightarrow> validateAsyncRedisConfig gw ac redis = None \<longleftrightarrow> redis_ok gw ac redis"
  by (auto simp: validateAsyncRedisConfig_def Let_def redis_ok_def queues_ok_def check_simps)

lemma sql_None [check_simps]:
  "wf_gateway gw \<Longrightarrow> validateAsyncSQLConfig gw ac sql = None \<longleftrightarrow> sql_ok gw ac sql"
  by (auto simp: validateAsyncSQLConfig_def Let_def sql_ok_def queues_ok_def check_simps
      distinct_by_name)

lemma validateModelGateway_None [check_simps]:
  "validateModelGateway e = None \<longleftrightarrow> model_ok (snd e)"
  by (cases e) (auto simp: validateModelGateway_def model_ok_def)

lemma validateSpec_None:
  assumes "wf_gateway gw" and "set (visit (gwModels gw)) = set (gwModels gw)"
  shows "validateSpec visit gw = None \<longleftrightarrow> valid_spec gw"
  using assms
  by (auto simp: validateSpec_def valid_spec_def check_simps split: option.splits)

lemma configuredSet_Inl:
  "configuredSet tr qs cfg = Inl e \<Longrightarrow> \<exists>n. e = DuplicateQueue tr n \<and>
     (\<exists>ys q zs. qs = ys @ q # zs \<and> q_Name q = n \<and> (go_has cfg n \<or> n \<in> q_Name ` set ys))"
proof (induction tr qs cfg rule: configuredSet.induct)
  case (1 tr cfg)
  then show ?case by simp
next
  case (2 tr q qs cfg)
  show ?case
  proof (cases "go_has cfg (q_Name q)")
    case True
    have "q # qs = [] @ q # qs" by simp
    with True 2(2) show ?thesis by (metis configuredSet.simps(2) sum.inject(1))
  next
    case False
    with 2 obtain n ys r zs where "e = DuplicateQueue tr n" "qs = ys @ r # zs" "q_Name r = n"
      "go_has (go_set cfg (q_Name q) ()) n \<or> n \<in> q_Name ` set ys" by auto
    then show ?thesis
      by (intro exI [of _ n] conjI exI [of _ "q # ys"] exI [of _ r] exI [of _ zs]) auto
  qed
qed

lemma check_all_mem: "check_all f xs = Some e \<Longrightarrow> \<exists>x \<in> set xs. f x = Some e"
  by (auto simp: check_all_Some)

text \<open>No check looks at a queue's worker pool.\<close>

definition setPools :: "(AsyncQueueConfig \<Rightarrow> string) \<Rightarrow> AsyncQueueConfig list \<Rightarrow> AsyncQueueConfig list" where
  "setPools f qs = map (\<lambda>q. q\<lparr>q_WorkerPoolID := f q\<rparr>) qs"

lemma check_all_map: "check_all g (map h xs) = check_all (\<lambda>x. g (h x)) xs"
  by (induction xs) (auto split: option.split)

lemma setPools_checks:
  "configuredSet tr (setPools f qs) cfg = configuredSet tr qs cfg"
  "validateAsyncQueueCoverage tr gw (setPools f qs) = validateAsyncQueueCoverage tr gw qs"
  "validateAsyncQueueGatewayURL tr (setPools f qs) ig = validateAsyncQueueGatewayURL tr qs ig"
  "validateAsyncPrometheusGates tr (setPools f qs) pools url = validateAsyncPrometheusGates tr qs pools url"
  "setPools f qs = [] \<longleftrightarrow> qs = []"
proof -
  show c: "configuredSet tr (setPools f qs) cfg = configuredSet tr qs cfg" for cfg
    by (induction qs arbitrary: cfg) (simp_all add: setPools_def)
  show "validateAsyncQueueCoverage tr gw (setPools f qs) = validateAsyncQueueCoverage tr gw qs"
    unfolding validateAsyncQueueCoverage_def Let_def c
    by (simp add: setPools_def check_all_map cong: if_cong sum.case_cong option.case_cong)
  show "validateAsyncQueueGatewayURL tr (setPools f qs) ig = validateAsyncQueueGatewayURL tr qs ig"
    by (simp add: validateAsyncQueueGatewayURL_def setPools_def check_all_map
        cong: if_cong option.case_cong)
  show "validateAsyncPrometheusGates tr (setPools f qs) pools url = validateAsyncPrometheusGates tr qs pools url"
    by (simp add: validateAsyncPrometheusGates_def setPools_def check_all_map
        cong: if_cong option.case_cong)
  show "setPools f qs = [] \<longleftrightarrow> qs = []"
    by (simp add: setPools_def)
qed

section \<open>Properties\<close>

text \<open>
  C7: in whatever order the runtime visits the model gateways, \<open>validateSpec\<close> accepts exactly
  the specs that satisfy the rules: PostgreSQL or no backend named, not the removed sync mode, one
  of the two transports, a poll timeout, at least one model, every model with a pool and both or no
  queue names, configured queues that are exactly the published ones, a gateway URL for every
  queue, a Prometheus URL when a gate needs it, and for SQL distinct pools and result queues.
\<close>

theorem validation_accepts_exactly:
  assumes "wf_gateway gw" and "set (visit (gwModels gw)) = set (gwModels gw)"
  shows "validateSpec visit gw = None \<longleftrightarrow> valid_spec gw"
  using assms by (rule validateSpec_None)

text \<open>
  C34: the coverage check reports a true error, and the most useful one first: a duplicate only
  for a name that occurs twice, a missing queue only when the names are distinct and none is the
  queue that this model publishes to, and an unpublished queue only when nothing is missing.
\<close>

theorem coverage_errors_true_and_ordered:
  assumes "wf_gateway gw" and "validateAsyncQueueCoverage tr gw qs = Some e"
  shows "(\<exists>n. e = DuplicateQueue tr n \<and>
       (\<exists>ys q zs. qs = ys @ q # zs \<and> q_Name q = n \<and> n \<in> q_Name ` set ys)) \<or>
    (\<exists>n model g. e = MissingRequestQueue tr n model \<and> distinct (map q_Name qs) \<and>
       (model, g) \<in> set (gwModels gw) \<and> requestQueueNameFor g = n \<and> n \<notin> q_Name ` set qs) \<or>
    (\<exists>n. e = UnpublishedQueue tr n \<and> distinct (map q_Name qs) \<and>
       publishedQueues gw \<subseteq> q_Name ` set qs \<and> n \<in> q_Name ` set qs - publishedQueues gw)"
proof (cases "configuredSet tr qs []")
  case (Inl d)
  with assms(2) have "e = d" by (simp add: validateAsyncQueueCoverage_def Let_def)
  with configuredSet_Inl [OF Inl] show ?thesis by auto
next
  case (Inr c)
  then have d: "distinct (map q_Name qs)" and c: "\<And>n. go_has c n \<longleftrightarrow> n \<in> q_Name ` set qs"
    using configuredSet_cases [of qs "[]" tr] by auto
  let ?missing = "check_all (\<lambda>model. let requestQueue = requestQueueNameFor (modelGateway gw model)
      in if go_has c requestQueue then None
         else Some (MissingRequestQueue tr requestQueue model)) (sortedModelNames gw)"
  let ?extra = "check_all (\<lambda>q. if go_has (publishedMap gw) (q_Name q) then None
      else Some (UnpublishedQueue tr (q_Name q))) qs"
  have e: "(case ?missing of Some e \<Rightarrow> Some e | None \<Rightarrow> ?extra) = Some e"
    using assms(2) Inr by (simp add: validateAsyncQueueCoverage_def Let_def)
  show ?thesis
  proof (cases ?missing)
    case (Some x)
    with e have "?missing = Some e" by simp
    from check_all_mem [OF this] obtain model g where g: "(model, g) \<in> set (gwModels gw)"
      and m: "\<not> go_has c (requestQueueNameFor (modelGateway gw model))"
      "e = MissingRequestQueue tr (requestQueueNameFor (modelGateway gw model)) model"
      by (auto simp: Let_def split: if_splits)
    with m assms(1) d c show ?thesis by (auto simp: modelGateway_entry)
  next
    case None
    with e have "?extra = Some e" by simp
    from check_all_mem [OF this] obtain q where "q \<in> set qs" "\<not> go_has (publishedMap gw) (q_Name q)"
      "e = UnpublishedQueue tr (q_Name q)"
      by (auto split: if_splits)
    moreover have "publishedQueues gw \<subseteq> q_Name ` set qs"
      using None by (force simp: check_all_None Let_def c publishedQueues_by_name [OF assms(1)]
          split: if_splits)
    ultimately show ?thesis using d assms(1) by (auto simp: publishedMap_has)
  qed
qed

text \<open>
  The worker pool a queue names is not checked by either transport: the result of the
  validation does not change whatever pool names the configured queues carry, so a queue can
  name a pool that \<open>workerPools\<close> does not have.
\<close>

lemma worker_pool_of_queue_unchecked:
  "validateAsyncRedisConfig gw ac (redis\<lparr>redis_QueuesConfig := setPools f (redis_QueuesConfig redis)\<rparr>)
     = validateAsyncRedisConfig gw ac redis \<and>
   validateAsyncSQLConfig gw ac (sql\<lparr>sql_QueuesConfig := setPools f (sql_QueuesConfig sql)\<rparr>)
     = validateAsyncSQLConfig gw ac sql"
  by (simp add: validateAsyncRedisConfig_def validateAsyncSQLConfig_def redisQueues_def sqlQueues_def
      setPools_checks Let_def split: option.split)

end
