(* ===== verification/HelmBatch.thy ===== *)
theory HelmBatch
  imports Helm Validation
begin

text \<open>
  \<open>internal/controller/helm_batch.go\<close>: the mapping from the custom resource to the values of
  the batch-gateway chart. The long function \<open>specToBatchHelmValues\<close> is one definition per
  section of the source (global, API server, processor, GC, the rest), composed at the end;
  a map the code fills by assignments is a chain of rebindings of the same name.
\<close>

section \<open>Helpers\<close>

definition quantityValues :: "string smap \<Rightarrow> val" where
  "quantityValues quantities =
     (let m = setSome [] ''cpu'' VStr (go_get quantities ''cpu'');
          m = setSome m ''memory'' VStr (go_get quantities ''memory'')
      in VMap m)"

definition resourceRequirementsToMap :: "ResourceRequirements \<Rightarrow> val" where
  "resourceRequirementsToMap r =
     (let m = setSome [] ''limits'' quantityValues (res_Limits r);
          m = setSome m ''requests'' quantityValues (res_Requests r)
      in VMap m)"

definition asyncModelGatewayToMap :: "ModelGatewaySpec \<Rightarrow> val" where
  "asyncModelGatewayToMap gw =
     (let m = setIfNotEmpty [] ''inferencePoolName'' (mg_InferencePoolName gw);
          m = setIfNotEmpty m ''inferenceObjective'' (mg_InferenceObjective gw);
          m = setIfNotEmpty m ''requestQueueName'' (mg_RequestQueueName gw);
          m = setIfNotEmpty m ''resultQueueName'' (mg_ResultQueueName gw)
      in VMap m)"

definition batchAPIValues :: "BatchAPIConfig \<Rightarrow> vmap" where
  "batchAPIValues b =
     (let ba = setInt32 [] ''eventTTLSeconds'' (batch_EventTTLSeconds b);
          ba = setIf (batch_PassThroughHeaders b \<noteq> []) ba ''passThroughHeaders''
                 (toInterfaceSlice (batch_PassThroughHeaders b));
          ba = setSome ba ''extraEndpoints'' toInterfaceSlice (batch_ExtraEndpoints b)
      in ba)"

definition fileAPIValues :: "FileAPIConfig \<Rightarrow> vmap" where
  "fileAPIValues f =
     (let fa = setIf (file_DefaultExpirationSeconds f \<noteq> 0) [] ''defaultExpirationSeconds''
                 (VInt (file_DefaultExpirationSeconds f));
          fa = setIf (file_MaxLineCount f \<noteq> 0) fa ''maxLineCount'' (VInt (file_MaxLineCount f))
      in fa)"

text \<open>A sub-map is stored only when it has entries (\<open>len(x) > 0\<close>).\<close>

definition setSubmap :: "vmap \<Rightarrow> string \<Rightarrow> vmap \<Rightarrow> vmap" where
  "setSubmap m key sub = setIf (sub \<noteq> []) m key (VMap sub)"

lemma get_setSubmap [simp, lookup_simps]:
  "go_get (setSubmap m key sub) k = (if k = key \<and> sub \<noteq> [] then Some (VMap sub) else go_get m k)"
  by (auto simp: setSubmap_def)

definition apiServerConfigToMap :: "APIServerConfigSpec \<Rightarrow> val" where
  "apiServerConfigToMap cfg =
     (let m = setInt32 [] ''port'' (apicfg_Port cfg);
          m = setInt32 m ''observabilityPort'' (apicfg_ObservabilityPort cfg);
          m = setInt32 m ''readTimeoutSeconds'' (apicfg_ReadTimeoutSeconds cfg);
          m = setInt32 m ''writeTimeoutSeconds'' (apicfg_WriteTimeoutSeconds cfg);
          m = setInt32 m ''idleTimeoutSeconds'' (apicfg_IdleTimeoutSeconds cfg);
          m = (case apicfg_BatchAPI cfg of None \<Rightarrow> m
               | Some b \<Rightarrow> setSubmap m ''batchAPI'' (batchAPIValues b));
          m = (case apicfg_FileAPI cfg of None \<Rightarrow> m
               | Some f \<Rightarrow> setSubmap m ''fileAPI'' (fileAPIValues f));
          m = setIf (apicfg_InputHeaders cfg \<noteq> []) m ''inputHeaders''
                (toStringInterfaceMap (apicfg_InputHeaders cfg));
          m = setIf (apicfg_EnablePprof cfg) m ''enablePprof'' (VBool True)
      in VMap m)"

definition aimdValues :: "AIMDConfig \<Rightarrow> vmap" where
  "aimdValues a =
     (let aimd = setSome [] ''enabled'' VBool (aimd_Enabled a);
          aimd = setInt32 aimd ''min'' (aimd_Min a);
          aimd = setIfNotEmpty aimd ''backoffFactor'' (aimd_BackoffFactor a);
          aimd = setInt32 aimd ''additiveIncrease'' (aimd_AdditiveIncrease a)
      in aimd)"

definition concurrencyValues :: "ConcurrencyConfig \<Rightarrow> vmap" where
  "concurrencyValues c =
     (let concurrency = setInt32 [] ''global'' (conc_Global c);
          concurrency = setInt32 concurrency ''perEndpoint'' (conc_PerEndpoint c);
          concurrency = setInt32 concurrency ''recovery'' (conc_Recovery c);
          concurrency = (case conc_AIMD c of None \<Rightarrow> concurrency
                         | Some a \<Rightarrow> setSubmap concurrency ''aimd'' (aimdValues a))
      in concurrency)"

definition resumableValues :: "ResumableConfigSpec \<Rightarrow> vmap" where
  "resumableValues r =
     (let resumable = setIfNotEmpty [] ''leaseDuration'' (resume_LeaseDuration r);
          resumable = setInt32 resumable ''finalizeConcurrency'' (resume_FinalizeConcurrency r);
          resumable = setIfNotEmpty resumable ''finalizeTimeout'' (resume_FinalizeTimeout r)
      in resumable)"

definition mergeProcessorConfig :: "vmap \<Rightarrow> ProcessorConfigSpec \<Rightarrow> vmap" where
  "mergeProcessorConfig m cfg =
     (let m = setInt32 m ''numWorkers'' (pcfg_NumWorkers cfg);
          m = setInt32 m ''inputFileDiskBudgetPercent'' (pcfg_InputFileDiskBudgetPercent cfg);
          m = setSome m ''extraEndpoints'' toInterfaceSlice (pcfg_ExtraEndpoints cfg);
          m = (case pcfg_Concurrency cfg of None \<Rightarrow> m
               | Some c \<Rightarrow> setSubmap m ''concurrency'' (concurrencyValues c));
          m = (case pcfg_Resumable cfg of None \<Rightarrow> m
               | Some r \<Rightarrow> setSubmap m ''resumable'' (resumableValues r));
          m = setIf (pcfg_DefaultOutputExpirationSeconds cfg \<noteq> 0) m ''defaultOutputExpirationSeconds''
                (VInt (pcfg_DefaultOutputExpirationSeconds cfg));
          m = setIfNotEmpty m ''progressUpdateInterval'' (pcfg_ProgressUpdateInterval cfg);
          m = setSome m ''sendFairnessHeader'' VBool (pcfg_SendFairnessHeader cfg);
          m = setIfNotEmpty m ''routeKeyMethod'' (pcfg_RouteKeyMethod cfg);
          m = setIf (pcfg_EnablePprof cfg) m ''enablePprof'' (VBool True)
      in m)"

section \<open>Global values\<close>

definition s3Values :: "S3StorageSpec \<Rightarrow> val" where
  "s3Values s3 =
     (let s3Vals = setIfNotEmpty [] ''region'' (s3_Region s3);
          s3Vals = setIfNotEmpty s3Vals ''bucket'' (s3_Bucket s3);
          s3Vals = setIfNotEmpty s3Vals ''endpoint'' (s3_Endpoint s3);
          s3Vals = setIfNotEmpty s3Vals ''accessKeyId'' (s3_AccessKeyID s3);
          s3Vals = setIfNotEmpty s3Vals ''prefix'' (s3_Prefix s3);
          s3Vals = go_set s3Vals ''usePathStyle'' (VBool (s3_UsePathStyle s3));
          s3Vals = setSome s3Vals ''autoCreateBucket'' VBool (s3_AutoCreateBucket s3)
      in VMap s3Vals)"

definition fsValues :: "FSStorageSpec \<Rightarrow> val" where
  "fsValues fs =
     (let fsVals = setIfNotEmpty [] ''basePath'' (fs_BasePath fs);
          fsVals = setIfNotEmpty fsVals ''pvcName'' (fs_ClaimName fs)
      in VMap fsVals)"

definition retryValues :: "FileRetrySpec \<Rightarrow> vmap" where
  "retryValues r =
     (let retryVals = setSome [] ''maxRetries'' VInt32 (retry_MaxRetries r);
          retryVals = setIfNotEmpty retryVals ''initialBackoff'' (retry_InitialBackoff r);
          retryVals = setIfNotEmpty retryVals ''maxBackoff'' (retry_MaxBackoff r)
      in retryVals)"

definition fileClientValues :: "FileStorageSpec \<Rightarrow> val" where
  "fileClientValues storage =
     (let fc = [];
          fc = (case storage_S3 storage of None \<Rightarrow> fc
                | Some s3 \<Rightarrow> go_set (go_set fc ''type'' (VStr ''s3'')) ''s3'' (s3Values s3));
          fc = (case storage_FS storage of None \<Rightarrow> fc
                | Some fs \<Rightarrow> go_set (go_set fc ''type'' (VStr ''fs'')) ''fs'' (fsValues fs));
          fc = (case storage_Retry storage of None \<Rightarrow> fc
                | Some r \<Rightarrow> setSubmap fc ''retry'' (retryValues r))
      in VMap fc)"

definition batchOtelValues :: "OTELSpec \<Rightarrow> val" where
  "batchOtelValues otel =
     (let otelVals = setIfNotEmpty [] ''endpoint'' (otel_Endpoint otel);
          otelVals = go_set otelVals ''insecure'' (VBool (otel_Insecure otel));
          otelVals = setIfNotEmpty otelVals ''sampler'' (otel_Sampler otel);
          otelVals = setIfNotEmpty otelVals ''samplerArg'' (otel_SamplerArg otel);
          otelVals = go_set otelVals ''postgresqlTracing'' (VBool (otel_PostgresqlTracing otel))
      in VMap otelVals)"

definition imagePullSecretValues :: "LocalObjectReference list \<Rightarrow> val" where
  "imagePullSecretValues secrets = VList (map (\<lambda>s. VMap [(''name'', VStr (lor_Name s))]) secrets)"

text \<open>\<open>gw.Spec.APIServer.Config.FileAPI.MaxSizeBytes\<close>, when it is reachable and non-zero.\<close>

definition maxInputFileSize :: "LLMBatchGatewaySpec \<Rightarrow> int64 option" where
  "maxInputFileSize spec =
     (case api_Config (spec_APIServer spec) of
        None \<Rightarrow> None
      | Some cfg \<Rightarrow> (case apicfg_FileAPI cfg of
          None \<Rightarrow> None
        | Some f \<Rightarrow> if file_MaxSizeBytes f \<noteq> 0 then Some (file_MaxSizeBytes f) else None))"

definition globalValues :: "LLMBatchGateway \<Rightarrow> string \<Rightarrow> vmap" where
  "globalValues gw secretName =
     (let spec = gw_Spec gw;
          dbType = (if spec_DBBackend spec = '''' then dbBackendPostgreSQL else spec_DBBackend spec);
          global = [(''secretName'', VStr secretName), (''dbClient'', VMap [(''type'', VStr dbType)])];
          global = setSome global ''extraEndpoints'' toInterfaceSlice (spec_ExtraEndpoints spec);
          global = setSome global ''maxInputFileSizeBytes'' VInt (maxInputFileSize spec);
          global = setSome global ''fileClient'' fileClientValues (spec_FileStorage spec);
          global = setSome global ''otel'' batchOtelValues (spec_OTEL spec);
          global = setIf (spec_ImagePullSecrets spec \<noteq> []) global ''imagePullSecrets''
                     (imagePullSecretValues (spec_ImagePullSecrets spec))
      in global)"

section \<open>API server values\<close>

text \<open>The three \<open>splitImage\<close> / pull policy blocks have the same shape.\<close>

definition imageValues :: "string \<Rightarrow> string \<Rightarrow> val" where
  "imageValues img pullPolicy =
     (case splitImage img of (repo, tag) \<Rightarrow>
        VMap (setIfNotEmpty [(''repository'', VStr repo), (''tag'', VStr tag)] ''pullPolicy'' pullPolicy))"

definition componentValues :: "string \<Rightarrow> string \<Rightarrow> vmap" where
  "componentValues img pullPolicy =
     [(''enabled'', VBool True), (''image'', imageValues img pullPolicy),
      (''serviceAccount'', VMap [(''create'', VBool True)])]"

text \<open>\<open>Config.Logging.Verbosity\<close>, when logging is configured and the level is non-zero.\<close>

definition setLogging :: "vmap \<Rightarrow> LoggingConfig option \<Rightarrow> vmap" where
  "setLogging m l =
     (case l of None \<Rightarrow> m
      | Some lc \<Rightarrow> setIf (log_Verbosity lc \<noteq> 0) m ''logging''
                    (VMap [(''verbosity'', VInt32 (log_Verbosity lc))]))"

definition odhMonitoringScrapeLabel :: string where
  "odhMonitoringScrapeLabel = ''monitoring.opendatahub.io/scrape''"

definition odhMonitoringScrapeValue :: string where
  "odhMonitoringScrapeValue = ''true''"

definition monitorValues :: val where
  "monitorValues = VMap [(''enabled'', VBool True),
     (''labels'', VMap [(odhMonitoringScrapeLabel, VStr odhMonitoringScrapeValue)])]"

definition monitoringEnabled :: "LLMBatchGateway \<Rightarrow> bool" where
  "monitoringEnabled gw = (case spec_Monitoring (gw_Spec gw) of None \<Rightarrow> False | Some m \<Rightarrow> mon_Enabled m)"

definition certManagerValues :: "CertManagerSpec \<Rightarrow> val" where
  "certManagerValues c =
     (let cm = [(''enabled'', VBool True)];
          cm = setIfNotEmpty cm ''issuerName'' (cm_IssuerName c);
          cm = setIfNotEmpty cm ''issuerKind'' (cm_IssuerKind c);
          cm = setIf (cm_DNSNames c \<noteq> []) cm ''dnsNames'' (toInterfaceSlice (cm_DNSNames c))
      in VMap cm)"

definition tlsValues :: "TLSSpec option \<Rightarrow> ProfileValues \<Rightarrow> vmap" where
  "tlsValues t tlsProfile =
     (let tls = (case t of None \<Rightarrow> []
                 | Some spec \<Rightarrow>
                     if tls_Enabled spec
                     then setSome (setIfNotEmpty [(''enabled'', VBool True)] ''secretName'' (tls_SecretName spec))
                            ''certManager'' certManagerValues (tls_CertManager spec)
                     else []);
          tls = setIfNotEmpty tls ''minVersion'' (pv_MinVersion tlsProfile);
          tls = setIfNotEmpty tls ''cipherSuites'' (pv_CipherSuites tlsProfile);
          tls = setIfNotEmpty tls ''nextProtos'' (pv_NextProtos tlsProfile)
      in tls)"

definition parentRefValues :: "ParentReference \<Rightarrow> val" where
  "parentRefValues ref =
     (let r = [(''name'', VStr (parent_Name ref))];
          r = setIfNotEmpty r ''namespace'' (parent_Namespace ref);
          r = setIfNotEmpty r ''sectionName'' (parent_SectionName ref)
      in VMap r)"

definition httpRouteValues :: "HTTPRouteSpec \<Rightarrow> val" where
  "httpRouteValues route =
     (let hr = [(''enabled'', VBool True)];
          hr = setIf (hr_Annotations route \<noteq> []) hr ''annotations''
                 (toStringInterfaceMap (hr_Annotations route));
          hr = setIf (hr_ParentRefs route \<noteq> []) hr ''parentRefs''
                 (VList (map parentRefValues (hr_ParentRefs route)))
      in VMap hr)"

definition apiserverValues :: "LLMBatchGateway \<Rightarrow> ComponentImages \<Rightarrow> ProfileValues \<Rightarrow> vmap" where
  "apiserverValues gw images tlsProfile =
     (let api = spec_APIServer (gw_Spec gw);
          apiserver = componentValues (img_APIServer images) (api_ImagePullPolicy api);
          apiserver = setSome apiserver ''replicaCount'' VInt32 (api_Replicas api);
          apiserver = setSome apiserver ''resources'' resourceRequirementsToMap (api_Resources api);
          apiserver = (case api_Config api of None \<Rightarrow> apiserver
                       | Some cfg \<Rightarrow> setLogging (go_set apiserver ''config'' (apiServerConfigToMap cfg))
                                      (apicfg_Logging cfg));
          apiserver = setSubmap apiserver ''tls'' (tlsValues (spec_TLS (gw_Spec gw)) tlsProfile);
          apiserver = (case spec_HTTPRoute (gw_Spec gw) of None \<Rightarrow> apiserver
                       | Some route \<Rightarrow> setIf (hr_Enabled route) apiserver ''httpRoute''
                                        (httpRouteValues route));
          apiserver = setIf (monitoringEnabled gw) apiserver ''serviceMonitor'' monitorValues
      in apiserver)"

section \<open>Processor values\<close>

definition asyncDispatchValues :: "LLMBatchGateway \<Rightarrow> AsyncProcessorSpec \<Rightarrow> val" where
  "asyncDispatchValues gw ac =
     (let asyncDispatch = [(''resultPollTimeout'', VStr (ac_ResultPollTimeout ac))];
          asyncDispatch =
            (case ac_SQL ac of
               Some sql \<Rightarrow> setSome (go_set asyncDispatch ''transport'' (VStr asyncTransportSQL))
                             ''maxConnections'' VInt32 (sql_MaxConnections sql)
             | None \<Rightarrow> setIf (ac_Redis ac \<noteq> None) asyncDispatch ''transport'' (VStr asyncTransportRedis));
          models = fold (\<lambda>(model, spec) models. go_set models model (asyncModelGatewayToMap spec))
                     (gwModels gw) [];
          asyncDispatch = setIf (gwModels gw \<noteq> []) asyncDispatch ''models'' (VMap models)
      in VMap asyncDispatch)"

definition procConfigValues :: "LLMBatchGateway \<Rightarrow> vmap" where
  "procConfigValues gw =
     (let procConfig = [(''dispatchMode'', VStr dispatchModeAsync)];
          procConfig = setSome procConfig ''asyncDispatch'' (asyncDispatchValues gw) (gwAsync gw);
          procConfig = (case proc_Config (gwProcessor gw) of None \<Rightarrow> procConfig
                        | Some cfg \<Rightarrow> mergeProcessorConfig procConfig cfg)
      in procConfig)"

definition processorValues :: "LLMBatchGateway \<Rightarrow> ComponentImages \<Rightarrow> vmap" where
  "processorValues gw images =
     (let proc = gwProcessor gw;
          processor = componentValues (img_Processor images) (proc_ImagePullPolicy proc);
          processor = setSome processor ''replicaCount'' VInt32 (proc_Replicas proc);
          processor = setSome processor ''resources'' resourceRequirementsToMap (proc_Resources proc);
          processor = (case proc_Config proc of None \<Rightarrow> processor
                       | Some cfg \<Rightarrow> setLogging processor (pcfg_Logging cfg));
          processor = setSubmap processor ''config'' (procConfigValues gw);
          processor = setIf (monitoringEnabled gw) processor ''podMonitor'' monitorValues
      in processor)"

section \<open>GC values\<close>

definition gcReconcilerValues :: "ReconcilerSpec \<Rightarrow> val" where
  "gcReconcilerValues r =
     VMap (setIfNotEmpty [(''enabled'', VBool (rec_Enabled r))] ''interval'' (rec_Interval r))"

definition gcCollectorValues :: "GCSpec \<Rightarrow> vmap" where
  "gcCollectorValues spec =
     (let collector = setIfNotEmpty [] ''interval'' (gc_Interval spec);
          collector = (case gc_Config spec of None \<Rightarrow> collector
                       | Some cfg \<Rightarrow> setInt32 collector ''maxConcurrency'' (gccfg_MaxConcurrency cfg))
      in collector)"

definition gcConfigValues :: "GCSpec \<Rightarrow> vmap" where
  "gcConfigValues spec =
     (let gcConfig = (case gc_Config spec of None \<Rightarrow> []
                      | Some cfg \<Rightarrow>
                          setSome (setIf (gccfg_DryRun cfg) [] ''dryRun'' (VBool True))
                            ''reconciler'' gcReconcilerValues (gccfg_Reconciler cfg));
          gcConfig = setSubmap gcConfig ''collector'' (gcCollectorValues spec)
      in gcConfig)"

definition gcValues :: "LLMBatchGateway \<Rightarrow> ComponentImages \<Rightarrow> vmap" where
  "gcValues gw images =
     (let spec = spec_GC (gw_Spec gw);
          gc = componentValues (img_GC images) (gc_ImagePullPolicy spec);
          gc = setSome gc ''replicaCount'' VInt32 (gc_Replicas spec);
          gc = setSome gc ''resources'' resourceRequirementsToMap (gc_Resources spec);
          gc = (case gc_Config spec of None \<Rightarrow> gc
                | Some cfg \<Rightarrow> setLogging gc (gccfg_Logging cfg));
          gc = setSubmap gc ''config'' (gcConfigValues spec);
          gc = setIf (monitoringEnabled gw) gc ''podMonitor'' monitorValues
      in gc)"

section \<open>The chart values\<close>

definition grafanaValues :: "bool \<Rightarrow> val" where
  "grafanaValues enabled = VMap [(''dashboards'', VMap [(''enabled'', VBool enabled)])]"

definition prometheusRuleValues :: "PrometheusRuleSpec \<Rightarrow> val" where
  "prometheusRuleValues p =
     VMap (setIf (prule_Labels p \<noteq> []) [(''enabled'', VBool (prule_Enabled p))] ''labels''
             (toStringInterfaceMap (prule_Labels p)))"

definition specToBatchHelmValues ::
  "LLMBatchGateway \<Rightarrow> string \<Rightarrow> ComponentImages \<Rightarrow> ProfileValues \<Rightarrow> vmap" where
  "specToBatchHelmValues gw secretName images tlsProfile =
     (let vals = [];
          vals = go_set vals ''global'' (VMap (globalValues gw secretName));
          vals = go_set vals ''apiserver'' (VMap (apiserverValues gw images tlsProfile));
          vals = go_set vals ''processor'' (VMap (processorValues gw images));
          vals = go_set vals ''gc'' (VMap (gcValues gw images));
          vals = setSome vals ''grafana'' (\<lambda>g. grafanaValues (grafana_Enabled g))
                   (spec_Grafana (gw_Spec gw));
          vals = setSome vals ''prometheusRule'' prometheusRuleValues
                   (spec_PrometheusRule (gw_Spec gw))
      in vals)"

definition RenderBatchChart ::
  "('c, 'rv) helm_lib \<Rightarrow> 'c HelmRenderer \<Rightarrow> LLMBatchGateway \<Rightarrow> string \<Rightarrow> goerr + Unstructured list" where
  "RenderBatchChart lib h gw secretName =
     renderChart lib h gw
       (specToBatchHelmValues gw secretName (hr_images h) (hr_tlsProfile h)) None"

section \<open>Reading the values back\<close>

lemma get_setLogging [simp, lookup_simps]:
  "k \<noteq> ''logging'' \<Longrightarrow> go_get (setLogging m l) k = go_get m k"
  by (auto simp: setLogging_def split: option.split)

lemma merge_keeps:
  "go_get (mergeProcessorConfig m cfg) ''dispatchMode'' = go_get m ''dispatchMode''"
  "go_get (mergeProcessorConfig m cfg) ''asyncDispatch'' = go_get m ''asyncDispatch''"
  by (simp_all add: mergeProcessorConfig_def Let_def split: option.split)

lemma procConfig_get:
  "go_get (procConfigValues gw) ''dispatchMode'' = Some (VStr dispatchModeAsync)"
  "go_get (procConfigValues gw) ''asyncDispatch'' = map_option (asyncDispatchValues gw) (gwAsync gw)"
  by (simp_all add: procConfigValues_def Let_def merge_keeps split: option.split)

lemma batch_sections:
  "go_get (specToBatchHelmValues gw secretName images tls) ''global''
     = Some (VMap (globalValues gw secretName))"
  "go_get (specToBatchHelmValues gw secretName images tls) ''apiserver''
     = Some (VMap (apiserverValues gw images tls))"
  "go_get (specToBatchHelmValues gw secretName images tls) ''processor''
     = Some (VMap (processorValues gw images))"
  "go_get (specToBatchHelmValues gw secretName images tls) ''gc'' = Some (VMap (gcValues gw images))"
  by (simp_all add: specToBatchHelmValues_def Let_def)

lemma processor_config: "go_get (processorValues gw images) ''config'' = Some (VMap (procConfigValues gw))"
proof -
  have "procConfigValues gw \<noteq> []"
    using procConfig_get(1) [of gw] by auto
  then show ?thesis
    by (simp add: processorValues_def Let_def componentValues_def split: option.split)
qed

end
