(* ===== verification/HelmAsync.thy ===== *)
theory HelmAsync
  imports HelmBatch
begin

text \<open>
  \<open>internal/controller/helm_async.go\<close>: the mapping from the custom resource to the values of
  the llm-d-async chart, and \<open>RenderAsyncChart\<close> with the component label it adds to every
  object. The queue lists come from \<open>AsyncQueues\<close>.
\<close>

section \<open>Values\<close>

definition asyncQueueValue :: "AsyncQueueConfig \<Rightarrow> string \<Rightarrow> val" where
  "asyncQueueValue q gatewayURL =
     (let qm = [(''queue_name'', VStr (q_Name q))];
          qm = setIfNotEmpty qm ''worker_pool_id'' (q_WorkerPoolID q);
          queueGatewayURL = (if q_IGWBaseURL q = '''' then gatewayURL else q_IGWBaseURL q);
          qm = setIfNotEmpty qm ''igw_base_url'' queueGatewayURL;
          qm = setIfNotEmpty qm ''request_path_url'' (q_RequestPathURL q);
          qm = setIfNotEmpty qm ''gate_type'' (q_GateType q);
          qm = setIf (q_GateParams q \<noteq> []) qm ''gate_params'' (toStringInterfaceMap (q_GateParams q))
      in VMap qm)"

definition asyncQueueValues :: "AsyncQueueConfig list \<Rightarrow> string \<Rightarrow> val" where
  "asyncQueueValues queueConfigs gatewayURL =
     VList (map (\<lambda>q. asyncQueueValue q gatewayURL) queueConfigs)"

definition urlSecretValues :: "string \<Rightarrow> string \<Rightarrow> vmap" where
  "urlSecretValues secretName key =
     [(''urlSecret'', VMap [(''name'', VStr secretName), (''key'', VStr key)])]"

definition redisTracing :: "LLMBatchGateway \<Rightarrow> bool" where
  "redisTracing gw = (case spec_OTEL (gw_Spec gw) of None \<Rightarrow> False | Some ot \<Rightarrow> otel_RedisTracing ot)"

definition redisTransportConfig ::
  "LLMBatchGateway \<Rightarrow> AsyncRedisSpec \<Rightarrow> string \<Rightarrow> string \<Rightarrow> vmap" where
  "redisTransportConfig gw redis secretName gatewayURL =
     (let transportConfig = urlSecretValues secretName ''redis-url'';
          transportConfig = setSome transportConfig ''poll_interval_ms'' VInt32 (redis_PollIntervalMs redis);
          transportConfig = setSome transportConfig ''batch_size'' VInt32 (redis_BatchSize redis);
          transportConfig = setIf (redisTracing gw) transportConfig ''enable_tracing'' (VBool True);
          transportConfig = go_set transportConfig ''queues''
                              (asyncQueueValues (redisQueues gw redis) gatewayURL)
      in transportConfig)"

definition sqlTransportConfig ::
  "LLMBatchGateway \<Rightarrow> AsyncSQLSpec \<Rightarrow> string \<Rightarrow> string \<Rightarrow> vmap" where
  "sqlTransportConfig gw sql secretName gatewayURL =
     (let transportConfig = urlSecretValues secretName ''postgresql-url'';
          transportConfig = setIfNotEmpty transportConfig ''result_queue_name'' (sqlResultQueueName gw);
          transportConfig = setSome transportConfig ''poll_interval_ms'' VInt32 (sql_PollIntervalMs sql);
          transportConfig = setSome transportConfig ''batch_size'' VInt32 (sql_BatchSize sql);
          transportConfig = setSome transportConfig ''result_batch_size'' VInt32 (sql_ResultBatchSize sql);
          transportConfig = setSome transportConfig ''lease_ttl_seconds'' VInt32 (sql_LeaseTTLSeconds sql);
          transportConfig = setSome transportConfig ''handoff_timeout_seconds'' VInt32
                              (sql_HandoffTimeoutSeconds sql);
          transportConfig = go_set transportConfig ''queues''
                              (asyncQueueValues (sqlQueues gw sql) gatewayURL)
      in transportConfig)"

definition setTransport ::
  "vmap \<Rightarrow> LLMBatchGateway \<Rightarrow> AsyncProcessorSpec \<Rightarrow> string \<Rightarrow> string \<Rightarrow> vmap" where
  "setTransport ap gw ac secretName gatewayURL =
     (case ac_Redis ac of
        Some redis \<Rightarrow>
          go_set (go_set ap ''transport'' (VStr asyncTransportRedis))
            ''transportConfig'' (VMap (redisTransportConfig gw redis secretName gatewayURL))
      | None \<Rightarrow>
          (case ac_SQL ac of
             Some sql \<Rightarrow>
               go_set (go_set ap ''transport'' (VStr asyncTransportSQL))
                 ''transportConfig'' (VMap (sqlTransportConfig gw sql secretName gatewayURL))
           | None \<Rightarrow> ap))"

definition workerPoolValues :: "AsyncWorkerPool \<Rightarrow> val" where
  "workerPoolValues wp =
     (let pm = [(''id'', VStr (wp_Name wp)), (''workers'', VInt32 (wp_Workers wp))];
          pm = setIfNotEmpty pm ''gate_type'' (wp_GateType wp);
          pm = setIf (wp_GateParams wp \<noteq> []) pm ''gate_params'' (toStringInterfaceMap (wp_GateParams wp))
      in VMap pm)"

definition asyncTLSValues :: "AsyncTLSSpec \<Rightarrow> val" where
  "asyncTLSValues t =
     (let tls = setIfNotEmpty [] ''secretName'' (atls_SecretName t);
          tls = go_set tls ''insecureSkipVerify'' (VBool (atls_InsecureSkipVerify t));
          tls = setIfNotEmpty tls ''caCertKey'' (atls_CACertKey t);
          tls = setIfNotEmpty tls ''certKey'' (atls_CertKey t);
          tls = setIfNotEmpty tls ''keyKey'' (atls_KeyKey t)
      in VMap tls)"

definition transformValues :: "(string \<Rightarrow> val option) \<Rightarrow> AsyncRequestTransform \<Rightarrow> val" where
  "transformValues unmarshal rt =
     VMap (setIf (rt_Parameters rt \<noteq> []) [(''name'', VStr (rt_Name rt)), (''type'', VStr (rt_Type rt))]
             ''parameters'' (toJSONAwareMap unmarshal (rt_Parameters rt)))"

definition asyncOtelValues :: "OTELSpec \<Rightarrow> val" where
  "asyncOtelValues otel =
     (let otelVals = setIfNotEmpty [] ''endpoint'' (otel_Endpoint otel);
          otelVals = go_set otelVals ''insecure'' (VBool (otel_Insecure otel));
          otelVals = setIfNotEmpty otelVals ''sampler'' (otel_Sampler otel);
          otelVals = setIfNotEmpty otelVals ''samplerArg'' (otel_SamplerArg otel);
          otelVals = go_set otelVals ''redisTracing'' (VBool (otel_RedisTracing otel))
      in VMap otelVals)"

definition modelServerMonitorValues :: "AsyncModelServerMonitorSpec \<Rightarrow> val" where
  "modelServerMonitorValues mon =
     (let msm = [(''enabled'', VBool True)];
          msm = setIf (msm_Selector mon \<noteq> []) msm ''selector'' (toStringInterfaceMap (msm_Selector mon));
          msm = setIfNotEmpty msm ''port'' (msm_Port mon);
          msm = setIfNotEmpty msm ''path'' (msm_Path mon);
          msm = setIfNotEmpty msm ''interval'' (msm_Interval mon)
      in VMap msm)"

text \<open>Everything up to the transport (lines 45-81 of the source).\<close>

definition apBaseValues :: "AsyncProcessorSpec \<Rightarrow> ComponentImages \<Rightarrow> vmap" where
  "apBaseValues ac images =
     (let (asyncRepo, asyncTag) = splitImage (img_Async images);
          ap = [(''image'', VMap [(''repository'', VStr asyncRepo), (''tag'', VStr asyncTag)])];
          ap = setSome ap ''replicaCount'' VInt32 (ac_Replicas ac);
          ap = setIfNotEmpty ap ''imagePullPolicy'' (ac_ImagePullPolicy ac);
          ap = setSome ap ''concurrency'' VInt32 (ac_Concurrency ac);
          ap = setSome ap ''igwBaseURL'' (\<lambda>ig. VStr (ig_URL ig)) (ac_InferenceGateway ac);
          ap = setSome ap ''resources'' resourceRequirementsToMap (ac_Resources ac);
          ap = setIfNotEmpty ap ''drainTimeout'' (ac_DrainTimeout ac);
          ap = setIfNotEmpty ap ''prometheusURL'' (ac_PrometheusURL ac);
          ap = setIfNotEmpty ap ''prometheusCacheTTL'' (ac_PrometheusCacheTTL ac)
      in ap)"

definition setTransforms :: "(string \<Rightarrow> val option) \<Rightarrow> vmap \<Rightarrow> AsyncProcessorSpec \<Rightarrow> vmap" where
  "setTransforms unmarshal ap ac =
     (case ac_TransformConfig ac of
        None \<Rightarrow> ap
      | Some tc \<Rightarrow> setIf (tc_RequestTransforms tc \<noteq> []) ap ''transformConfig''
          (VMap [(''requestTransforms'',
                  VList (map (transformValues unmarshal) (tc_RequestTransforms tc)))]))"

text \<open>Everything after the transport (lines 133-232).\<close>

definition apTailValues ::
  "(string \<Rightarrow> val option) \<Rightarrow> vmap \<Rightarrow> LLMBatchGateway \<Rightarrow> AsyncProcessorSpec \<Rightarrow> vmap" where
  "apTailValues unmarshal ap gw ac =
     (let spec = gw_Spec gw;
          ap = setIf (ac_WorkerPools ac \<noteq> []) ap ''workerPools''
                 (VList (map workerPoolValues (ac_WorkerPools ac)));
          ap = setSome ap ''tls'' asyncTLSValues (ac_TLS ac);
          ap = setTransforms unmarshal ap ac;
          ap = setSome ap ''otel'' asyncOtelValues (spec_OTEL spec);
          ap = (case ac_ModelServerMonitor ac of None \<Rightarrow> ap
                | Some mon \<Rightarrow> setIf (msm_Enabled mon) ap ''modelServerMonitor''
                               (modelServerMonitorValues mon));
          ap = setIf (spec_ImagePullSecrets spec \<noteq> []) ap ''imagePullSecrets''
                 (imagePullSecretValues (spec_ImagePullSecrets spec));
          ap = setIf (monitoringEnabled gw) ap ''podMonitor'' monitorValues;
          ap = (case spec_Grafana spec of None \<Rightarrow> ap
                | Some g \<Rightarrow> setIf (grafana_Enabled g) ap ''grafana'' (grafanaValues True));
          ap = (case spec_PrometheusRule spec of None \<Rightarrow> ap
                | Some p \<Rightarrow> setIf (prule_Enabled p) ap ''prometheusRule'' (prometheusRuleValues p))
      in ap)"

definition specToAsyncHelmValues ::
  "(string \<Rightarrow> val option) \<Rightarrow> LLMBatchGateway \<Rightarrow> string \<Rightarrow> ComponentImages \<Rightarrow> vmap" where
  "specToAsyncHelmValues unmarshal gw secretName images =
     (case gwAsync gw of
        None \<Rightarrow> []
      | Some ac \<Rightarrow>
          (let ap = apBaseValues ac images;
               gatewayURL = (case ac_InferenceGateway ac of None \<Rightarrow> '''' | Some ig \<Rightarrow> ig_URL ig);
               ap = setTransport ap gw ac secretName gatewayURL;
               ap = apTailValues unmarshal ap gw ac
           in [(''nameOverride'', VStr ''async-processor''), (''ap'', VMap ap)]))"

section \<open>Rendering\<close>

definition labelKeyComponent :: string where
  "labelKeyComponent = ''app.kubernetes.io/component''"

definition labelKeyInstance :: string where
  "labelKeyInstance = ''app.kubernetes.io/instance''"

definition componentAPIServer :: string where
  "componentAPIServer = ''apiserver''"

definition componentProcessor :: string where
  "componentProcessor = ''processor''"

definition componentGC :: string where
  "componentGC = ''gc''"

definition componentAsyncProcessor :: string where
  "componentAsyncProcessor = ''async-processor''"

definition labelAsyncComponent :: "Unstructured \<Rightarrow> Unstructured" where
  "labelAsyncComponent obj =
     (let labels = (case u_Labels obj of None \<Rightarrow> [] | Some l \<Rightarrow> l)
      in obj\<lparr>u_Labels := Some (go_set labels labelKeyComponent componentAsyncProcessor)\<rparr>)"

definition RenderAsyncChart ::
  "('c, 'rv) helm_lib \<Rightarrow> (string \<Rightarrow> val option) \<Rightarrow> 'c HelmRenderer \<Rightarrow> LLMBatchGateway \<Rightarrow> string \<Rightarrow>
   goerr + Unstructured list" where
  "RenderAsyncChart lib unmarshal h gw secretName =
     renderChart lib h gw (specToAsyncHelmValues unmarshal gw secretName (hr_images h))
       (Some labelAsyncComponent)"

section \<open>Reading the values back\<close>

lemma get_setTransforms [simp]:
  "k \<noteq> ''transformConfig'' \<Longrightarrow> go_get (setTransforms unmarshal ap ac) k = go_get ap k"
  by (simp add: setTransforms_def)

lemma ap_tail_keeps:
  "go_get (apTailValues unmarshal ap gw ac) ''transport'' = go_get ap ''transport''"
  "go_get (apTailValues unmarshal ap gw ac) ''transportConfig'' = go_get ap ''transportConfig''"
  by (simp_all add: apTailValues_def Let_def)

end
