(* ===== verification/SecretFilter.thy ===== *)
theory SecretFilter
  imports Prelude
begin

text \<open>
  \<open>internal/controller/secret_watch_filter.go\<close>: the set of Secrets whose events pass the
  cluster-wide watch. The mutex makes each method atomic, so a method is one state step. The
  locale states the contract the watch relies on: the filter is a set of namespace/name pairs.
\<close>

record secretWatchFilter =
  watched :: "unit smap"

definition watchKey :: "string \<Rightarrow> string \<Rightarrow> string" where
  "watchKey ns name = ns @ ''/'' @ name"

definition filter_new :: secretWatchFilter where
  "filter_new = \<lparr>watched = []\<rparr>"

definition filter_add :: "secretWatchFilter \<Rightarrow> string \<Rightarrow> string \<Rightarrow> secretWatchFilter" where
  "filter_add f ns name = f\<lparr>watched := go_set (watched f) (watchKey ns name) ()\<rparr>"

definition filter_remove :: "secretWatchFilter \<Rightarrow> string \<Rightarrow> string \<Rightarrow> secretWatchFilter" where
  "filter_remove f ns name = f\<lparr>watched := go_delete (watched f) (watchKey ns name)\<rparr>"

definition filter_matches :: "secretWatchFilter \<Rightarrow> string \<Rightarrow> string \<Rightarrow> bool" where
  "filter_matches f ns name = go_has (watched f) (watchKey ns name)"

text \<open>
  The events of the watch. An object is its namespace and name; an update has the old and the
  new object, and the predicate looks at the new one.
\<close>

type_synonym nsname = "string \<times> string"

datatype secret_event =
    CreateEvent nsname
  | UpdateEvent nsname nsname
  | DeleteEvent nsname
  | GenericEvent nsname

fun filter_passes :: "secretWatchFilter \<Rightarrow> secret_event \<Rightarrow> bool" where
  "filter_passes f (CreateEvent (ns, name)) = filter_matches f ns name"
| "filter_passes f (UpdateEvent _ (ns, name)) = filter_matches f ns name"
| "filter_passes f (DeleteEvent (ns, name)) = filter_matches f ns name"
| "filter_passes f (GenericEvent (ns, name)) = filter_matches f ns name"

section \<open>A set of pairs\<close>

text \<open>
  The key joins the two parts with a slash. Where the two parts come from a reference, they are
  any strings; but an event is about a Secret that the API server has stored, whose namespace and
  name it has checked to be DNS names, so neither has a slash. Such a key belongs to one pair only.
\<close>

definition object_name :: "string \<Rightarrow> string \<Rightarrow> bool" where
  "object_name ns n \<longleftrightarrow> CHR ''/'' \<notin> set ns \<and> CHR ''/'' \<notin> set n"

lemma watchKey_inj:
  "object_name ns' n' \<Longrightarrow> watchKey ns n = watchKey ns' n' \<longleftrightarrow> ns = ns' \<and> n = n'"
proof (induction ns arbitrary: ns')
  case Nil
  then show ?case by (cases ns') (auto simp: watchKey_def object_name_def)
next
  case (Cons c ns)
  show ?case
  proof (cases ns')
    case Nil
    with Cons.prems show ?thesis
      by (auto simp: watchKey_def object_name_def dest: arg_cong [where f = set])
  next
    case (Cons c' cs)
    with Cons.prems Cons.IH [of cs] show ?thesis by (auto simp: watchKey_def object_name_def)
  qed
qed

datatype filter_op = Add string string | Remove string string

locale pair_filter =
  fixes add :: "'f \<Rightarrow> string \<Rightarrow> string \<Rightarrow> 'f"
    and remove :: "'f \<Rightarrow> string \<Rightarrow> string \<Rightarrow> 'f"
    and matches :: "'f \<Rightarrow> string \<Rightarrow> string \<Rightarrow> bool"
  assumes matches_add: "object_name ns' n' \<Longrightarrow>
      matches (add f ns n) ns' n' \<longleftrightarrow> (ns = ns' \<and> n = n') \<or> matches f ns' n'"
    and matches_remove: "object_name ns' n' \<Longrightarrow>
      matches (remove f ns n) ns' n' \<longleftrightarrow> \<not> (ns = ns' \<and> n = n') \<and> matches f ns' n'"
begin

lemma add_commutes:
  assumes "object_name ns k"
  shows "matches (add (add f a m) b n) ns k = matches (add (add f b n) a m) ns k"
  using assms by (auto simp: matches_add)

lemma add_idem: "object_name ns k \<Longrightarrow> matches (add (add f a m) a m) ns k = matches (add f a m) ns k"
  by (auto simp: matches_add)

lemma remove_undoes_add: "object_name ns k \<Longrightarrow>
    matches (remove (add f a m) a m) ns k = matches (remove f a m) ns k"
  by (auto simp: matches_add matches_remove)

lemma adds_grow: "object_name ns k \<Longrightarrow> matches f ns k \<Longrightarrow> matches (add f a m) ns k"
  by (simp add: matches_add)

end

interpretation swf: pair_filter filter_add filter_remove filter_matches
  by unfold_locales
    (auto simp: filter_add_def filter_remove_def filter_matches_def watchKey_inj go_has_def)

lemma new_matches_nothing [simp]: "\<not> filter_matches filter_new ns n"
  by (simp add: filter_new_def filter_matches_def)

fun run_op :: "secretWatchFilter \<Rightarrow> filter_op \<Rightarrow> secretWatchFilter" where
  "run_op f (Add ns n) = filter_add f ns n"
| "run_op f (Remove ns n) = filter_remove f ns n"

fun op_key :: "filter_op \<Rightarrow> nsname" where
  "op_key (Add ns n) = (ns, n)"
| "op_key (Remove ns n) = (ns, n)"

text \<open>The last operation on a key decides.\<close>

fun tracked :: "filter_op list \<Rightarrow> nsname \<Rightarrow> bool" where
  "tracked [] k = False"
| "tracked (oper # opers) k =
     (if \<exists>o' \<in> set opers. op_key o' = k then tracked opers k
      else op_key oper = k \<and> oper = Add (fst k) (snd k))"

lemma run_ops_matches:
  assumes "object_name ns n"
  shows "filter_matches (foldl run_op f opers) ns n \<longleftrightarrow>
    (if \<exists>oper \<in> set opers. op_key oper = (ns, n) then tracked opers (ns, n)
     else filter_matches f ns n)"
proof (induction opers arbitrary: f)
  case Nil
  then show ?case by simp
next
  case (Cons oper opers)
  have "filter_matches (run_op f oper) ns n \<longleftrightarrow>
      (if op_key oper = (ns, n) then oper = Add ns n else filter_matches f ns n)"
    using assms
    by (cases oper) (auto simp: swf.matches_add swf.matches_remove)
  with Cons show ?case by auto
qed

section \<open>Properties\<close>

text \<open>
  For a Secret that is stored, whatever adds and removes have run, an event for a Secret
  passes the filter exactly when the last operation on that Secret's namespace and name was an
  add; the four event kinds agree, and an update is judged by the new object.
\<close>

lemma filter_passes_iff_tracked:
  assumes "object_name ns n"
  shows "filter_passes (foldl run_op filter_new opers) (CreateEvent (ns, n)) = tracked opers (ns, n) \<and>
    filter_passes (foldl run_op filter_new opers) (UpdateEvent old (ns, n)) = tracked opers (ns, n) \<and>
    filter_passes (foldl run_op filter_new opers) (DeleteEvent (ns, n)) = tracked opers (ns, n) \<and>
    filter_passes (foldl run_op filter_new opers) (GenericEvent (ns, n)) = tracked opers (ns, n)"
proof -
  have "\<not> tracked opers (ns, n)" if "\<not> (\<exists>oper \<in> set opers. op_key oper = (ns, n))"
    using that by (cases opers) auto
  then show ?thesis using run_ops_matches [OF assms] by auto
qed

lemma filter_passes_iff_tracked_example:
  "filter_passes (foldl run_op filter_new [Add ''ns'' ''a'', Add ''ns'' ''b'', Remove ''ns'' ''a''])
     (UpdateEvent (''ns'', ''a'') (''ns'', ''b''))"
  using filter_passes_iff_tracked [of "''ns''" "''b''"
      "[Add ''ns'' ''a'', Add ''ns'' ''b'', Remove ''ns'' ''a'']" "(''ns'', ''a'')"]
  by (simp add: object_name_def)

end
