(* ===== verification/OperatorObjects.thy ===== *)
theory OperatorObjects
  imports Prelude
begin

text \<open>
  The operator's own monitoring resources: the constants of \<open>internal/utils/utils.go\<close> and the
  three objects that \<open>internal/monitoring/controller.go\<close> builds, as functions of the
  operator's namespace. A record has the fields the code sets.
\<close>

definition OperatorName :: string where
  "OperatorName = ''llm-d-batch-gateway-operator''"

definition FieldOwner :: string where
  "FieldOwner = ''llmbatchgateway-controller''"

definition LeaderElectionID :: string where
  "LeaderElectionID = ''llmbatchgateway.batch.llm-d.ai''"

definition metricsPort :: string where
  "metricsPort = ''https''"

definition metricsPortNum :: int32 where
  "metricsPortNum = 8443"

definition operatorSelectorLabels :: "string smap" where
  "operatorSelectorLabels =
     [(''control-plane'', ''llm-d-batch-gateway-controller-manager''),
      (''app.kubernetes.io/name'', OperatorName)]"

definition operatorLabels :: "string smap" where
  "operatorLabels =
     [(''control-plane'', ''llm-d-batch-gateway-controller-manager''),
      (''app.kubernetes.io/name'', OperatorName),
      (''app.kubernetes.io/managed-by'', FieldOwner)]"

record ObjectMeta =
  om_Name :: string
  om_Namespace :: string
  om_Labels :: "string smap"
  om_Annotations :: "string smap"

record ServicePort =
  port_Name :: string
  port_Port :: int32
  port_Protocol :: string
  port_TargetPort :: int32

record Service =
  svc_Meta :: ObjectMeta
  svc_Ports :: "ServicePort list"
  svc_Selector :: "string smap"

record Endpoint =
  ep_Port :: string
  ep_Path :: string
  ep_Scheme :: string
  ep_BearerTokenFile :: string
  ep_CAFile :: string

record ServiceMonitor =
  sm_Meta :: ObjectMeta
  sm_MatchLabels :: "string smap"
  sm_Endpoints :: "Endpoint list"

record Rule =
  rule_Alert :: string
  rule_Expr :: string
  rule_For :: string
  rule_Labels :: "string smap"
  rule_Annotations :: "string smap"

record RuleGroup =
  rgrp_Name :: string
  rgrp_Rules :: "Rule list"

record PrometheusRule =
  pr_Meta :: ObjectMeta
  pr_Groups :: "RuleGroup list"

datatype operator_object =
    OpService Service
  | OpServiceMonitor ServiceMonitor
  | OpPrometheusRule PrometheusRule

definition metricsService :: "string \<Rightarrow> Service" where
  "metricsService ns =
     \<lparr>svc_Meta = \<lparr>om_Name = OperatorName @ ''-metrics'', om_Namespace = ns, om_Labels = operatorLabels,
        om_Annotations = [(''service.beta.openshift.io/serving-cert-secret-name'',
                           OperatorName @ ''-metrics-tls'')]\<rparr>,
      svc_Ports = [\<lparr>port_Name = metricsPort, port_Port = metricsPortNum, port_Protocol = ''TCP'',
                    port_TargetPort = metricsPortNum\<rparr>],
      svc_Selector = operatorSelectorLabels\<rparr>"

definition serviceMonitor :: "string \<Rightarrow> ServiceMonitor" where
  "serviceMonitor ns =
     \<lparr>sm_Meta = \<lparr>om_Name = OperatorName @ ''-metrics'', om_Namespace = ns, om_Labels = operatorLabels,
        om_Annotations = []\<rparr>,
      sm_MatchLabels = operatorSelectorLabels,
      sm_Endpoints = [\<lparr>ep_Port = metricsPort, ep_Path = ''/metrics'', ep_Scheme = ''HTTPS'',
        ep_BearerTokenFile = ''/var/run/secrets/kubernetes.io/serviceaccount/token'',
        ep_CAFile = ''/etc/prometheus/configmaps/serving-certs-ca-bundle/service-ca.crt''\<rparr>]\<rparr>"

definition errorRateRule :: Rule where
  "errorRateRule =
     \<lparr>rule_Alert = ''LLMBatchGatewayOperatorHighReconcileErrorRate'',
      rule_Expr = ''rate(llmbatchgateway_controller_reconcile_errors_total[5m]) > 0.1'',
      rule_For = ''5m'',
      rule_Labels = [(''severity'', ''warning'')],
      rule_Annotations =
        [(''summary'', ''LLMBatchGateway operator reconcile error rate is high''),
         (''description'', ''The operator has been experiencing more than 0.1 reconcile errors per second for 5 minutes.'')]\<rparr>"

definition leaderElectionRule :: "string \<Rightarrow> Rule" where
  "leaderElectionRule ns =
     \<lparr>rule_Alert = ''LLMBatchGatewayOperatorLeaderElectionLost'',
      rule_Expr = ''leader_election_master_status{name='' @ [CHR 0x22] @ LeaderElectionID @ [CHR 0x22]
        @ '',namespace='' @ [CHR 0x22] @ ns @ [CHR 0x22] @ ''} == 0'',
      rule_For = ''5m'',
      rule_Labels = [(''severity'', ''critical'')],
      rule_Annotations =
        [(''summary'', ''LLMBatchGateway operator has lost leader election''),
         (''description'', ''The operator in namespace '' @ ns
            @ '' has lost leader election and is not reconciling.'')]\<rparr>"

definition prometheusRule :: "string \<Rightarrow> PrometheusRule" where
  "prometheusRule ns =
     \<lparr>pr_Meta = \<lparr>om_Name = OperatorName @ ''-alerts'', om_Namespace = ns, om_Labels = operatorLabels,
        om_Annotations = []\<rparr>,
      pr_Groups = [\<lparr>rgrp_Name = ''llmbatchgateway.operator.rules'',
        rgrp_Rules = [errorRateRule, leaderElectionRule ns]\<rparr>]\<rparr>"

text \<open>
  The error counter of \<open>internal/monitoring/metrics.go\<close>; Prometheus joins the three parts of
  the name with underscores.
\<close>

record CounterOpts =
  ctr_Namespace :: string
  ctr_Subsystem :: string
  ctr_Name :: string
  ctr_Labels :: "string list"

definition ReconcileErrors :: CounterOpts where
  "ReconcileErrors = \<lparr>ctr_Namespace = ''llmbatchgateway'', ctr_Subsystem = ''controller'',
     ctr_Name = ''reconcile_errors_total'', ctr_Labels = [''reason'']\<rparr>"

definition metricName :: "CounterOpts \<Rightarrow> string" where
  "metricName c = join ''_'' [ctr_Namespace c, ctr_Subsystem c, ctr_Name c]"

end
