(* ===== verification/Kube.thy ===== *)
theory Kube
  imports HelmAsync SecretFilter OperatorObjects
begin

text \<open>
  The Kubernetes side of the controller: the objects it reads, the client calls it makes, and
  the state those calls thread. The API server and the libraries around it are not in the
  repository; every call is a function of the record \<open>client\<close>, a parameter of the model, from
  the world before the call to an answer and the world after it. The world is opaque, so other
  actors may act between any two calls.

  Each write, event and metric increment is also appended to a log, the history in which the
  properties are stated. The log is only written, never read, by the model.
\<close>

section \<open>Objects\<close>

record Secret =
  sec_Name :: string
  sec_Namespace :: string
  sec_Annotations :: "string smap"
  sec_OwnerReferences :: "OwnerReference list"
  sec_Type :: string
  sec_Data :: "string smap"

record ReferenceGrantFrom =
  from_Group :: string
  from_Kind :: string
  from_Namespace :: string

record ReferenceGrantTo =
  to_Group :: string
  to_Kind :: string
  to_Name :: "string option"

record ReferenceGrant =
  rg_From :: "ReferenceGrantFrom list"
  rg_To :: "ReferenceGrantTo list"

record Deployment =
  d_Labels :: "string smap"
  d_OwnerReferences :: "OwnerReference list"
  d_Generation :: int64
  d_SpecReplicas :: "int32 option"
  d_ObservedGeneration :: int64
  d_UpdatedReplicas :: int32
  d_StatusReplicas :: int32
  d_ReadyReplicas :: int32

record StatefulSet =
  ss_Labels :: "string smap"
  ss_OwnerReferences :: "OwnerReference list"
  ss_Generation :: int64
  ss_SpecReplicas :: "int32 option"
  ss_ObservedGeneration :: int64
  ss_UpdatedReplicas :: int32
  ss_StatusReplicas :: int32
  ss_ReadyReplicas :: int32
  ss_CurrentRevision :: string
  ss_UpdateRevision :: string

section \<open>The status patch\<close>

text \<open>\<open>internal/controller/statuspatch.go\<close>; a field value keeps its Go type.\<close>

datatype status_field =
    Conditions "Condition list"
  | ObservedGeneration int64
  | Components "ComponentStatus option"

record StatusPatch =
  sp_resourceVersion :: string
  sp_fields :: "status_field smap"

definition NewStatusPatch :: "string \<Rightarrow> StatusPatch" where
  "NewStatusPatch resourceVersion = \<lparr>sp_resourceVersion = resourceVersion, sp_fields = []\<rparr>"

definition patch_Add :: "StatusPatch \<Rightarrow> string \<Rightarrow> status_field \<Rightarrow> StatusPatch" where
  "patch_Add p name value = p\<lparr>sp_fields := go_set (sp_fields p) name value\<rparr>"

text \<open>
  The payload \<open>Apply\<close> marshals: \<open>metadata.resourceVersion\<close> and the fields under
  \<open>status\<close>.
\<close>

record patch_payload =
  payload_resourceVersion :: string
  payload_status :: "status_field smap"

definition patch_payload_of :: "StatusPatch \<Rightarrow> patch_payload" where
  "patch_payload_of p = \<lparr>payload_resourceVersion = sp_resourceVersion p,
     payload_status = sp_fields p\<rparr>"

section \<open>State and log\<close>

datatype event_type = EventNormal | EventWarning

datatype effect =
    Applied Unstructured "api_error option"
  | AppliedSecret Secret "api_error option"
  | AppliedOperator operator_object "api_error option"
  | Deleted Unstructured "api_error option"
  | StatusPatched patch_payload "api_error option"
  | Event event_type string message
  | ErrorCounted string

record 'w st =
  st_world :: 'w
  st_log :: "effect list"
  st_filter :: secretWatchFilter

definition emit :: "effect \<Rightarrow> 'w st \<Rightarrow> 'w st" where
  "emit e s = s\<lparr>st_log := st_log s @ [e]\<rparr>"

text \<open>One client call: run it on the world, keep the rest of the state.\<close>

definition call :: "('w \<Rightarrow> 'r \<times> 'w) \<Rightarrow> 'w st \<Rightarrow> 'r \<times> 'w st" where
  "call f s = (case f (st_world s) of (r, w) \<Rightarrow> (r, s\<lparr>st_world := w\<rparr>))"

lemma emit_simps [simp]:
  "st_log (emit e s) = st_log s @ [e]" "st_filter (emit e s) = st_filter s"
  "st_world (emit e s) = st_world s"
  by (simp_all add: emit_def)

lemma call_simps [simp]:
  "st_log (snd (call f s)) = st_log s" "st_filter (snd (call f s)) = st_filter s"
  by (simp_all add: call_def split: prod.split)

lemma call_eq:
  "call f s = (r, s') \<Longrightarrow> st_log s' = st_log s \<and> st_filter s' = st_filter s"
  by (auto simp: call_def split: prod.splits)

section \<open>The client\<close>

text \<open>
  Reads are \<open>Get\<close> and \<open>List\<close>; an object is named by namespace and name. The two
  functions of \<open>controllerutil\<close> and \<open>meta\<close> and the JSON encoders are pure. A server-side
  apply returns the object the server answered with, which the Go client decodes into the
  object it was given.
\<close>

record 'w client =
  k_GetGateway :: "string \<Rightarrow> string \<Rightarrow> 'w \<Rightarrow> (api_error + LLMBatchGateway) \<times> 'w"
  k_GetSecret :: "string \<Rightarrow> string \<Rightarrow> 'w \<Rightarrow> (api_error + Secret) \<times> 'w"
  k_ListGrants :: "string \<Rightarrow> 'w \<Rightarrow> (api_error + ReferenceGrant list) \<times> 'w"
  k_ListGateways :: "'w \<Rightarrow> (api_error + LLMBatchGateway list) \<times> 'w"
  k_ListObjects :: "string \<Rightarrow> string \<Rightarrow> string \<Rightarrow> string \<Rightarrow> 'w \<Rightarrow> (api_error + Unstructured list) \<times> 'w"
  k_ListDeployments :: "string \<Rightarrow> string smap \<Rightarrow> 'w \<Rightarrow> (api_error + Deployment list) \<times> 'w"
  k_ListStatefulSets :: "string \<Rightarrow> string smap \<Rightarrow> 'w \<Rightarrow> (api_error + StatefulSet list) \<times> 'w"
  k_MarshalObject :: "Unstructured \<Rightarrow> string + string"
  k_MarshalSecret :: "Secret \<Rightarrow> string + string"
  k_MarshalOperator :: "operator_object \<Rightarrow> string + string"
  k_MarshalPatch :: "patch_payload \<Rightarrow> string + string"
  k_PatchObject :: "Unstructured \<Rightarrow> string \<Rightarrow> string \<Rightarrow> bool \<Rightarrow> 'w \<Rightarrow> (api_error + Unstructured) \<times> 'w"
  k_PatchSecret :: "Secret \<Rightarrow> string \<Rightarrow> string \<Rightarrow> bool \<Rightarrow> 'w \<Rightarrow> (api_error + Secret) \<times> 'w"
  k_PatchOperator :: "operator_object \<Rightarrow> string \<Rightarrow> string \<Rightarrow> bool \<Rightarrow> 'w \<Rightarrow> (api_error + operator_object) \<times> 'w"
  k_Delete :: "Unstructured \<Rightarrow> 'w \<Rightarrow> api_error option \<times> 'w"
  k_PatchStatus :: "string \<Rightarrow> string \<Rightarrow> string \<Rightarrow> 'w \<Rightarrow> api_error option \<times> 'w"
  k_SetControllerReference :: "LLMBatchGateway \<Rightarrow> string \<Rightarrow> OwnerReference list \<Rightarrow> string + OwnerReference list"
  k_SetStatusCondition :: "Condition list \<Rightarrow> Condition \<Rightarrow> Condition list"
  k_FindStatusCondition :: "Condition list \<Rightarrow> string \<Rightarrow> Condition option"

definition error_of :: "'e + 'a \<Rightarrow> 'e option" where
  "error_of r = (case r of Inl e \<Rightarrow> Some e | Inr _ \<Rightarrow> None)"

text \<open>
  \<open>ServerSideApply\<close>: marshal, then a forced apply patch under the operator's field owner.
  \<open>describe\<close> gives kind and name for the error message, \<open>applied\<close> the log entry.
\<close>

definition ServerSideApply ::
  "('o \<Rightarrow> string list) \<Rightarrow> ('o \<Rightarrow> string + string) \<Rightarrow> ('o \<Rightarrow> string \<Rightarrow> string \<Rightarrow> bool \<Rightarrow> 'w \<Rightarrow> (api_error + 'o) \<times> 'w) \<Rightarrow>
   ('o \<Rightarrow> api_error option \<Rightarrow> effect) \<Rightarrow> 'o \<Rightarrow> 'w st \<Rightarrow> (goerr + 'o) \<times> 'w st" where
  "ServerSideApply describe marshal patch applied obj s =
     (case marshal obj of
        Inl e \<Rightarrow> (Inl (Wrap (''marshalling'' # describe obj) [ErrExternal e]), s)
      | Inr data \<Rightarrow>
          (case call (patch obj data FieldOwner True) s of
             (r, s) \<Rightarrow>
               (case r of Inl e \<Rightarrow> Inl (ErrApi e) | Inr obj' \<Rightarrow> Inr obj',
                emit (applied obj (error_of r)) s)))"

definition applyObject :: "'w client \<Rightarrow> Unstructured \<Rightarrow> 'w st \<Rightarrow> (goerr + Unstructured) \<times> 'w st" where
  "applyObject K = ServerSideApply (\<lambda>obj. [u_Kind obj, u_Name obj]) (k_MarshalObject K) (k_PatchObject K) Applied"

definition applySecret :: "'w client \<Rightarrow> Secret \<Rightarrow> 'w st \<Rightarrow> (goerr + Secret) \<times> 'w st" where
  "applySecret K = ServerSideApply (\<lambda>sec. [''Secret'', sec_Name sec]) (k_MarshalSecret K) (k_PatchSecret K) AppliedSecret"

fun operatorObjectName :: "operator_object \<Rightarrow> string list" where
  "operatorObjectName (OpService svc) = [''Service'', om_Name (svc_Meta svc)]"
| "operatorObjectName (OpServiceMonitor sm) = [''ServiceMonitor'', om_Name (sm_Meta sm)]"
| "operatorObjectName (OpPrometheusRule pr) = [''PrometheusRule'', om_Name (pr_Meta pr)]"

definition applyOperator ::
  "'w client \<Rightarrow> operator_object \<Rightarrow> 'w st \<Rightarrow> (goerr + operator_object) \<times> 'w st" where
  "applyOperator K = ServerSideApply operatorObjectName (k_MarshalOperator K) (k_PatchOperator K) AppliedOperator"

text \<open>\<open>StatusPatch.Apply\<close> on the status of a gateway.\<close>

definition patch_Apply :: "'w client \<Rightarrow> LLMBatchGateway \<Rightarrow> StatusPatch \<Rightarrow> 'w st \<Rightarrow> goerr option \<times> 'w st" where
  "patch_Apply K gw p s =
     (case k_MarshalPatch K (patch_payload_of p) of
        Inl e \<Rightarrow> (Some (Wrap [''marshalling status patch''] [ErrExternal e]), s)
      | Inr data \<Rightarrow>
          (case call (k_PatchStatus K (gw_Namespace gw) (gw_Name gw) data) s of
             (r, s) \<Rightarrow> (map_option ErrApi r, emit (StatusPatched (patch_payload_of p) r) s)))"

section \<open>Reasoning about the log\<close>

text \<open>
  \<open>logs P s s'\<close>: the step from \<open>s\<close> to \<open>s'\<close> only appends to the log, and every
  appended entry satisfies \<open>P\<close>.
\<close>

definition logs :: "(effect \<Rightarrow> bool) \<Rightarrow> 'w st \<Rightarrow> 'w st \<Rightarrow> bool" where
  "logs P s s' \<longleftrightarrow> (\<exists>es. st_log s' = st_log s @ es \<and> list_all P es)"

named_theorems log_intros \<open>steps append entries of a kind\<close>

lemma logs_refl [simp, log_intros]: "logs P s s"
  by (simp add: logs_def)

lemma logs_trans [trans]: "logs P s t \<Longrightarrow> logs P t u \<Longrightarrow> logs P s u"
  by (auto simp: logs_def)

lemma logs_mono: "logs P s t \<Longrightarrow> (\<And>e. P e \<Longrightarrow> Q e) \<Longrightarrow> logs Q s t"
  by (auto simp: logs_def list_all_iff)

lemma logs_emit [simp, log_intros]: "P e \<Longrightarrow> logs P s (emit e s)"
  by (simp add: logs_def)

lemma logs_emit_right: "logs P s t \<Longrightarrow> P e \<Longrightarrow> logs P s (emit e t)"
  by (auto intro: logs_trans)

lemma logs_same: "st_log t = st_log s \<Longrightarrow> logs P s t"
  by (simp add: logs_def)

lemma logs_call [simp, log_intros]: "logs P s (snd (call f s))"
  by (simp add: logs_same)

lemma logs_call_eq [log_intros]: "call f s = (r, t) \<Longrightarrow> logs P s t"
  by (auto dest: call_eq intro: logs_same)

lemma logs_apply:
  assumes "\<And>r. P (applied obj r)"
  shows "logs P s (snd (ServerSideApply describe marshal patch applied obj s))"
  using assms
  by (auto simp: ServerSideApply_def split: sum.split prod.split
      intro!: logs_emit_right dest!: logs_call_eq [where P = P])

lemma logs_applyObject [log_intros]: "(\<And>r. P (Applied obj r)) \<Longrightarrow> logs P s (snd (applyObject K obj s))"
  by (simp add: applyObject_def logs_apply)

lemma logs_applySecret [log_intros]:
  "(\<And>r. P (AppliedSecret obj r)) \<Longrightarrow> logs P s (snd (applySecret K obj s))"
  by (simp add: applySecret_def logs_apply)

lemma logs_patch_Apply [log_intros]:
  "(\<And>r. P (StatusPatched (patch_payload_of p) r)) \<Longrightarrow> logs P s (snd (patch_Apply K gw p s))"
  by (auto simp: patch_Apply_def split: sum.split prod.split
      intro!: logs_emit_right dest!: logs_call_eq [where P = P])

lemma filter_apply [simp]: "st_filter (snd (ServerSideApply describe marshal patch applied obj s)) = st_filter s"
  by (auto simp: ServerSideApply_def split: sum.split prod.split dest!: call_eq)

lemma filter_patch_Apply [simp]: "st_filter (snd (patch_Apply K gw p s)) = st_filter s"
  by (auto simp: patch_Apply_def split: sum.split prod.split dest!: call_eq)

text \<open>The fields of a patch, read back: the last \<open>Add\<close> of a name wins.\<close>

lemma patch_Add_get [simp]:
  "go_get (payload_status (patch_payload_of (patch_Add p name value))) k =
     (if k = name then Some value else go_get (payload_status (patch_payload_of p)) k)"
  "payload_resourceVersion (patch_payload_of (patch_Add p name value))
     = payload_resourceVersion (patch_payload_of p)"
  by (simp_all add: patch_Add_def patch_payload_of_def)

lemma new_patch [simp]:
  "payload_resourceVersion (patch_payload_of (NewStatusPatch rv)) = rv"
  "payload_status (patch_payload_of (NewStatusPatch rv)) = []"
  by (simp_all add: NewStatusPatch_def patch_payload_of_def)

text \<open>What a step added to the log.\<close>

definition new_log :: "'w st \<Rightarrow> 'w st \<Rightarrow> effect list" where
  "new_log s s' = drop (length (st_log s)) (st_log s')"

lemma new_log_append [simp]: "st_log s' = st_log s @ es \<Longrightarrow> new_log s s' = es"
  by (simp add: new_log_def)

lemma logs_new_log: "logs P s s' \<Longrightarrow> e \<in> set (new_log s s') \<Longrightarrow> P e"
  by (auto simp: logs_def new_log_def list_all_iff)

end
