(* ===== verification/Sample.thy ===== *)
theory Sample
  imports Validation
begin

text \<open>
  Two concrete resources after \<open>config/samples/dev-async.yaml\<close> and
  \<open>batch_v1alpha1_llmbatchgateway_async_sql.yaml\<close>, at which the properties that have
  hypotheses are instantiated.
\<close>

definition samplePool :: AsyncWorkerPool where
  "samplePool = \<lparr>wp_Name = ''sim-workers'', wp_Workers = 4, wp_GateType = ''local-max-concurrency'',
     wp_GateParams = [(''limit'', ''2'')]\<rparr>"

definition sampleQueue :: "string \<Rightarrow> AsyncQueueConfig" where
  "sampleQueue name = \<lparr>q_Name = name, q_WorkerPoolID = ''sim-workers'',
     q_IGWBaseURL = ''http://vllm-sim:8000'', q_RequestPathURL = ''/v1/completions'',
     q_GateType = '''', q_GateParams = []\<rparr>"

definition sampleRedis :: AsyncRedisSpec where
  "sampleRedis = \<lparr>redis_RequestPathURL = ''/v1/completions'', redis_PollIntervalMs = Some 1000,
     redis_BatchSize = Some 10, redis_GateType = '''', redis_GateParams = [],
     redis_QueuesConfig = []\<rparr>"

definition sampleSQL :: AsyncSQLSpec where
  "sampleSQL = \<lparr>sql_PollIntervalMs = Some 1000, sql_BatchSize = Some 10, sql_MaxConnections = Some 8,
     sql_ResultBatchSize = None, sql_LeaseTTLSeconds = None, sql_HandoffTimeoutSeconds = None,
     sql_QueuesConfig = [sampleQueue ''llm-d-async:requests:sim-pool'',
       sampleQueue ''llm-d-async:requests:alt-pool'']\<rparr>"

definition sampleAsync :: "AsyncRedisSpec option \<Rightarrow> AsyncSQLSpec option \<Rightarrow> AsyncProcessorSpec" where
  "sampleAsync redis sql = \<lparr>ac_Replicas = Some 1, ac_Resources = None, ac_ImagePullPolicy = '''',
     ac_InferenceGateway = Some \<lparr>ig_URL = ''http://gateway:8000''\<rparr>, ac_Concurrency = Some 8,
     ac_DrainTimeout = ''2m'', ac_ResultPollTimeout = ''30s'', ac_Redis = redis, ac_SQL = sql,
     ac_WorkerPools = [samplePool], ac_PrometheusURL = '''', ac_PrometheusCacheTTL = '''',
     ac_TLS = None, ac_TransformConfig = None, ac_ModelServerMonitor = None\<rparr>"

definition sampleModel :: "string \<Rightarrow> ModelGatewaySpec" where
  "sampleModel pool = \<lparr>mg_InferencePoolName = pool, mg_InferenceObjective = '''',
     mg_RequestQueueName = '''', mg_ResultQueueName = ''''\<rparr>"

definition sampleSpec ::
  "ModelGatewaySpec smap \<Rightarrow> AsyncProcessorSpec option \<Rightarrow> string \<Rightarrow> LLMBatchGatewaySpec" where
  "sampleSpec models ac secretNS = \<lparr>spec_SecretRef = \<lparr>ref_Name = ''creds'', ref_Namespace = secretNS\<rparr>,
     spec_DBBackend = ''postgresql'', spec_ExtraEndpoints = None, spec_FileStorage = None,
     spec_APIServer = \<lparr>api_Replicas = Some 1, api_Resources = None, api_Config = None,
       api_ImagePullPolicy = ''''\<rparr>,
     spec_Processor = \<lparr>proc_Replicas = Some 1, proc_Resources = None, proc_ImagePullPolicy = '''',
       proc_Config = None, proc_DispatchMode = ''async'', proc_ModelGateways = models,
       proc_AsyncConfig = ac\<rparr>,
     spec_GC = \<lparr>gc_Replicas = Some 1, gc_Resources = None, gc_Interval = ''30m'', gc_Config = None,
       gc_ImagePullPolicy = ''''\<rparr>,
     spec_Monitoring = None, spec_Grafana = None, spec_TLS = None, spec_HTTPRoute = None,
     spec_OTEL = None, spec_PrometheusRule = None, spec_ImagePullSecrets = []\<rparr>"

definition sampleGateway :: "LLMBatchGatewaySpec \<Rightarrow> LLMBatchGateway" where
  "sampleGateway spec = \<lparr>gw_Name = ''gw'', gw_Namespace = ''apps'', gw_UID = ''uid-1'',
     gw_Generation = 3, gw_ResourceVersion = ''42'', gw_Spec = spec,
     gw_Status = \<lparr>status_ObservedGeneration = 2, status_Conditions = [],
       status_ComponentStatus = None\<rparr>\<rparr>"

definition redisGateway :: LLMBatchGateway where
  "redisGateway = sampleGateway (sampleSpec
     [(''sim-b'', sampleModel ''pool-b''), (''sim-a'', sampleModel ''pool-a'')]
     (Some (sampleAsync (Some sampleRedis) None)) '''')"

definition sqlGateway :: LLMBatchGateway where
  "sqlGateway = sampleGateway (sampleSpec
     [(''sim-model'', sampleModel ''sim-pool''), (''alt-model'', sampleModel ''alt-pool'')]
     (Some (sampleAsync None (Some sampleSQL))) ''vault'')"

lemmas sample_defs = redisGateway_def sqlGateway_def sampleGateway_def sampleSpec_def
  sampleModel_def sampleAsync_def sampleSQL_def sampleRedis_def sampleQueue_def samplePool_def

lemma wf_samples [simp]: "wf_gateway redisGateway" "wf_gateway sqlGateway"
  by (simp_all add: wf_gateway_def wf_map_def sample_defs)

lemma sample_models [simp]:
  "gwModels redisGateway = [(''sim-b'', sampleModel ''pool-b''), (''sim-a'', sampleModel ''pool-a'')]"
  "gwModels sqlGateway =
     [(''sim-model'', sampleModel ''sim-pool''), (''alt-model'', sampleModel ''alt-pool'')]"
  by (simp_all add: redisGateway_def sqlGateway_def sampleGateway_def sampleSpec_def)

lemma sample_async [simp]:
  "gwAsync redisGateway = Some (sampleAsync (Some sampleRedis) None)"
  "gwAsync sqlGateway = Some (sampleAsync None (Some sampleSQL))"
  by (simp_all add: redisGateway_def sqlGateway_def sampleGateway_def sampleSpec_def)

lemmas spec_simps = valid_spec_def model_ok_def redis_ok_def sql_ok_def queues_ok_def urls_ok_def
  gates_ok_def covers_def distinct_models_def publishedQueues_def requestQueueNameFor_def
  asyncRequestQueueName_def asyncQueuePrefix_def dbBackendPostgreSQL_def dispatchModeSync_def
  isPrometheusGate_def gatePrometheusBudget_def gatePrometheusQuery_def
  gatePrometheusSaturation_def

lemma valid_redisGateway [simp]: "valid_spec redisGateway"
proof -
  have "urls_ok (sampleAsync (Some sampleRedis) None) qs" for qs
    by (simp add: urls_ok_def sampleAsync_def)
  moreover have "q_GateType q = ''''" if "q \<in> set (redisQueues redisGateway sampleRedis)" for q
    using that by (auto simp: redisQueues_def sampleRedis_def)
  ultimately have "redis_ok redisGateway (sampleAsync (Some sampleRedis) None) sampleRedis"
    by (auto simp: redis_ok_def queues_ok_def gates_ok_def isPrometheusGate_def
        gatePrometheusBudget_def gatePrometheusQuery_def gatePrometheusSaturation_def
        sampleAsync_def samplePool_def sampleRedis_def)
  moreover have "spec_DBBackend (gw_Spec redisGateway) = dbBackendPostgreSQL"
    "proc_DispatchMode (gwProcessor redisGateway) \<noteq> dispatchModeSync"
    by (simp_all add: sample_defs dbBackendPostgreSQL_def dispatchModeSync_def)
  ultimately show ?thesis
    by (simp add: valid_spec_def model_ok_def sampleModel_def) (simp add: sampleAsync_def)
qed

lemma sample_sql_ok: "sql_ok sqlGateway (sampleAsync None (Some sampleSQL)) sampleSQL"
proof -
  have "sqlQueues sqlGateway sampleSQL = [sampleQueue ''llm-d-async:requests:sim-pool'',
      sampleQueue ''llm-d-async:requests:alt-pool'']"
    by (simp add: sqlQueues_def sampleSQL_def)
  then show ?thesis
    by (simp add: spec_simps sampleModel_def sqlResultQueueNameFor_def asyncResultQueueName_def)
      (simp add: sampleSQL_def sampleAsync_def sampleQueue_def samplePool_def)
qed

lemma valid_sqlGateway [simp]: "valid_spec sqlGateway"
proof -
  have "spec_DBBackend (gw_Spec sqlGateway) = dbBackendPostgreSQL"
    "proc_DispatchMode (gwProcessor sqlGateway) \<noteq> dispatchModeSync"
    by (simp_all add: sample_defs dbBackendPostgreSQL_def dispatchModeSync_def)
  then show ?thesis
    using sample_sql_ok
    by (simp add: valid_spec_def model_ok_def sampleModel_def) (simp add: sampleAsync_def)
qed

section \<open>Witnesses of the validation properties\<close>

theorem validation_accepts_exactly_witness:
  "validateSpec rev sqlGateway = None"
proof -
  have "set (rev (gwModels sqlGateway)) = set (gwModels sqlGateway)" by (simp only: set_rev)
  from validation_accepts_exactly [OF wf_samples(2), of rev, OF this] show ?thesis by simp
qed

theorem coverage_errors_true_and_ordered_witness:
  "\<exists>n model. validateAsyncQueueCoverage ''redis'' redisGateway [sampleQueue ''other'']
     = Some (MissingRequestQueue ''redis'' n model)"
proof -
  have q: "q_Name ` set [sampleQueue ''other''] = {''other''}" by (simp add: sampleQueue_def)
  have p: "publishedQueues redisGateway = {''llm-d-async:requests:pool-a'', ''llm-d-async:requests:pool-b''}"
    by (auto simp: publishedQueues_def requestQueueNameFor_def asyncRequestQueueName_def
        asyncQueuePrefix_def sampleModel_def)
  then have "\<not> covers redisGateway [sampleQueue ''other'']"
    unfolding covers_def q by auto
  then obtain e where e: "validateAsyncQueueCoverage ''redis'' redisGateway [sampleQueue ''other''] = Some e"
    using coverage_None [OF wf_samples(1)] by (metis option.exhaust)
  from coverage_errors_true_and_ordered [OF wf_samples(1) this] e show ?thesis
    by (auto simp: q p Cons_eq_append_conv)
qed

end
