(* ===== verification/ChartValues.thy ===== *)
theory ChartValues
  imports HelmAsync Sample
begin

text \<open>
  What the two charts receive, read off the value trees of \<open>specToBatchHelmValues\<close> and
  \<open>specToAsyncHelmValues\<close>: agreement of the batch processor and the async dispatcher on
  transport and queues, for the resources \<open>validateSpec\<close> accepts, and what single fields of
  the resource become.
\<close>

text \<open>The value at a path of each chart's values.\<close>

definition batchAt :: "LLMBatchGateway \<Rightarrow> string \<Rightarrow> ComponentImages \<Rightarrow> ProfileValues \<Rightarrow> string list \<Rightarrow> val option" where
  "batchAt gw secret images tls path = at (VMap (specToBatchHelmValues gw secret images tls)) path"

definition asyncAt ::
  "(string \<Rightarrow> val option) \<Rightarrow> LLMBatchGateway \<Rightarrow> string \<Rightarrow> ComponentImages \<Rightarrow> string list \<Rightarrow> val option" where
  "asyncAt unmarshal gw secret images path = at (VMap (specToAsyncHelmValues unmarshal gw secret images)) path"

lemma async_ap:
  assumes "gwAsync gw = Some ac" and "k \<in> {''transport'', ''transportConfig''}"
  shows "asyncAt unmarshal gw secret images (''ap'' # k # ks) =
    at (VMap (setTransport (apBaseValues ac images) gw ac secret
       (case ac_InferenceGateway ac of None \<Rightarrow> '''' | Some ig \<Rightarrow> ig_URL ig))) (k # ks)"
  using assms by (auto simp: asyncAt_def specToAsyncHelmValues_def Let_def ap_tail_keeps)

lemma batch_dispatch:
  assumes "gwAsync gw = Some ac"
  shows "batchAt gw secret images tls (''processor'' # ''config'' # ''asyncDispatch'' # ks) =
    at (asyncDispatchValues gw ac) ks"
  using assms by (simp add: batchAt_def batch_sections processor_config procConfig_get)

text \<open>The batch chart is told to dispatch asynchronously whatever the resource says.\<close>

lemma dispatch_mode_async:
  "batchAt gw secret images tls [''processor'', ''config'', ''dispatchMode''] = Some (VStr dispatchModeAsync)"
  by (simp add: batchAt_def batch_sections processor_config procConfig_get)

lemma transports_same:
  assumes "valid_spec gw"
  shows "\<exists>t. batchAt gw secret images tls [''processor'', ''config'', ''asyncDispatch'', ''transport''] = Some (VStr t) \<and>
     asyncAt unmarshal gw secret' images' [''ap'', ''transport''] = Some (VStr t) \<and>
     t \<in> {asyncTransportRedis, asyncTransportSQL}"
proof -
  from assms obtain ac where ac: "gwAsync gw = Some ac"
    and "(\<exists>redis. ac_Redis ac = Some redis \<and> ac_SQL ac = None) \<or>
         (\<exists>sql. ac_SQL ac = Some sql \<and> ac_Redis ac = None)"
    by (auto simp: valid_spec_def)
  then show ?thesis
    by (auto simp: batch_dispatch [OF ac] async_ap [OF ac] asyncDispatchValues_def setTransport_def Let_def)
qed

text \<open>
  For every accepted resource the two charts get the same transport, \<open>redis-sortedset\<close> or \<open>sql\<close>, although the batch mapping looks at \<open>SQL\<close> first and the async mapping at \<open>Redis\<close> first.
\<close>

lemma transports_agree:
  assumes "valid_spec gw"
  shows "\<exists>t. batchAt gw secret images tls [''processor'', ''config'', ''asyncDispatch'', ''transport''] = Some (VStr t) \<and>
     asyncAt unmarshal gw secret' images' [''ap'', ''transport''] = Some (VStr t) \<and>
     t \<in> {asyncTransportRedis, asyncTransportSQL}"
  using assms by (rule transports_same)

lemma asyncQueueValue_at:
  "at (asyncQueueValue q url) [''queue_name''] = Some (VStr (q_Name q))"
  "at (asyncQueueValue q url) [''igw_base_url''] =
     (let u = if q_IGWBaseURL q = '''' then url else q_IGWBaseURL q in
      if u = '''' then None else Some (VStr u))"
  by (simp_all add: asyncQueueValue_def Let_def)

lemma valid_queues:
  assumes "wf_gateway gw" and "valid_spec gw" and "gwAsync gw = Some ac"
  shows "\<exists>queues. covers gw queues \<and> urls_ok ac queues \<and>
    (\<forall>unmarshal secret images. asyncAt unmarshal gw secret images [''ap'', ''transportConfig'', ''queues''] =
      Some (asyncQueueValues queues (case ac_InferenceGateway ac of None \<Rightarrow> '''' | Some ig \<Rightarrow> ig_URL ig)))"
proof -
  from assms consider
    (redis) redis where "ac_Redis ac = Some redis" "redis_ok gw ac redis"
  | (sql) sql where "ac_SQL ac = Some sql" "ac_Redis ac = None" "sql_ok gw ac sql"
    by (auto simp: valid_spec_def)
  then show ?thesis
  proof cases
    case redis
    then have "covers gw (redisQueues gw redis)" "urls_ok ac (redisQueues gw redis)"
      using redis.queues_cover [OF assms(1)] by (auto simp: redis_ok_def queues_ok_def)
    with redis(1) show ?thesis
      by (intro exI [of _ "redisQueues gw redis"])
        (simp add: async_ap [OF assms(3)] setTransport_def redisTransportConfig_def Let_def)
  next
    case sql
    then have "covers gw (sqlQueues gw sql)" "urls_ok ac (sqlQueues gw sql)"
      using sql.queues_cover [OF assms(1)] by (auto simp: sql_ok_def queues_ok_def)
    with sql show ?thesis
      by (intro exI [of _ "sqlQueues gw sql"])
        (simp add: async_ap [OF assms(3)] setTransport_def sqlTransportConfig_def Let_def)
  qed
qed

lemma queues_match:
  assumes "wf_gateway gw" and "valid_spec gw"
  shows "\<exists>queues names.
    asyncAt unmarshal gw secret images [''ap'', ''transportConfig'', ''queues''] = Some (VList queues) \<and>
    map (\<lambda>q. at q [''queue_name'']) queues = map (\<lambda>n. Some (VStr n)) names \<and>
    distinct names \<and> set names = publishedQueues gw"
proof -
  from assms(2) obtain ac where "gwAsync gw = Some ac" by (auto simp: valid_spec_def)
  from valid_queues [OF assms this] obtain queues url where "covers gw queues"
    and "asyncAt unmarshal gw secret images [''ap'', ''transportConfig'', ''queues''] =
      Some (asyncQueueValues queues url)" by blast
  then show ?thesis
    by (intro exI [of _ "map (\<lambda>q. asyncQueueValue q url) queues"] exI [of _ "map q_Name queues"])
      (simp add: asyncQueueValues_def asyncQueueValue_at covers_def comp_def del: at.simps)
qed

text \<open>
  C12: for every accepted resource the dispatcher is configured with exactly the request queues the models publish to, each once: no queue is left without a consumer and no consumer polls a queue nothing writes to.
\<close>

theorem dispatcher_queues_match:
  assumes "wf_gateway gw" and "valid_spec gw"
  shows "\<exists>queues names.
    asyncAt unmarshal gw secret images [''ap'', ''transportConfig'', ''queues''] = Some (VList queues) \<and>
    map (\<lambda>q. at q [''queue_name'']) queues = map (\<lambda>n. Some (VStr n)) names \<and>
    distinct names \<and> set names = publishedQueues gw"
  using assms by (rule queues_match)

text \<open>
  C35: for every accepted resource each dispatcher queue in the async chart carries a non-empty inference gateway URL, its own or the shared one.
\<close>

theorem every_queue_has_gateway:
  assumes "wf_gateway gw" and "valid_spec gw"
  shows "\<exists>queues.
    asyncAt unmarshal gw secret images [''ap'', ''transportConfig'', ''queues''] = Some (VList queues) \<and>
    list_all (\<lambda>q. \<exists>u. at q [''igw_base_url''] = Some (VStr u) \<and> u \<noteq> '''') queues"
proof -
  from assms(2) obtain ac where ac: "gwAsync gw = Some ac" by (auto simp: valid_spec_def)
  define url where "url = (case ac_InferenceGateway ac of None \<Rightarrow> '''' | Some ig \<Rightarrow> ig_URL ig)"
  from valid_queues [OF assms ac] obtain queues where "urls_ok ac queues"
    and at: "asyncAt unmarshal gw secret images [''ap'', ''transportConfig'', ''queues''] =
      Some (asyncQueueValues queues url)" unfolding url_def by blast
  then have "url \<noteq> '''' \<or> (\<forall>q \<in> set queues. q_IGWBaseURL q \<noteq> '''')"
    by (auto simp: urls_ok_def url_def)
  with at show ?thesis
    by (auto simp: asyncQueueValues_def asyncQueueValue_at list_all_iff Let_def simp del: at.simps)
qed

text \<open>
  Every model of the resource appears in the batch chart under its own name, with its pool, objective and queue names, in whatever order the map is visited.
\<close>

lemma models_reach_the_chart:
  assumes "wf_gateway gw" and "gwAsync gw = Some ac" and "(model, g) \<in> set (gwModels gw)"
  shows "batchAt gw secret images tls
     [''processor'', ''config'', ''asyncDispatch'', ''models'', model] = Some (asyncModelGatewayToMap g)"
proof -
  have "go_get (gwModels gw) model = Some g" and "gwModels gw \<noteq> []"
    using assms(1,3) by (auto simp: wf_gateway_def go_get_in)
  then show ?thesis
    using assms(1) by (simp add: batch_dispatch [OF assms(2)] asyncDispatchValues_def Let_def
        fold_set_get wf_gateway_def split: option.split)
qed

text \<open>
  The three \<open>extraEndpoints\<close> lists reach the charts independently: each is absent exactly when it is nil in the resource, and an explicit empty list is passed on as an empty list.
\<close>

lemma extra_endpoints_inherit_or_override:
  "batchAt gw secret images tls [''global'', ''extraEndpoints''] =
     map_option toInterfaceSlice (spec_ExtraEndpoints (gw_Spec gw)) \<and>
   batchAt gw secret images tls [''processor'', ''config'', ''extraEndpoints''] =
     map_option toInterfaceSlice
       (Option.bind (proc_Config (gwProcessor gw)) pcfg_ExtraEndpoints) \<and>
   batchAt gw secret images tls [''apiserver'', ''config'', ''batchAPI'', ''extraEndpoints''] =
     map_option toInterfaceSlice
       (Option.bind (Option.bind (api_Config (spec_APIServer (gw_Spec gw))) apicfg_BatchAPI)
         batch_ExtraEndpoints)"
proof (intro conjI)
  show "batchAt gw secret images tls [''global'', ''extraEndpoints''] =
     map_option toInterfaceSlice (spec_ExtraEndpoints (gw_Spec gw))"
    by (simp add: batchAt_def batch_sections globalValues_def Let_def split: option.split)
  show "batchAt gw secret images tls [''processor'', ''config'', ''extraEndpoints''] =
     map_option toInterfaceSlice
       (Option.bind (proc_Config (gwProcessor gw)) pcfg_ExtraEndpoints)"
    by (cases "proc_Config (gwProcessor gw)")
      (simp_all add: batchAt_def batch_sections processor_config procConfigValues_def
        mergeProcessorConfig_def Let_def split: option.split)
  show "batchAt gw secret images tls [''apiserver'', ''config'', ''batchAPI'', ''extraEndpoints''] =
     map_option toInterfaceSlice
       (Option.bind (Option.bind (api_Config (spec_APIServer (gw_Spec gw))) apicfg_BatchAPI)
         batch_ExtraEndpoints)"
  proof (cases "api_Config (spec_APIServer (gw_Spec gw))")
    case None
    then show ?thesis
      by (simp add: batchAt_def batch_sections apiserverValues_def componentValues_def Let_def
          split: option.split)
  next
    case (Some cfg)
    then have "batchAt gw secret images tls (''apiserver'' # ''config'' # ks) =
        at (apiServerConfigToMap cfg) ks" for ks
      by (simp add: batchAt_def batch_sections apiserverValues_def componentValues_def Let_def
          split: option.split)
    with Some show ?thesis
      by (cases "apicfg_BatchAPI cfg")
        (auto simp: apiServerConfigToMap_def batchAPIValues_def Let_def split: option.split)
  qed
qed

lemma sample_valid_eqs:
  "publishedQueues redisGateway = {''llm-d-async:requests:pool-a'', ''llm-d-async:requests:pool-b''}"
  by (auto simp: publishedQueues_def requestQueueNameFor_def asyncRequestQueueName_def
      asyncQueuePrefix_def sampleModel_def)

definition sampleImages :: ComponentImages where
  "sampleImages = \<lparr>img_APIServer = ''reg/api:1'', img_Processor = ''reg/proc:1'', img_GC = ''reg/gc:1'',
     img_Async = ''reg/async@sha256:ab''\<rparr>"

definition noTLS :: ProfileValues where
  "noTLS = \<lparr>pv_MinVersion = '''', pv_CipherSuites = '''', pv_NextProtos = ''''\<rparr>"

theorem transports_agree_witness:
  "\<exists>t. batchAt redisGateway ''s'' sampleImages noTLS
       [''processor'', ''config'', ''asyncDispatch'', ''transport''] = Some (VStr t) \<and>
     asyncAt (\<lambda>_. None) redisGateway ''s'' sampleImages [''ap'', ''transport''] = Some (VStr t)"
  using transports_agree [OF valid_redisGateway] by blast

theorem dispatcher_queues_match_witness:
  "\<exists>queues names.
    asyncAt (\<lambda>_. None) redisGateway ''s'' sampleImages [''ap'', ''transportConfig'', ''queues'']
      = Some (VList queues) \<and>
    map (\<lambda>q. at q [''queue_name'']) queues = map (\<lambda>n. Some (VStr n)) names \<and>
    set names = {''llm-d-async:requests:pool-a'', ''llm-d-async:requests:pool-b''}"
  using dispatcher_queues_match [OF wf_samples(1) valid_redisGateway] sample_valid_eqs by metis

theorem every_queue_has_gateway_witness:
  "\<exists>queues. asyncAt (\<lambda>_. None) sqlGateway ''s'' sampleImages [''ap'', ''transportConfig'', ''queues'']
      = Some (VList queues) \<and>
    list_all (\<lambda>q. \<exists>u. at q [''igw_base_url''] = Some (VStr u) \<and> u \<noteq> '''') queues"
  by (rule every_queue_has_gateway [OF wf_samples(2) valid_sqlGateway])

lemma models_reach_the_chart_example:
  "batchAt redisGateway ''s'' sampleImages noTLS
     [''processor'', ''config'', ''asyncDispatch'', ''models'', ''sim-a'']
   = Some (asyncModelGatewayToMap (sampleModel ''pool-a''))"
  by (rule models_reach_the_chart [OF wf_samples(1) sample_async(1)]) simp

text \<open>
  With the SQL transport, for every resource that \<open>validateSpec\<close> accepts, two different models
  never share a result queue or an inference pool, so no model consumes another's results.
\<close>

lemma sql_results_not_shared:
  assumes "validateSpec visit gw = None" and "wf_gateway gw" and "set (visit (gwModels gw)) = set (gwModels gw)"
    and "gwAsync gw = Some ac" and "ac_SQL ac \<noteq> None"
    and "(model, g) \<in> set (gwModels gw)" and "(model', g') \<in> set (gwModels gw)"
    and "(model, g) \<noteq> (model', g')"
  shows "sqlResultQueueNameFor g \<noteq> sqlResultQueueNameFor g' \<and>
    mg_InferencePoolName g \<noteq> mg_InferencePoolName g'"
proof -
  have "valid_spec gw" using validateSpec_None [OF assms(2), of visit] assms(1,3) by simp
  with assms(4,5) obtain sql where "sql_ok gw ac sql" by (auto simp: valid_spec_def)
  then have result: "inj_on (\<lambda>(model, g). sqlResultQueueNameFor g) (set (gwModels gw))"
    and pool: "inj_on (\<lambda>(model, g). mg_InferencePoolName g) (set (gwModels gw))"
    by (simp_all add: sql_ok_def distinct_models_def distinct_map)
  show ?thesis
    using inj_on_eq_iff [OF result assms(6,7)] inj_on_eq_iff [OF pool assms(6,7)] assms(8) by simp
qed

definition intAt :: "val option \<Rightarrow> int option" where
  "intAt v = (case v of Some (VInt n) \<Rightarrow> Some (sint n) | _ \<Rightarrow> None)"

text \<open>
  Replica counts survive the widening to \<open>int64\<close>: each chart value is absent exactly
  when the field is nil, and otherwise the same signed number.
\<close>

lemma replica_counts_exact:
  "intAt (batchAt gw secret images tls [''apiserver'', ''replicaCount''])
     = map_option sint (api_Replicas (spec_APIServer (gw_Spec gw))) \<and>
   intAt (batchAt gw secret images tls [''processor'', ''replicaCount''])
     = map_option sint (proc_Replicas (gwProcessor gw)) \<and>
   intAt (batchAt gw secret images tls [''gc'', ''replicaCount''])
     = map_option sint (gc_Replicas (spec_GC (gw_Spec gw)))"
  by (simp add: batchAt_def batch_sections apiserverValues_def processorValues_def gcValues_def
      componentValues_def Let_def intAt_def split: option.split)

definition nonempty :: "string \<Rightarrow> val option" where
  "nonempty s = (if s = '''' then None else Some (VStr s))"

definition enabledTLS :: "LLMBatchGateway \<Rightarrow> TLSSpec option" where
  "enabledTLS gw = (case spec_TLS (gw_Spec gw) of
     None \<Rightarrow> None | Some t \<Rightarrow> if tls_Enabled t then Some t else None)"

text \<open>
  The cluster TLS profile reaches the API server whether or not the resource enables TLS;
  the serving certificate settings reach it only when the resource enables TLS.
\<close>

lemma tls_values:
  "batchAt gw secret images tls [''apiserver'', ''tls'', ''minVersion''] = nonempty (pv_MinVersion tls) \<and>
   batchAt gw secret images tls [''apiserver'', ''tls'', ''cipherSuites''] = nonempty (pv_CipherSuites tls) \<and>
   batchAt gw secret images tls [''apiserver'', ''tls'', ''nextProtos''] = nonempty (pv_NextProtos tls) \<and>
   batchAt gw secret images tls [''apiserver'', ''tls'', ''enabled'']
     = map_option (\<lambda>_. VBool True) (enabledTLS gw) \<and>
   batchAt gw secret images tls [''apiserver'', ''tls'', ''secretName'']
     = Option.bind (enabledTLS gw) (\<lambda>t. nonempty (tls_SecretName t)) \<and>
   batchAt gw secret images tls [''apiserver'', ''tls'', ''certManager'']
     = map_option certManagerValues (Option.bind (enabledTLS gw) tls_CertManager)"
proof -
  define t where "t = tlsValues (spec_TLS (gw_Spec gw)) tls"
  have "go_get (apiserverValues gw images tls) ''tls'' = (if t = [] then None else Some (VMap t))"
    by (simp add: apiserverValues_def componentValues_def Let_def t_def)
  then have at: "batchAt gw secret images tls [''apiserver'', ''tls'', k] = go_get t k" for k
    by (cases "go_get t k") (auto simp: batchAt_def batch_sections)
  show ?thesis
  proof (cases "enabledTLS gw")
    case None
    then have "t = setIfNotEmpty (setIfNotEmpty (setIfNotEmpty [] ''minVersion'' (pv_MinVersion tls))
        ''cipherSuites'' (pv_CipherSuites tls)) ''nextProtos'' (pv_NextProtos tls)"
      by (auto simp: t_def tlsValues_def Let_def enabledTLS_def split: option.splits if_splits)
    with None show ?thesis by (simp add: at nonempty_def)
  next
    case (Some spec)
    then have "t = setIfNotEmpty (setIfNotEmpty (setIfNotEmpty
        (setSome (setIfNotEmpty [(''enabled'', VBool True)] ''secretName'' (tls_SecretName spec))
           ''certManager'' certManagerValues (tls_CertManager spec))
        ''minVersion'' (pv_MinVersion tls)) ''cipherSuites'' (pv_CipherSuites tls))
        ''nextProtos'' (pv_NextProtos tls)"
      by (auto simp: t_def tlsValues_def Let_def enabledTLS_def split: option.splits if_splits)
    with Some show ?thesis by (simp add: at nonempty_def)
  qed
qed

text \<open>
  An empty \<open>redis\<close> section is enough: with no \<open>queuesConfig\<close> the dispatcher gets one
  queue per request queue of the models, named as the processor names it.
\<close>

lemma empty_redis_config_derives_queues:
  assumes "wf_gateway gw" and "gwAsync gw = Some ac" and "ac_Redis ac = Some redis"
    and "redis_QueuesConfig redis = []"
  shows "\<exists>queues names.
    asyncAt unmarshal gw secret images [''ap'', ''transportConfig'', ''queues''] = Some (VList queues) \<and>
    map (\<lambda>q. at q [''queue_name'']) queues = map (\<lambda>n. Some (VStr n)) names \<and>
    distinct names \<and> set names = publishedQueues gw"
proof -
  define url where "url = (case ac_InferenceGateway ac of None \<Rightarrow> '''' | Some ig \<Rightarrow> ig_URL ig)"
  have "covers gw (redisQueues gw redis)"
    using redis.queues_cover [OF assms(1)] assms(4) by blast
  moreover have "asyncAt unmarshal gw secret images [''ap'', ''transportConfig'', ''queues''] =
      Some (asyncQueueValues (redisQueues gw redis) url)"
    using assms(3) by (simp add: async_ap [OF assms(2)] setTransport_def redisTransportConfig_def
        Let_def url_def)
  ultimately show ?thesis
    by (intro exI [of _ "map (\<lambda>q. asyncQueueValue q url) (redisQueues gw redis)"]
        exI [of _ "map q_Name (redisQueues gw redis)"])
      (simp add: asyncQueueValues_def asyncQueueValue_at covers_def comp_def del: at.simps)
qed

lemma empty_redis_config_derives_queues_example:
  "\<exists>queues names.
    asyncAt (\<lambda>_. None) redisGateway ''s'' sampleImages [''ap'', ''transportConfig'', ''queues'']
      = Some (VList queues) \<and>
    set names = {''llm-d-async:requests:pool-a'', ''llm-d-async:requests:pool-b''}"
proof -
  have "ac_Redis (sampleAsync (Some sampleRedis) None) = Some sampleRedis"
    and "redis_QueuesConfig sampleRedis = []"
    by (simp_all add: sampleAsync_def sampleRedis_def)
  from empty_redis_config_derives_queues [OF wf_samples(1) sample_async(1) this]
  show ?thesis using sample_valid_eqs by metis
qed

text \<open>
  Every object of the async chart ends up with the component label \<open>async-processor\<close>, by
  which \<open>updateStatus\<close> finds its workload, and keeps its other labels.
\<close>

lemma async_objects_labelled:
  assumes "RenderAsyncChart lib unmarshal h gw secret = Inr objects"
  shows "list_all (\<lambda>obj. \<exists>labels. u_Labels obj = Some labels \<and>
     go_get labels labelKeyComponent = Some componentAsyncProcessor) objects"
proof -
  from assms obtain rendered where "objects = [(case Some labelAsyncComponent of None \<Rightarrow> obj | Some f \<Rightarrow> f obj).
       (name, content) \<leftarrow> keptTemplates rendered, Document (Some obj) \<leftarrow> lib_Decode lib content]"
    unfolding RenderAsyncChart_def by (blast dest: renderChart_Inr)
  then show ?thesis
    by (auto simp: list_all_iff labelAsyncComponent_def Let_def
        split: decode_step.splits option.splits)
qed

text \<open>A Helm library for the witnesses: one template with one unlabelled object.\<close>

definition sampleObject :: "string \<Rightarrow> Unstructured" where
  "sampleObject name = \<lparr>u_Group = ''apps'', u_Version = ''v1'', u_Kind = ''Deployment'', u_Name = name,
     u_Namespace = '''', u_Labels = None, u_OwnerReferences = [], u_Content = []\<rparr>"

definition sampleLib :: "(unit, unit) helm_lib" where
  "sampleLib = \<lparr>lib_Load = (\<lambda>_. Inr ()), lib_ToRenderValues = (\<lambda>_ _ _. Inr ()),
     lib_Render = (\<lambda>_ _. Inr [(''t/deploy.yaml'', ''kind'')]),
     lib_Decode = (\<lambda>_. [Document (Some (sampleObject ''d''))])\<rparr>"

definition sampleRenderer :: "unit HelmRenderer" where
  "sampleRenderer = \<lparr>hr_chart = (), hr_images = sampleImages, hr_tlsProfile = noTLS\<rparr>"

lemma not_blank_kind [simp]: "\<not> blank ''kind''"
  by (rule not_blank) (simp_all add: spaces_def char_of_def)

lemma sample_async_render:
  "RenderAsyncChart sampleLib u sampleRenderer gw s = Inr [labelAsyncComponent (sampleObject ''d'')]"
  by (simp add: RenderAsyncChart_def renderChart_def sampleLib_def Let_def baseName_def)

lemma async_objects_labelled_example:
  "go_get (the (u_Labels (labelAsyncComponent (sampleObject ''d'')))) labelKeyComponent
     = Some componentAsyncProcessor"
  using async_objects_labelled [OF sample_async_render] by auto

end
