(* ===== verification/Cluster.thy ===== *)
theory Cluster
  imports Kube ChartValues
begin

text \<open>
  A small API server to run the controller on: lists of objects, writes that replace, deletes
  that remove. It is one instance of the parameter \<open>client\<close>; the properties hold for all, and
  are instantiated at this one to show that their hypotheses can hold.
\<close>

record cluster =
  cl_gateways :: "LLMBatchGateway list"
  cl_secrets :: "Secret list"
  cl_grants :: "(string \<times> ReferenceGrant) list"
  cl_objects :: "Unstructured list"
  cl_deployments :: "Deployment list"
  cl_statefulSets :: "StatefulSet list"

definition found :: "'a option \<Rightarrow> api_error + 'a" where
  "found x = (case x of None \<Rightarrow> Inl NotFound | Some y \<Rightarrow> Inr y)"

definition sameSecret :: "string \<Rightarrow> string \<Rightarrow> Secret \<Rightarrow> bool" where
  "sameSecret ns name sec \<longleftrightarrow> sec_Namespace sec = ns \<and> sec_Name sec = name"

definition sameObject :: "Unstructured \<Rightarrow> Unstructured \<Rightarrow> bool" where
  "sameObject a b \<longleftrightarrow> u_Group a = u_Group b \<and> u_Kind a = u_Kind b \<and>
     u_Namespace a = u_Namespace b \<and> u_Name a = u_Name b"

definition controllerRef :: "LLMBatchGateway \<Rightarrow> OwnerReference" where
  "controllerRef gw = \<lparr>owner_APIVersion = GroupVersion_String, owner_Kind = ''LLMBatchGateway'',
     owner_Name = gw_Name gw, owner_UID = gw_UID gw, owner_Controller = Some True\<rparr>"

definition setControllerRef ::
  "LLMBatchGateway \<Rightarrow> string \<Rightarrow> OwnerReference list \<Rightarrow> string + OwnerReference list" where
  "setControllerRef gw ns refs =
     (if ns \<noteq> gw_Namespace gw then Inl ''cross-namespace owner''
      else if list_ex (\<lambda>r. owner_Controller r = Some True \<and> owner_UID r \<noteq> gw_UID gw) refs
      then Inl ''already owned''
      else Inr (filter (\<lambda>r. owner_UID r \<noteq> gw_UID gw) refs @ [controllerRef gw]))"

fun setCond :: "Condition list \<Rightarrow> Condition \<Rightarrow> Condition list" where
  "setCond [] c = [c]"
| "setCond (d # ds) c = (if cond_Type d = cond_Type c then c # ds else d # setCond ds c)"

definition findCond :: "Condition list \<Rightarrow> string \<Rightarrow> Condition option" where
  "findCond cs t = find (\<lambda>c. cond_Type c = t) cs"

definition selects :: "string smap \<Rightarrow> string smap \<Rightarrow> bool" where
  "selects sel labels \<longleftrightarrow> list_all (\<lambda>(k, v). go_get labels k = Some v) sel"

definition clusterClient :: "cluster client" where
  "clusterClient = \<lparr>
     k_GetGateway = (\<lambda>ns name w.
       (found (find (\<lambda>gw. gw_Namespace gw = ns \<and> gw_Name gw = name) (cl_gateways w)), w)),
     k_GetSecret = (\<lambda>ns name w. (found (find (sameSecret ns name) (cl_secrets w)), w)),
     k_ListGrants = (\<lambda>ns w. (Inr (map snd (filter (\<lambda>g. fst g = ns) (cl_grants w))), w)),
     k_ListGateways = (\<lambda>w. (Inr (cl_gateways w), w)),
     k_ListObjects = (\<lambda>g v k ns w. (Inr (filter (\<lambda>obj. u_Group obj = g \<and> u_Kind obj @ ''List'' = k \<and>
        u_Namespace obj = ns) (cl_objects w)), w)),
     k_ListDeployments = (\<lambda>ns sel w.
       (Inr (filter (\<lambda>d. selects sel (d_Labels d)) (cl_deployments w)), w)),
     k_ListStatefulSets = (\<lambda>ns sel w.
       (Inr (filter (\<lambda>ss. selects sel (ss_Labels ss)) (cl_statefulSets w)), w)),
     k_MarshalObject = (\<lambda>obj. Inr (u_Name obj)),
     k_MarshalSecret = (\<lambda>sec. Inr (sec_Name sec)),
     k_MarshalOperator = (\<lambda>obj. Inr ''operator object''),
     k_MarshalPatch = (\<lambda>p. Inr (payload_resourceVersion p)),
     k_PatchObject = (\<lambda>obj data owner force w.
       (Inr obj, w\<lparr>cl_objects := filter (\<lambda>x. \<not> sameObject x obj) (cl_objects w) @ [obj]\<rparr>)),
     k_PatchSecret = (\<lambda>sec data owner force w.
       (Inr sec, w\<lparr>cl_secrets := filter (\<lambda>x. \<not> sameSecret (sec_Namespace sec) (sec_Name sec) x)
          (cl_secrets w) @ [sec]\<rparr>)),
     k_PatchOperator = (\<lambda>obj data owner force w. (Inr obj, w)),
     k_Delete = (\<lambda>obj w. (None, w\<lparr>cl_objects := filter (\<lambda>x. \<not> sameObject x obj) (cl_objects w)\<rparr>)),
     k_PatchStatus = (\<lambda>ns name data w. (None, w)),
     k_SetControllerReference = setControllerRef,
     k_SetStatusCondition = setCond,
     k_FindStatusCondition = findCond\<rparr>"

section \<open>A state to start from\<close>

definition vaultSecret :: Secret where
  "vaultSecret = \<lparr>sec_Name = ''creds'', sec_Namespace = ''vault'', sec_Annotations = [],
     sec_OwnerReferences = [], sec_Type = ''Opaque'', sec_Data = [(''password'', ''hunter2'')]\<rparr>"

definition appsGrant :: ReferenceGrant where
  "appsGrant = \<lparr>
     rg_From = [\<lparr>from_Group = ''batch.llm-d.ai'', from_Kind = ''LLMBatchGateway'', from_Namespace = ''apps''\<rparr>],
     rg_To = [\<lparr>to_Group = '''', to_Kind = ''ConfigMap'', to_Name = None\<rparr>,
              \<lparr>to_Group = '''', to_Kind = ''Secret'', to_Name = Some ''creds''\<rparr>]\<rparr>"

definition sampleCluster :: "LLMBatchGateway list \<Rightarrow> Secret list \<Rightarrow> Unstructured list \<Rightarrow> cluster" where
  "sampleCluster gws secrets objs = \<lparr>cl_gateways = gws, cl_secrets = secrets,
     cl_grants = [(''vault'', appsGrant)], cl_objects = objs, cl_deployments = [],
     cl_statefulSets = []\<rparr>"

definition startState :: "'w \<Rightarrow> 'w st" where
  "startState w = \<lparr>st_world = w, st_log = [], st_filter = filter_new\<rparr>"

lemma startState_simps [simp]:
  "st_world (startState w) = w" "st_log (startState w) = []" "st_filter (startState w) = filter_new"
  by (simp_all add: startState_def)

lemma sample_fields [simp]:
  "gw_Namespace (sampleGateway spec) = ''apps''" "gw_Name (sampleGateway spec) = ''gw''"
  "gw_UID (sampleGateway spec) = ''uid-1''" "gw_Spec (sampleGateway spec) = spec"
  "spec_SecretRef (sampleSpec models ac ns) = \<lparr>ref_Name = ''creds'', ref_Namespace = ns\<rparr>"
  by (simp_all add: sampleGateway_def sampleSpec_def)

lemma sample_refs [simp]:
  "gw_Namespace sqlGateway = ''apps''" "gw_Name sqlGateway = ''gw''" "gw_UID sqlGateway = ''uid-1''"
  "gw_Namespace redisGateway = ''apps''" "gw_Name redisGateway = ''gw''"
  "gw_UID redisGateway = ''uid-1''"
  "spec_SecretRef (gw_Spec sqlGateway) = \<lparr>ref_Name = ''creds'', ref_Namespace = ''vault''\<rparr>"
  "spec_SecretRef (gw_Spec redisGateway) = \<lparr>ref_Name = ''creds'', ref_Namespace = ''''\<rparr>"
  by (simp_all add: sqlGateway_def redisGateway_def)

end
