(* ===== verification/SecretSync.thy ===== *)
theory SecretSync
  imports Kube Cluster
begin

text \<open>
  \<open>internal/controller/secret_sync.go\<close>: how the credentials Secret a gateway refers to
  becomes available in the gateway's namespace, and the authorisation by a ReferenceGrant that
  a reference into another namespace needs.
\<close>

section \<open>Authorisation\<close>

definition managedSecretSuffix :: string where
  "managedSecretSuffix = ''-credentials''"

definition copiedFrom :: string where
  "copiedFrom = ''batch.llm-d.ai/copied-from''"

text \<open>The two loops of \<open>referenceGrantPermits\<close>: each stops at its first match.\<close>

fun hasMatchingFrom :: "ReferenceGrantFrom list \<Rightarrow> string \<Rightarrow> bool" where
  "hasMatchingFrom [] fromNamespace = False"
| "hasMatchingFrom (from # rest) fromNamespace =
     (if from_Group from = GroupVersion_Group \<and> from_Kind from = ''LLMBatchGateway'' \<and>
         from_Namespace from = fromNamespace
      then True else hasMatchingFrom rest fromNamespace)"

fun hasMatchingTo :: "ReferenceGrantTo list \<Rightarrow> string \<Rightarrow> bool" where
  "hasMatchingTo [] secretName = False"
| "hasMatchingTo (to # rest) secretName =
     (if to_Group to \<noteq> '''' then hasMatchingTo rest secretName
      else if to_Kind to \<noteq> ''Secret'' then hasMatchingTo rest secretName
      else if (case to_Name to of None \<Rightarrow> True | Some n \<Rightarrow> n = secretName) then True
      else hasMatchingTo rest secretName)"

definition referenceGrantPermits :: "ReferenceGrant \<Rightarrow> string \<Rightarrow> string \<Rightarrow> bool" where
  "referenceGrantPermits grant fromNamespace secretName =
     (if \<not> hasMatchingFrom (rg_From grant) fromNamespace then False
      else hasMatchingTo (rg_To grant) secretName)"

definition newReferenceNotPermittedError :: "string \<Rightarrow> string \<Rightarrow> string \<Rightarrow> ref_reason \<Rightarrow> goerr" where
  "newReferenceNotPermittedError gatewayName secretName secretNamespace reason =
     ErrRef \<lparr>rnp_GatewayName = gatewayName, rnp_SecretName = secretName,
             rnp_SecretNamespace = secretNamespace, rnp_Reason = reason\<rparr>"

definition checkReferenceGrant ::
  "'w client \<Rightarrow> LLMBatchGateway \<Rightarrow> string \<Rightarrow> string \<Rightarrow> 'w st \<Rightarrow> goerr option \<times> 'w st" where
  "checkReferenceGrant K gw secretName secretNamespace s =
     (case call (k_ListGrants K secretNamespace) s of
        (Inl e, s) \<Rightarrow>
          (if isNotFound (ErrApi e) \<or> isNoMatch (ErrApi e)
           then (Some (newReferenceNotPermittedError (gw_Name gw) secretName secretNamespace
                         ReferenceGrantCRDMissing), s)
           else (Some (Wrap [''listing ReferenceGrants in'', secretNamespace] [ErrApi e]), s))
      | (Inr grants, s) \<Rightarrow>
          (if list_ex (\<lambda>grant. referenceGrantPermits grant (gw_Namespace gw) secretName) grants
           then (None, s)
           else (Some (newReferenceNotPermittedError (gw_Name gw) secretName secretNamespace
                         (NoGrantPermits secretNamespace (gw_Name gw) (gw_Namespace gw) secretName)), s)))"

section \<open>The managed copy\<close>

definition secretCopy :: "LLMBatchGateway \<Rightarrow> Secret \<Rightarrow> string \<Rightarrow> OwnerReference list \<Rightarrow> Secret" where
  "secretCopy gw src localName refs =
     \<lparr>sec_Name = localName, sec_Namespace = gw_Namespace gw,
      sec_Annotations = [(copiedFrom, sec_Namespace src @ ''/'' @ sec_Name src)],
      sec_OwnerReferences = refs, sec_Type = sec_Type src, sec_Data = sec_Data src\<rparr>"

definition syncSecretCopy ::
  "'w client \<Rightarrow> LLMBatchGateway \<Rightarrow> Secret \<Rightarrow> string \<Rightarrow> 'w st \<Rightarrow> goerr option \<times> 'w st" where
  "syncSecretCopy K gw src localName s =
     (case k_SetControllerReference K gw (gw_Namespace gw) [] of
        Inl e \<Rightarrow>
          (Some (Wrap [''setting owner reference on secret copy'', gw_Namespace gw, localName]
                   [ErrExternal e]), s)
      | Inr refs \<Rightarrow>
          (case applySecret K (secretCopy gw src localName refs) s of
             (Inl e, s) \<Rightarrow> (Some (Wrap [''syncing secret copy'', gw_Namespace gw, localName] [e]), s)
           | (Inr _, s) \<Rightarrow> (None, s)))"

text \<open>
  The mutation check on the existing copy. Reading a missing annotation gives the empty
  string; an error of the read, whatever its class, skips the check.
\<close>

definition checkSecretRefImmutable :: "api_error + Secret \<Rightarrow> string \<Rightarrow> goerr option" where
  "checkSecretRefImmutable existing wantAnnotation =
     (case existing of
        Inl _ \<Rightarrow> None
      | Inr sec \<Rightarrow>
          (let got = (case go_get (sec_Annotations sec) copiedFrom of None \<Rightarrow> '''' | Some a \<Rightarrow> a)
           in if got \<noteq> wantAnnotation
              then Some (ErrImmutable \<lparr>sri_OldRef = got, sri_NewRef = wantAnnotation\<rparr>)
              else None))"

definition secretNamespace :: "LLMBatchGateway \<Rightarrow> string" where
  "secretNamespace gw =
     (let ns = ref_Namespace (spec_SecretRef (gw_Spec gw)) in if ns = '''' then gw_Namespace gw else ns)"

abbreviation (input) secretName :: "LLMBatchGateway \<Rightarrow> string" where
  "secretName gw \<equiv> ref_Name (spec_SecretRef (gw_Spec gw))"

definition localSecretName :: "LLMBatchGateway \<Rightarrow> string" where
  "localSecretName gw = gw_Name gw @ managedSecretSuffix"

definition resolveSecret ::
  "'w client \<Rightarrow> LLMBatchGateway \<Rightarrow> 'w st \<Rightarrow> (goerr + string) \<times> 'w st" where
  "resolveSecret K gw s =
     (let ref = spec_SecretRef (gw_Spec gw);
          secretNS = secretNamespace gw;
          localName = localSecretName gw;
          wantAnnotation = secretNS @ ''/'' @ ref_Name ref
      in if secretNS = gw_Namespace gw then (Inr (ref_Name ref), s)
         else (case call (k_GetSecret K (gw_Namespace gw) localName) s of (existing, s) \<Rightarrow>
           (case checkSecretRefImmutable existing wantAnnotation of
              Some e \<Rightarrow> (Inl e, s)
            | None \<Rightarrow>
                (case checkReferenceGrant K gw (ref_Name ref) secretNS s of
                   (Some e, s) \<Rightarrow> (Inl e, s)
                 | (None, s) \<Rightarrow>
                     (case call (k_GetSecret K secretNS (ref_Name ref)) s of
                        (Inl e, s) \<Rightarrow>
                          (Inl (Wrap [''reading source secret'', secretNS, ref_Name ref] [ErrApi e]), s)
                      | (Inr src, s) \<Rightarrow>
                          (case syncSecretCopy K gw src localName s of
                             (Some e, s) \<Rightarrow> (Inl e, s)
                           | (None, s) \<Rightarrow> (Inr localName, s)))))))"

section \<open>Lemmas\<close>

text \<open>Permission, without the loops.\<close>

definition grants_from :: "ReferenceGrant \<Rightarrow> string \<Rightarrow> bool" where
  "grants_from grant ns \<longleftrightarrow>
     \<lparr>from_Group = ''batch.llm-d.ai'', from_Kind = ''LLMBatchGateway'', from_Namespace = ns\<rparr>
       \<in> set (rg_From grant)"

definition grants_to :: "ReferenceGrant \<Rightarrow> string \<Rightarrow> bool" where
  "grants_to grant name \<longleftrightarrow>
     (\<exists>n \<in> {None, Some name}.
        \<lparr>to_Group = '''', to_Kind = ''Secret'', to_Name = n\<rparr> \<in> set (rg_To grant))"

lemma hasMatchingFrom_iff:
  "hasMatchingFrom fs ns \<longleftrightarrow>
     \<lparr>from_Group = GroupVersion_Group, from_Kind = ''LLMBatchGateway'', from_Namespace = ns\<rparr> \<in> set fs"
proof (induction fs)
  case Nil
  then show ?case by simp
next
  case (Cons f fs)
  then show ?case by (cases f) auto
qed

lemma hasMatchingTo_iff:
  "hasMatchingTo ts name \<longleftrightarrow>
     (\<exists>n \<in> {None, Some name}. \<lparr>to_Group = '''', to_Kind = ''Secret'', to_Name = n\<rparr> \<in> set ts)"
proof (induction ts)
  case Nil
  then show ?case by simp
next
  case (Cons t ts)
  then show ?case by (cases t) (auto split: option.splits)
qed

lemma checkReferenceGrant_None:
  "checkReferenceGrant K gw name ns s = (None, s') \<longleftrightarrow>
     (\<exists>grants. call (k_ListGrants K ns) s = (Inr grants, s') \<and>
        (\<exists>g \<in> set grants. referenceGrantPermits g (gw_Namespace gw) name))"
  by (auto simp: checkReferenceGrant_def list_ex_iff split: prod.splits sum.splits if_splits)

lemma checkReferenceGrant_log:
  "checkReferenceGrant K gw name ns s = (r, s') \<Longrightarrow>
     st_log s' = st_log s \<and> st_filter s' = st_filter s"
  by (auto simp: checkReferenceGrant_def split: prod.splits sum.splits if_splits dest!: call_eq)

text \<open>What the three reads of a cross-namespace resolution answer, in their order.\<close>

definition secretAnswers ::
  "'w client \<Rightarrow> LLMBatchGateway \<Rightarrow> 'w \<Rightarrow>
   (api_error + Secret) \<times> (api_error + ReferenceGrant list) \<times> (api_error + Secret)" where
  "secretAnswers K gw w =
     (case k_GetSecret K (gw_Namespace gw) (localSecretName gw) w of (existing, w) \<Rightarrow>
      case k_ListGrants K (secretNamespace gw) w of (grants, w) \<Rightarrow>
      case k_GetSecret K (secretNamespace gw) (secretName gw) w of (src, w) \<Rightarrow>
        (existing, grants, src))"

definition wantedRef :: "LLMBatchGateway \<Rightarrow> string" where
  "wantedRef gw = secretNamespace gw @ ''/'' @ secretName gw"

text \<open>A grant list that authorises the gateway's reference.\<close>

definition authorised :: "LLMBatchGateway \<Rightarrow> api_error + ReferenceGrant list \<Rightarrow> bool" where
  "authorised gw grants \<longleftrightarrow>
     (case grants of
        Inl _ \<Rightarrow> False
      | Inr gs \<Rightarrow> \<exists>g \<in> set gs. grants_from g (gw_Namespace gw) \<and> grants_to g (secretName gw))"

lemma referenceGrantPermits_spec:
  "referenceGrantPermits g ns name \<longleftrightarrow> grants_from g ns \<and> grants_to g name"
  by (simp add: referenceGrantPermits_def hasMatchingFrom_iff hasMatchingTo_iff grants_from_def
      grants_to_def GroupVersion_Group_def)

lemma resolve_same_namespace:
  "secretNamespace gw = gw_Namespace gw \<Longrightarrow> resolveSecret K gw s = (Inr (secretName gw), s)"
  by (simp add: resolveSecret_def Let_def)

text \<open>The whole of a cross-namespace resolution, by the answers of its reads.\<close>

lemma resolve_cross:
  assumes "secretNamespace gw \<noteq> gw_Namespace gw"
    and "secretAnswers K gw (st_world s) = (existing, grants, src)"
  obtains t where "st_log t = st_log s" and "st_filter t = st_filter s"
    and "resolveSecret K gw s =
      (case checkSecretRefImmutable existing (wantedRef gw) of
         Some e \<Rightarrow> (Inl e, t)
       | None \<Rightarrow>
           if \<not> authorised gw grants
           then (Inl (the (fst (checkReferenceGrant K gw (secretName gw) (secretNamespace gw)
                    (snd (call (k_GetSecret K (gw_Namespace gw) (localSecretName gw)) s))))), t)
           else case src of
                  Inl e \<Rightarrow> (Inl (Wrap [''reading source secret'', secretNamespace gw, secretName gw]
                               [ErrApi e]), t)
                | Inr x \<Rightarrow>
                    (case syncSecretCopy K gw x (localSecretName gw) t of
                       (Some e, s') \<Rightarrow> (Inl e, s')
                     | (None, s') \<Rightarrow> (Inr (localSecretName gw), s')))"
proof -
  obtain s1 where c1: "call (k_GetSecret K (gw_Namespace gw) (localSecretName gw)) s = (existing, s1)"
    using assms(2) by (auto simp: call_def secretAnswers_def split: prod.splits)
  obtain s2 where c2: "call (k_ListGrants K (secretNamespace gw)) s1 = (grants, s2)"
    using assms(2) c1 by (auto simp: call_def secretAnswers_def split: prod.splits)
  obtain s3 where c3: "call (k_GetSecret K (secretNamespace gw) (secretName gw)) s2 = (src, s3)"
    using assms(2) c1 c2 by (auto simp: call_def secretAnswers_def split: prod.splits)
  define t where "t = (if checkSecretRefImmutable existing (wantedRef gw) \<noteq> None then s1
    else if authorised gw grants then s3 else s2)"
  have logs: "st_log t = st_log s" "st_filter t = st_filter s"
    using call_eq [OF c1] call_eq [OF c2] call_eq [OF c3] by (simp_all add: t_def)
  have grant: "checkReferenceGrant K gw (secretName gw) (secretNamespace gw) s1 =
      (if authorised gw grants then (None, s2)
       else (fst (checkReferenceGrant K gw (secretName gw) (secretNamespace gw) s1), s2)) \<and>
    (\<not> authorised gw grants \<longrightarrow>
       fst (checkReferenceGrant K gw (secretName gw) (secretNamespace gw) s1) \<noteq> None)"
    using c2 by (auto simp: checkReferenceGrant_def authorised_def referenceGrantPermits_spec
        list_ex_iff split: sum.splits)
  have "resolveSecret K gw s =
      (case checkSecretRefImmutable existing (wantedRef gw) of
         Some e \<Rightarrow> (Inl e, t)
       | None \<Rightarrow>
           if \<not> authorised gw grants
           then (Inl (the (fst (checkReferenceGrant K gw (secretName gw) (secretNamespace gw)
                    (snd (call (k_GetSecret K (gw_Namespace gw) (localSecretName gw)) s))))), t)
           else case src of
                  Inl e \<Rightarrow> (Inl (Wrap [''reading source secret'', secretNamespace gw, secretName gw]
                               [ErrApi e]), t)
                | Inr x \<Rightarrow>
                    (case syncSecretCopy K gw x (localSecretName gw) t of
                       (Some e, s') \<Rightarrow> (Inl e, s')
                     | (None, s') \<Rightarrow> (Inr (localSecretName gw), s')))"
    using assms(1) grant
    by (cases "checkSecretRefImmutable existing (wantedRef gw)"; cases "authorised gw grants";
        cases src)
      (auto simp: resolveSecret_def Let_def c1 c2 c3 t_def wantedRef_def [symmetric] wantedRef_def
        split: prod.splits option.splits)
  with logs show thesis by (rule that)
qed

lemma syncSecretCopy_log:
  assumes "syncSecretCopy K gw src localName t = (r, s')"
  shows "st_filter s' = st_filter t \<and>
    (case k_SetControllerReference K gw (gw_Namespace gw) [] of
       Inl _ \<Rightarrow> r \<noteq> None \<and> s' = t
     | Inr refs \<Rightarrow>
         (let copy = secretCopy gw src localName refs
          in if (\<exists>e. k_MarshalSecret K copy = Inl e) then r \<noteq> None \<and> s' = t
             else (\<exists>a. st_log s' = st_log t @ [AppliedSecret copy a] \<and> (r = None \<longleftrightarrow> a = None))))"
  using assms
  by (auto simp: syncSecretCopy_def applySecret_def ServerSideApply_def error_of_def
      split: sum.splits prod.splits dest!: call_eq)

lemma resolve_log:
  assumes "secretNamespace gw \<noteq> gw_Namespace gw"
    and "secretAnswers K gw (st_world s) = (existing, grants, src)"
    and "resolveSecret K gw s = (r, s')"
  shows "st_log s' = st_log s \<and> (\<exists>e. r = Inl e) \<or>
    checkSecretRefImmutable existing (wantedRef gw) = None \<and> authorised gw grants \<and>
    (\<exists>x refs a. src = Inr x \<and> k_SetControllerReference K gw (gw_Namespace gw) [] = Inr refs \<and>
       st_log s' = st_log s @ [AppliedSecret (secretCopy gw x (localSecretName gw) refs) a] \<and>
       (if a = None then r = Inr (localSecretName gw) else \<exists>e. r = Inl e))"
proof -
  obtain t where t: "st_log t = st_log s" "st_filter t = st_filter s"
    and eq: "resolveSecret K gw s =
      (case checkSecretRefImmutable existing (wantedRef gw) of
         Some e \<Rightarrow> (Inl e, t)
       | None \<Rightarrow>
           if \<not> authorised gw grants
           then (Inl (the (fst (checkReferenceGrant K gw (secretName gw) (secretNamespace gw)
                    (snd (call (k_GetSecret K (gw_Namespace gw) (localSecretName gw)) s))))), t)
           else case src of
                  Inl e \<Rightarrow> (Inl (Wrap [''reading source secret'', secretNamespace gw, secretName gw]
                               [ErrApi e]), t)
                | Inr x \<Rightarrow>
                    (case syncSecretCopy K gw x (localSecretName gw) t of
                       (Some e, s') \<Rightarrow> (Inl e, s')
                     | (None, s') \<Rightarrow> (Inr (localSecretName gw), s')))"
    by (rule resolve_cross [OF assms(1,2)])
  show ?thesis
  proof (cases "checkSecretRefImmutable existing (wantedRef gw) = None \<and> authorised gw grants")
    case False
    with eq assms(3) t show ?thesis by (auto split: option.splits if_splits)
  next
    case True
    show ?thesis
    proof (cases src)
      case (Inl e)
      with True eq assms(3) t show ?thesis by auto
    next
      case (Inr x)
      obtain r' t' where sync: "syncSecretCopy K gw x (localSecretName gw) t = (r', t')" by fastforce
      have "r = (case r' of Some e \<Rightarrow> Inl e | None \<Rightarrow> Inr (localSecretName gw))" "s' = t'"
        using True Inr eq assms(3) sync by (auto split: option.splits)
      with syncSecretCopy_log [OF sync] True Inr t show ?thesis
        by (auto simp: Let_def split: sum.splits if_splits option.splits)
    qed
  qed
qed

lemma resolve_filter: "st_filter (snd (resolveSecret K gw s)) = st_filter s"
  by (auto simp: resolveSecret_def Let_def split: prod.split option.split sum.split
      dest!: call_eq checkReferenceGrant_log syncSecretCopy_log)

section \<open>Properties\<close>

text \<open>
  \<open>referenceGrantPermits\<close> is exactly the ReferenceGrant contract: some \<open>from\<close> entry
  is the LLMBatchGateway kind of the operator's group in the gateway's namespace, and some
  \<open>to\<close> entry is a core Secret, unnamed or with the referenced name.
\<close>

lemma grant_permits_iff:
  "referenceGrantPermits g ns name \<longleftrightarrow> grants_from g ns \<and> grants_to g name"
  by (rule referenceGrantPermits_spec)

text \<open>
  C6: a Secret is only ever written for a reference into another namespace, when the grants read
  in that namespace authorise the gateway to use that Secret and the source was then read; what
  is written is the source's type and data under the copy's name in the gateway's namespace,
  annotated with its origin, and an existing copy had the same origin or could not be read.
\<close>

theorem secret_copy_authorised:
  assumes "AppliedSecret c a \<in> set (new_log s (snd (resolveSecret K gw s)))"
    and "secretAnswers K gw (st_world s) = (existing, grants, src)"
  shows "secretNamespace gw \<noteq> gw_Namespace gw \<and> authorised gw grants \<and>
    (\<exists>x. src = Inr x \<and> sec_Data c = sec_Data x \<and> sec_Type c = sec_Type x \<and>
       sec_Annotations c = [(copiedFrom, sec_Namespace x @ ''/'' @ sec_Name x)]) \<and>
    sec_Namespace c = gw_Namespace gw \<and> sec_Name c = localSecretName gw \<and>
    checkSecretRefImmutable existing (wantedRef gw) = None"
proof -
  have cross: "secretNamespace gw \<noteq> gw_Namespace gw"
    using assms(1) resolve_same_namespace [of gw K s] by (auto simp: new_log_def)
  obtain r s' where eq: "resolveSecret K gw s = (r, s')" by fastforce
  from resolve_log [OF cross assms(2) eq] assms(1) eq cross show ?thesis
    by (auto simp: secretCopy_def new_log_def)
qed

text \<open>
  C23: resolution succeeds with the reference's own name, untouched state and no API call for a
  Secret of the gateway's namespace. For any other it succeeds only with the name of the copy,
  and exactly when the copy has been applied: authorised, of unchanged origin, and accepted by
  the server.
\<close>

theorem resolve_result_iff:
  assumes "secretAnswers K gw (st_world s) = (existing, grants, src)"
  shows "if secretNamespace gw = gw_Namespace gw
    then resolveSecret K gw s = (Inr (secretName gw), s)
    else (fst (resolveSecret K gw s) = Inr n \<longleftrightarrow>
      n = localSecretName gw \<and>
      (\<exists>x refs. src = Inr x \<and> authorised gw grants \<and>
         checkSecretRefImmutable existing (wantedRef gw) = None \<and>
         new_log s (snd (resolveSecret K gw s))
           = [AppliedSecret (secretCopy gw x (localSecretName gw) refs) None]))"
proof (cases "secretNamespace gw = gw_Namespace gw")
  case True
  then show ?thesis by (simp add: resolve_same_namespace)
next
  case False
  obtain r s' where eq: "resolveSecret K gw s = (r, s')" by fastforce
  from resolve_log [OF False assms eq] eq False show ?thesis
    by (auto simp: new_log_def split: if_splits)
qed

text \<open>
  C25: once a copy exists, a reference to any other Secret of another namespace is refused with
  the two references in the error, before any grant is read, and nothing is written.
\<close>

theorem changed_reference_refused:
  assumes "secretNamespace gw \<noteq> gw_Namespace gw"
    and "secretAnswers K gw (st_world s) = (Inr copy, grants, src)"
    and "go_get (sec_Annotations copy) copiedFrom = Some old" and "old \<noteq> wantedRef gw"
  shows "fst (resolveSecret K gw s)
      = Inl (ErrImmutable \<lparr>sri_OldRef = old, sri_NewRef = wantedRef gw\<rparr>) \<and>
    new_log s (snd (resolveSecret K gw s)) = []"
  using assms
  by (auto intro: resolve_cross [OF assms(1,2)] simp: checkSecretRefImmutable_def Let_def)

text \<open>
  The refusal depends on the read of the existing copy. When that read fails, with any
  error, an authorised reference is copied over whatever is there, and when the reference
  is changed to a Secret of the gateway's own namespace no check is made.
\<close>

lemma failed_read_skips_immutability:
  assumes "secretNamespace gw \<noteq> gw_Namespace gw"
    and "secretAnswers K gw (st_world s) = (Inl err, grants, Inr x)"
    and "authorised gw grants"
    and "k_SetControllerReference K gw (gw_Namespace gw) [] = Inr refs"
    and "k_MarshalSecret K (secretCopy gw x (localSecretName gw) refs) = Inr data"
  shows "\<exists>a. new_log s (snd (resolveSecret K gw s))
    = [AppliedSecret (secretCopy gw x (localSecretName gw) refs) a]"
proof -
  let ?step = "syncSecretCopy K gw x (localSecretName gw)"
  obtain t where t: "st_log t = st_log s" and eq: "resolveSecret K gw s =
      (case ?step t of (Some e, s') \<Rightarrow> (Inl e, s') | (None, s') \<Rightarrow> (Inr (localSecretName gw), s'))"
    using assms(3) by (auto intro: resolve_cross [OF assms(1,2)] simp: checkSecretRefImmutable_def)
  obtain r s' where sync: "?step t = (r, s')" by fastforce
  then have "snd (resolveSecret K gw s) = s'"
    by (simp add: eq split: option.split)
  with syncSecretCopy_log [OF sync] assms(4,5) t show ?thesis
    by (auto simp: Let_def)
qed

section \<open>Witnesses\<close>

lemma sample_resolution:
  "secretNamespace sqlGateway = ''vault''" "localSecretName sqlGateway = ''gw-credentials''"
  "wantedRef sqlGateway = ''vault/creds''"
  "secretAnswers clusterClient sqlGateway (sampleCluster gws (vaultSecret # secrets) objs)
     = (found (find (sameSecret ''apps'' ''gw-credentials'') secrets), Inr [appsGrant], Inr vaultSecret)"
  "authorised sqlGateway (Inr [appsGrant])"
  by (simp_all add: secretNamespace_def localSecretName_def managedSecretSuffix_def wantedRef_def
      secretAnswers_def clusterClient_def sampleCluster_def vaultSecret_def sameSecret_def found_def
      authorised_def appsGrant_def grants_from_def grants_to_def)

lemma sample_client:
  "k_SetControllerReference clusterClient = setControllerRef"
  "k_MarshalSecret clusterClient sec = Inr (sec_Name sec)"
  "setControllerRef sqlGateway ''apps'' [] = Inr [controllerRef sqlGateway]"
  by (simp_all add: clusterClient_def setControllerRef_def)

definition foreignCopy :: Secret where
  "foreignCopy = vaultSecret\<lparr>sec_Name := ''gw-credentials'', sec_Namespace := ''apps'',
     sec_Annotations := [(copiedFrom, ''vault/other'')]\<rparr>"

lemma sample_answers:
  "secretAnswers clusterClient sqlGateway (sampleCluster gws [vaultSecret] objs)
     = (Inl NotFound, Inr [appsGrant], Inr vaultSecret)"
  "secretAnswers clusterClient sqlGateway (sampleCluster gws [vaultSecret, foreignCopy] objs)
     = (Inr foreignCopy, Inr [appsGrant], Inr vaultSecret)"
  "go_get (sec_Annotations foreignCopy) copiedFrom = Some ''vault/other''"
  by (simp_all add: sample_resolution(4)) (simp_all add: foreignCopy_def found_def sameSecret_def)

text \<open>The first resolution of the sample.\<close>

lemma sample_resolve:
  "new_log s (snd (resolveSecret clusterClient sqlGateway s))
     = [AppliedSecret (secretCopy sqlGateway vaultSecret ''gw-credentials'' [controllerRef sqlGateway]) None] \<and>
   fst (resolveSecret clusterClient sqlGateway s) = Inr ''gw-credentials''"
  if "st_world s = sampleCluster gws [vaultSecret] objs"
proof -
  have "secretNamespace sqlGateway \<noteq> gw_Namespace sqlGateway"
    and ans: "secretAnswers clusterClient sqlGateway (st_world s)
      = (Inl NotFound, Inr [appsGrant], Inr vaultSecret)"
    using that by (simp_all add: sample_resolution(1) sample_answers)
  then obtain t where t: "st_log t = st_log s" and eq: "resolveSecret clusterClient sqlGateway s =
      (case syncSecretCopy clusterClient sqlGateway vaultSecret (localSecretName sqlGateway) t of
         (Some e, s') \<Rightarrow> (Inl e, s') | (None, s') \<Rightarrow> (Inr (localSecretName sqlGateway), s'))"
    by (rule resolve_cross) (simp add: checkSecretRefImmutable_def sample_resolution(5))
  have "\<exists>t'. syncSecretCopy clusterClient sqlGateway vaultSecret ''gw-credentials'' t = (None, t') \<and>
      st_log t' = st_log t @ [AppliedSecret
        (secretCopy sqlGateway vaultSecret ''gw-credentials'' [controllerRef sqlGateway]) None]"
    by (simp add: syncSecretCopy_def sample_client applySecret_def ServerSideApply_def call_def)
      (simp add: clusterClient_def error_of_def)
  with eq t show ?thesis by (auto simp: sample_resolution(2))
qed

theorem failed_read_skips_immutability_witness:
  "\<exists>a. new_log (startState (sampleCluster [] [vaultSecret] []))
      (snd (resolveSecret clusterClient sqlGateway (startState (sampleCluster [] [vaultSecret] []))))
    = [AppliedSecret (secretCopy sqlGateway vaultSecret ''gw-credentials'' [controllerRef sqlGateway]) a]"
  by (rule failed_read_skips_immutability [of sqlGateway clusterClient
        "startState (sampleCluster [] [vaultSecret] [])" NotFound "Inr [appsGrant]" vaultSecret
        "[controllerRef sqlGateway]", unfolded sample_resolution(2)])
    (simp_all add: sample_resolution(1,2,3,5) sample_answers sample_client)

theorem changed_reference_refused_witness:
  "fst (resolveSecret clusterClient sqlGateway
         (startState (sampleCluster [] [vaultSecret, foreignCopy] [])))
   = Inl (ErrImmutable \<lparr>sri_OldRef = ''vault/other'', sri_NewRef = ''vault/creds''\<rparr>)"
  using changed_reference_refused [OF _ _ sample_answers(3), of sqlGateway clusterClient
      "startState (sampleCluster [] [vaultSecret, foreignCopy] [])"]
  by (simp add: sample_resolution(1,2,3,5) sample_answers)

definition vaultState :: "cluster st" where
  "vaultState = startState (sampleCluster [] [vaultSecret] [])"

theorem secret_copy_authorised_witness:
  "\<exists>c. AppliedSecret c None \<in> set (new_log vaultState (snd (resolveSecret clusterClient sqlGateway vaultState))) \<and>
     sec_Name c = ''gw-credentials'' \<and> sec_Data c = sec_Data vaultSecret"
proof -
  have w: "st_world vaultState = sampleCluster [] [vaultSecret] []"
    by (simp add: vaultState_def)
  then have "secretAnswers clusterClient sqlGateway (st_world vaultState)
      = (Inl NotFound, Inr [appsGrant], Inr vaultSecret)"
    by (simp add: sample_answers)
  from secret_copy_authorised [OF _ this] sample_resolve [OF w] show ?thesis
    by (auto simp: sample_resolution(1,2,3,5))
qed

theorem resolve_result_iff_witness:
  "resolveSecret clusterClient redisGateway vaultState = (Inr ''creds'', vaultState)"
proof -
  obtain existing grants src
    where "secretAnswers clusterClient redisGateway (st_world vaultState) = (existing, grants, src)"
    using prod_cases3 by blast
  from resolve_result_iff [OF this] show ?thesis
    by (simp add: secretNamespace_def)
qed

end
