(* ===== verification/Rollout.thy ===== *)
theory Rollout
  imports Kube
begin

text \<open>
  How far a workload's rollout has progressed and what the status says of it:
  \<open>llmbatchgateway_controller.go\<close> lines 74-86, 619-716 and 894-899. Deployments and
  StatefulSets share the contract \<open>workload\<close>.
\<close>

section \<open>Replica counts\<close>

text \<open>Comparisons of \<open>int32\<close> and \<open>int64\<close> are signed, hence on \<open>sint\<close>.\<close>

definition reportedReadyReplicas :: "int32 \<Rightarrow> int32 \<Rightarrow> bool \<Rightarrow> int32" where
  "reportedReadyReplicas ready desired rolledOut =
     (if \<not> rolledOut then 0
      else if sint ready > sint desired then desired
      else ready)"

definition desiredReplicas :: "int32 option \<Rightarrow> int32" where
  "desiredReplicas replicas = (case replicas of None \<Rightarrow> 1 | Some n \<Rightarrow> n)"

definition deploymentRolledOut :: "Deployment \<Rightarrow> bool" where
  "deploymentRolledOut d \<longleftrightarrow>
     (let desired = desiredReplicas (d_SpecReplicas d) in
      sint (d_ObservedGeneration d) \<ge> sint (d_Generation d) \<and>
      d_UpdatedReplicas d = desired \<and>
      d_StatusReplicas d = desired \<and>
      sint (d_ReadyReplicas d) \<ge> sint desired)"

definition deploymentReplicaStatus :: "Deployment \<Rightarrow> int32 \<times> int32" where
  "deploymentReplicaStatus d =
     (let desired = desiredReplicas (d_SpecReplicas d) in
      (desired, reportedReadyReplicas (d_ReadyReplicas d) desired (deploymentRolledOut d)))"

definition statefulSetRolledOut :: "StatefulSet \<Rightarrow> bool" where
  "statefulSetRolledOut ss \<longleftrightarrow>
     (let desired = desiredReplicas (ss_SpecReplicas ss) in
      sint (ss_ObservedGeneration ss) \<ge> sint (ss_Generation ss) \<and>
      ss_UpdatedReplicas ss = desired \<and>
      ss_StatusReplicas ss = desired \<and>
      sint (ss_ReadyReplicas ss) \<ge> sint desired \<and>
      ss_CurrentRevision ss = ss_UpdateRevision ss)"

definition statefulSetReplicaStatus :: "StatefulSet \<Rightarrow> int32 \<times> int32" where
  "statefulSetReplicaStatus ss =
     (let desired = desiredReplicas (ss_SpecReplicas ss) in
      (desired, reportedReadyReplicas (ss_ReadyReplicas ss) desired (statefulSetRolledOut ss)))"

section \<open>Conditions\<close>

definition conditionStatus :: "bool \<Rightarrow> ConditionStatus" where
  "conditionStatus ok = (if ok then ConditionTrue else ConditionFalse)"

definition conditionReason :: "bool \<Rightarrow> string \<Rightarrow> string \<Rightarrow> string" where
  "conditionReason ok trueReason falseReason = (if ok then trueReason else falseReason)"

definition conditionMessage :: "bool \<Rightarrow> string \<Rightarrow> string \<Rightarrow> string" where
  "conditionMessage ok trueMsg falseMsg = (if ok then trueMsg else falseMsg)"

record componentCondition =
  cc_conditionType :: string
  cc_name :: string

definition conditionReady :: string where
  "conditionReady = ''Ready''"

definition apiServerCondition :: componentCondition where
  "apiServerCondition = \<lparr>cc_conditionType = ''APIServerAvailable'', cc_name = ''API server''\<rparr>"

definition processorCondition :: componentCondition where
  "processorCondition = \<lparr>cc_conditionType = ''ProcessorAvailable'', cc_name = ''Processor''\<rparr>"

definition gcCondition :: componentCondition where
  "gcCondition = \<lparr>cc_conditionType = ''GCAvailable'', cc_name = ''GC''\<rparr>"

definition asyncProcessorCondition :: componentCondition where
  "asyncProcessorCondition = \<lparr>cc_conditionType = ''AsyncProcessorAvailable'', cc_name = ''Async processor''\<rparr>"

definition allConditionTypes :: "string list" where
  "allConditionTypes = [conditionReady, cc_conditionType apiServerCondition,
     cc_conditionType processorCondition, cc_conditionType gcCondition,
     cc_conditionType asyncProcessorCondition]"

lemma distinct_allConditionTypes: "distinct allConditionTypes"
  by (simp add: allConditionTypes_def conditionReady_def apiServerCondition_def
      processorCondition_def gcCondition_def asyncProcessorCondition_def)

text \<open>Setting one condition on a gateway with \<open>meta.SetStatusCondition\<close>.\<close>

definition setCondition :: "'w client \<Rightarrow> LLMBatchGateway \<Rightarrow> Condition \<Rightarrow> LLMBatchGateway" where
  "setCondition K gw c =
     gw\<lparr>gw_Status := (gw_Status gw)\<lparr>status_Conditions :=
          k_SetStatusCondition K (status_Conditions (gw_Status gw)) c\<rparr>\<rparr>"

definition replicasReady :: "ComponentReplicaStatus option \<Rightarrow> int32 \<times> int32" where
  "replicasReady status =
     (case status of None \<Rightarrow> (0, 0) | Some s \<Rightarrow> (crs_Replicas s, crs_ReadyReplicas s))"

definition componentAvailable :: "ComponentReplicaStatus option \<Rightarrow> bool" where
  "componentAvailable status \<longleftrightarrow>
     (case replicasReady status of (replicas, readyReplicas) \<Rightarrow>
        sint replicas > 0 \<and> sint readyReplicas \<ge> sint replicas)"

definition availableCondition ::
  "LLMBatchGateway \<Rightarrow> componentCondition \<Rightarrow> ComponentReplicaStatus option \<Rightarrow> Condition" where
  "availableCondition gw cond status =
     (case replicasReady status of (replicas, readyReplicas) \<Rightarrow>
        \<lparr>cond_Type = cc_conditionType cond,
         cond_Status = conditionStatus (componentAvailable status),
         cond_Reason = conditionReason (componentAvailable status) ''Available'' ''Unavailable'',
         cond_Message = MsgReplicas (cc_name cond) readyReplicas replicas,
         cond_ObservedGeneration = gw_Generation gw\<rparr>)"

definition setComponentAvailableCondition ::
  "'w client \<Rightarrow> LLMBatchGateway \<Rightarrow> componentCondition \<Rightarrow> ComponentReplicaStatus option \<Rightarrow>
   LLMBatchGateway \<times> bool" where
  "setComponentAvailableCondition K gw cond status =
     (setCondition K gw (availableCondition gw cond status), componentAvailable status)"

definition setComponentStatus ::
  "ComponentStatus \<Rightarrow> string \<Rightarrow> ComponentReplicaStatus \<Rightarrow> ComponentStatus" where
  "setComponentStatus componentStatus component status =
     (if component = componentAPIServer then componentStatus\<lparr>cs_APIServer := Some status\<rparr>
      else if component = componentProcessor then componentStatus\<lparr>cs_Processor := Some status\<rparr>
      else if component = componentGC then componentStatus\<lparr>cs_GC := Some status\<rparr>
      else if component = componentAsyncProcessor then componentStatus\<lparr>cs_AsyncProcessor := Some status\<rparr>
      else componentStatus)"

section \<open>The contract of a workload\<close>

text \<open>
  Both kinds of workload report a pair of desired and ready replicas. The laws: the first is
  the desired count, the second is \<open>reportedReadyReplicas\<close> of the observed ready count, and
  a finished rollout has at least the desired number ready.
\<close>

locale workload =
  fixes status :: "'o \<Rightarrow> int32 \<times> int32"
    and desired :: "'o \<Rightarrow> int32"
    and ready :: "'o \<Rightarrow> int32"
    and rolledOut :: "'o \<Rightarrow> bool"
  assumes status_reports:
      "status x = (desired x, reportedReadyReplicas (ready x) (desired x) (rolledOut x))"
    and rolled_out_ready: "rolledOut x \<Longrightarrow> sint (desired x) \<le> sint (ready x)"
begin

lemma ready_all_or_nothing: "status x = (desired x, if rolledOut x then desired x else 0)"
  using rolled_out_ready [of x]
  by (auto simp: status_reports reportedReadyReplicas_def intro: signed_word_eqI [OF sym])

lemma available_iff:
  "componentAvailable (Some \<lparr>crs_Replicas = fst (status x), crs_ReadyReplicas = snd (status x)\<rparr>)
   \<longleftrightarrow> sint (desired x) > 0 \<and> rolledOut x"
  by (auto simp: componentAvailable_def replicasReady_def ready_all_or_nothing)

lemma ready_bounds: "0 \<le> sint (desired x) \<Longrightarrow>
    0 \<le> sint (snd (status x)) \<and> sint (snd (status x)) \<le> sint (desired x)"
  by (auto simp: ready_all_or_nothing)

end

interpretation deployment: workload deploymentReplicaStatus
  "\<lambda>d. desiredReplicas (d_SpecReplicas d)" d_ReadyReplicas deploymentRolledOut
  by unfold_locales (simp_all add: deploymentReplicaStatus_def deploymentRolledOut_def Let_def)

interpretation statefulSet: workload statefulSetReplicaStatus
  "\<lambda>ss. desiredReplicas (ss_SpecReplicas ss)" ss_ReadyReplicas statefulSetRolledOut
  by unfold_locales (simp_all add: statefulSetReplicaStatus_def statefulSetRolledOut_def Let_def)

section \<open>Properties\<close>

text \<open>
  The ready count reported for a Deployment or a StatefulSet is all or nothing: the desired
  count when the rollout is finished (latest spec observed, every replica updated, none
  surplus, all ready, for a StatefulSet also one revision), and 0 otherwise.
\<close>

lemma ready_count_all_or_nothing:
  "deploymentReplicaStatus d =
     (desiredReplicas (d_SpecReplicas d),
      if deploymentRolledOut d then desiredReplicas (d_SpecReplicas d) else 0) \<and>
   statefulSetReplicaStatus ss =
     (desiredReplicas (ss_SpecReplicas ss),
      if statefulSetRolledOut ss then desiredReplicas (ss_SpecReplicas ss) else 0)"
  using deployment.ready_all_or_nothing statefulSet.ready_all_or_nothing by blast

text \<open>
  C29: a component whose Deployment or StatefulSet is reported is available exactly when it is
  not scaled to zero and its rollout is finished: the controller has observed the latest spec,
  every replica is updated, none is surplus, at least the desired number are ready and, for a
  StatefulSet, one revision is left. The desired number is 1 when none is given. A component
  without a workload is not available.
\<close>

theorem component_available_iff:
  "(case deploymentReplicaStatus d of (replicas, readyReplicas) \<Rightarrow>
      componentAvailable (Some \<lparr>crs_Replicas = replicas, crs_ReadyReplicas = readyReplicas\<rparr>))
     = (\<exists>desired. desired = (case d_SpecReplicas d of None \<Rightarrow> 1 | Some n \<Rightarrow> n) \<and> 0 < sint desired \<and>
         sint (d_Generation d) \<le> sint (d_ObservedGeneration d) \<and>
         d_UpdatedReplicas d = desired \<and> d_StatusReplicas d = desired \<and>
         sint desired \<le> sint (d_ReadyReplicas d)) \<and>
   (case statefulSetReplicaStatus ss of (replicas, readyReplicas) \<Rightarrow>
      componentAvailable (Some \<lparr>crs_Replicas = replicas, crs_ReadyReplicas = readyReplicas\<rparr>))
     = (\<exists>desired. desired = (case ss_SpecReplicas ss of None \<Rightarrow> 1 | Some n \<Rightarrow> n) \<and> 0 < sint desired \<and>
         sint (ss_Generation ss) \<le> sint (ss_ObservedGeneration ss) \<and>
         ss_UpdatedReplicas ss = desired \<and> ss_StatusReplicas ss = desired \<and>
         sint desired \<le> sint (ss_ReadyReplicas ss) \<and> ss_CurrentRevision ss = ss_UpdateRevision ss) \<and>
   \<not> componentAvailable None"
proof -
  have "\<not> componentAvailable None"
    by (simp add: componentAvailable_def replicasReady_def)
  then show ?thesis
    using deployment.available_iff [of d] statefulSet.available_iff [of ss]
    by (simp add: case_prod_beta deploymentRolledOut_def statefulSetRolledOut_def desiredReplicas_def Let_def)
qed

end
