(* ===== verification/Status.thy ===== *)
theory Status
  imports Rollout Cluster
begin

text \<open>
  What the controller writes to a gateway's status: \<open>llmbatchgateway_controller.go\<close> lines
  275-332 (failures), 398-489 (\<open>updateStatus\<close>) and 597-617 (ownership). The condition
  functions of \<open>meta\<close> are parameters; \<open>condition_lib\<close> is their documented behaviour.
\<close>

section \<open>Ownership\<close>

definition isControllerOwnedBy :: "OwnerReference list \<Rightarrow> LLMBatchGateway \<Rightarrow> bool" where
  "isControllerOwnedBy refs owner =
     list_ex (\<lambda>ref. owner_UID ref = gw_UID owner \<and>
       owner_Kind ref = ''LLMBatchGateway'' \<and>
       owner_APIVersion ref = GroupVersion_String \<and>
       (case owner_Controller ref of None \<Rightarrow> False | Some b \<Rightarrow> b)) refs"

definition isOwnedBy :: "OwnerReference list \<Rightarrow> LLMBatchGateway \<Rightarrow> bool" where
  "isOwnedBy refs owner = list_ex (\<lambda>ref. owner_UID ref = gw_UID owner) refs"

section \<open>Failures\<close>

definition conditionsStatusField :: string where
  "conditionsStatusField = ''conditions''"

definition componentStatusField :: string where
  "componentStatusField = ''componentStatus''"

definition observedGenerationStatusField :: string where
  "observedGenerationStatusField = ''observedGeneration''"

record statusFailure =
  sf_reason :: string
  sf_message :: message
  sf_conditions :: "string list"

definition observe :: "LLMBatchGateway \<Rightarrow> LLMBatchGateway" where
  "observe gw = gw\<lparr>gw_Status := (gw_Status gw)\<lparr>status_ObservedGeneration := gw_Generation gw\<rparr>\<rparr>"

definition failureCondition :: "LLMBatchGateway \<Rightarrow> statusFailure \<Rightarrow> string \<Rightarrow> Condition" where
  "failureCondition gw failure condType =
     \<lparr>cond_Type = condType, cond_Status = ConditionFalse, cond_Reason = sf_reason failure,
      cond_Message = sf_message failure, cond_ObservedGeneration = gw_Generation gw\<rparr>"

definition markFailed :: "'w client \<Rightarrow> statusFailure \<Rightarrow> LLMBatchGateway \<Rightarrow> LLMBatchGateway" where
  "markFailed K failure gw =
     fold (\<lambda>condType gw. setCondition K gw (failureCondition gw failure condType))
       (sf_conditions failure) (observe gw)"

definition recordFailure ::
  "'w client \<Rightarrow> LLMBatchGateway \<Rightarrow> statusFailure \<Rightarrow> 'w st \<Rightarrow> goerr option \<times> 'w st" where
  "recordFailure K gw failure s =
     (let gw = markFailed K failure gw;
          s = emit (Event EventWarning (sf_reason failure) (sf_message failure)) s;
          p = NewStatusPatch (gw_ResourceVersion gw);
          p = patch_Add p conditionsStatusField (Conditions (status_Conditions (gw_Status gw)));
          p = patch_Add p observedGenerationStatusField
                (ObservedGeneration (status_ObservedGeneration (gw_Status gw)))
      in case patch_Apply K gw p s of
           (Some e, s) \<Rightarrow> (Some (Wrap [''patching status after'', sf_reason failure] [e]), s)
         | (None, s) \<Rightarrow> (None, s))"

record ctrlResult =
  ctrl_RequeueAfter :: int64

definition noResult :: ctrlResult where
  "noResult = \<lparr>ctrl_RequeueAfter = 0\<rparr>"

definition failRender ::
  "'w client \<Rightarrow> LLMBatchGateway \<Rightarrow> string \<Rightarrow> goerr \<Rightarrow> 'w st \<Rightarrow> (ctrlResult \<times> goerr option) \<times> 'w st" where
  "failRender K gw chart renderErr s =
     (let failure = \<lparr>sf_reason = ''RenderFailed'',
            sf_message = MsgError [chart, ''render failed''] renderErr,
            sf_conditions = [conditionReady]\<rparr>;
          wrapErr = Wrap [''rendering'', chart] [renderErr]
      in case recordFailure K gw failure s of
           (Some err, s) \<Rightarrow>
             ((noResult, Some (Wrap [''rendering'', chart, ''failed to patch status''] [renderErr, err])), s)
         | (None, s) \<Rightarrow> ((noResult, Some wrapErr), s))"

section \<open>updateStatus\<close>

text \<open>The bodies of the two loops.\<close>

definition addDeployment :: "LLMBatchGateway \<Rightarrow> Deployment \<Rightarrow> ComponentStatus \<Rightarrow> ComponentStatus" where
  "addDeployment gw d componentStatus =
     (if \<not> isOwnedBy (d_OwnerReferences d) gw then componentStatus
      else case go_get (d_Labels d) labelKeyComponent of
             None \<Rightarrow> componentStatus
           | Some component \<Rightarrow>
               (case deploymentReplicaStatus d of (replicas, readyReplicas) \<Rightarrow>
                  setComponentStatus componentStatus component
                    \<lparr>crs_Replicas = replicas, crs_ReadyReplicas = readyReplicas\<rparr>))"

definition addStatefulSet :: "LLMBatchGateway \<Rightarrow> StatefulSet \<Rightarrow> ComponentStatus \<Rightarrow> ComponentStatus" where
  "addStatefulSet gw ss componentStatus =
     (if \<not> isOwnedBy (ss_OwnerReferences ss) gw then componentStatus
      else case go_get (ss_Labels ss) labelKeyComponent of
             None \<Rightarrow> componentStatus
           | Some component \<Rightarrow>
               (case statefulSetReplicaStatus ss of (replicas, readyReplicas) \<Rightarrow>
                  setComponentStatus componentStatus component
                    \<lparr>crs_Replicas = replicas, crs_ReadyReplicas = readyReplicas\<rparr>))"

definition emptyComponentStatus :: ComponentStatus where
  "emptyComponentStatus = \<lparr>cs_APIServer = None, cs_Processor = None, cs_GC = None,
     cs_AsyncProcessor = None\<rparr>"

definition collectStatus ::
  "LLMBatchGateway \<Rightarrow> Deployment list \<Rightarrow> StatefulSet list \<Rightarrow> ComponentStatus" where
  "collectStatus gw deployments statefulSets =
     fold (addStatefulSet gw) statefulSets
       (fold (addDeployment gw) deployments emptyComponentStatus)"

definition readyCondition :: "LLMBatchGateway \<Rightarrow> bool \<Rightarrow> Condition" where
  "readyCondition gw ready =
     \<lparr>cond_Type = conditionReady,
      cond_Status = conditionStatus ready,
      cond_Reason = conditionReason ready ''AllComponentsReady'' ''ComponentsNotReady'',
      cond_Message = MsgText (conditionMessage ready ''All components are fully rolled out''
                                ''One or more components are not fully rolled out''),
      cond_ObservedGeneration = gw_Generation gw\<rparr>"

text \<open>
  The part of \<open>updateStatus\<close> after the lists: conditions, event, patch. A condition that is
  not there counts as a previous status different from both.
\<close>

definition publishStatus ::
  "'w client \<Rightarrow> LLMBatchGateway \<Rightarrow> ComponentStatus \<Rightarrow> 'w st \<Rightarrow> goerr option \<times> 'w st" where
  "publishStatus K gw componentStatus s =
     (let gw = gw\<lparr>gw_Status := (gw_Status gw)\<lparr>status_ComponentStatus := Some componentStatus\<rparr>\<rparr>;
          gw = observe gw;
          (gw, apiAvailable) =
            setComponentAvailableCondition K gw apiServerCondition (cs_APIServer componentStatus);
          (gw, procAvailable) =
            setComponentAvailableCondition K gw processorCondition (cs_Processor componentStatus);
          (gw, gcAvailable) =
            setComponentAvailableCondition K gw gcCondition (cs_GC componentStatus);
          (gw, asyncAvailable) =
            setComponentAvailableCondition K gw asyncProcessorCondition (cs_AsyncProcessor componentStatus);
          ready = (apiAvailable \<and> procAvailable \<and> gcAvailable \<and> asyncAvailable);
          prevReadyStatus = map_option cond_Status
            (k_FindStatusCondition K (status_Conditions (gw_Status gw)) conditionReady);
          gw = setCondition K gw (readyCondition gw ready);
          newReadyStatus = conditionStatus ready;
          s = (if prevReadyStatus \<noteq> Some newReadyStatus
               then if ready
                    then emit (Event EventNormal ''AllComponentsReady''
                                 (MsgText ''All components are fully rolled out'')) s
                    else emit (Event EventWarning ''ComponentsNotReady''
                                 (MsgText ''One or more components are not fully rolled out'')) s
               else s);
          p = NewStatusPatch (gw_ResourceVersion gw);
          p = patch_Add p conditionsStatusField (Conditions (status_Conditions (gw_Status gw)));
          p = patch_Add p componentStatusField (Components (status_ComponentStatus (gw_Status gw)));
          p = patch_Add p observedGenerationStatusField
                (ObservedGeneration (status_ObservedGeneration (gw_Status gw)))
      in patch_Apply K gw p s)"

definition updateStatus :: "'w client \<Rightarrow> LLMBatchGateway \<Rightarrow> 'w st \<Rightarrow> goerr option \<times> 'w st" where
  "updateStatus K gw s =
     (case call (k_ListDeployments K (gw_Namespace gw) [(labelKeyInstance, gw_Name gw)]) s of
        (Inl e, s) \<Rightarrow> (Some (Wrap [''listing deployments''] [ErrApi e]), s)
      | (Inr deployments, s) \<Rightarrow>
          (case call (k_ListStatefulSets K (gw_Namespace gw) [(labelKeyInstance, gw_Name gw)]) s of
             (Inl e, s) \<Rightarrow> (Some (Wrap [''listing statefulsets''] [ErrApi e]), s)
           | (Inr statefulSets, s) \<Rightarrow>
               publishStatus K gw (collectStatus gw deployments statefulSets) s))"

section \<open>The condition library\<close>

definition condition_lib :: "'w client \<Rightarrow> bool" where
  "condition_lib K \<longleftrightarrow>
     (\<forall>cs c t. k_FindStatusCondition K (k_SetStatusCondition K cs c) t =
        (if t = cond_Type c then Some c else k_FindStatusCondition K cs t))"

definition condOf :: "'w client \<Rightarrow> LLMBatchGateway \<Rightarrow> string \<Rightarrow> Condition option" where
  "condOf K gw t = k_FindStatusCondition K (status_Conditions (gw_Status gw)) t"

lemma condOf_set [simp]:
  "condition_lib K \<Longrightarrow>
     condOf K (setCondition K gw c) t = (if t = cond_Type c then Some c else condOf K gw t)"
  by (simp add: condition_lib_def condOf_def setCondition_def)

lemma setCondition_frame [simp]:
  "gw_Name (setCondition K gw c) = gw_Name gw"
  "gw_Namespace (setCondition K gw c) = gw_Namespace gw"
  "gw_Generation (setCondition K gw c) = gw_Generation gw"
  "gw_ResourceVersion (setCondition K gw c) = gw_ResourceVersion gw"
  "status_ObservedGeneration (gw_Status (setCondition K gw c)) = status_ObservedGeneration (gw_Status gw)"
  "status_ComponentStatus (gw_Status (setCondition K gw c)) = status_ComponentStatus (gw_Status gw)"
  by (simp_all add: setCondition_def)

lemma observe_simps [simp]:
  "condOf K (observe gw) t = condOf K gw t"
  "gw_Generation (observe gw) = gw_Generation gw"
  "gw_ResourceVersion (observe gw) = gw_ResourceVersion gw"
  "status_ObservedGeneration (gw_Status (observe gw)) = gw_Generation gw"
  "status_ComponentStatus (gw_Status (observe gw)) = status_ComponentStatus (gw_Status gw)"
  by (simp_all add: observe_def condOf_def)

lemma condition_fields [simp]:
  "cond_Type (availableCondition gw cond st) = cc_conditionType cond"
  "cond_Status (availableCondition gw cond st) = conditionStatus (componentAvailable st)"
  "cond_Type (readyCondition gw ready) = conditionReady"
  "cond_Status (readyCondition gw ready) = conditionStatus ready"
  "cond_Type (failureCondition gw failure t) = t"
  "cond_Status (failureCondition gw failure t) = ConditionFalse"
  by (simp_all add: availableCondition_def readyCondition_def failureCondition_def
      split: prod.split)

lemma conditions_differ [simp]:
  "conditionReady \<noteq> cc_conditionType apiServerCondition"
  "conditionReady \<noteq> cc_conditionType processorCondition"
  "conditionReady \<noteq> cc_conditionType gcCondition"
  "conditionReady \<noteq> cc_conditionType asyncProcessorCondition"
  "cc_conditionType apiServerCondition \<noteq> cc_conditionType processorCondition"
  "cc_conditionType apiServerCondition \<noteq> cc_conditionType gcCondition"
  "cc_conditionType apiServerCondition \<noteq> cc_conditionType asyncProcessorCondition"
  "cc_conditionType processorCondition \<noteq> cc_conditionType gcCondition"
  "cc_conditionType processorCondition \<noteq> cc_conditionType asyncProcessorCondition"
  "cc_conditionType gcCondition \<noteq> cc_conditionType asyncProcessorCondition"
  using distinct_allConditionTypes by (auto simp: allConditionTypes_def)

lemma patch_Apply_log:
  assumes "patch_Apply K gw p s = (r, s')"
  shows "st_filter s' = st_filter s \<and>
    (st_log s' = st_log s \<and> r \<noteq> None \<or>
     (\<exists>a. st_log s' = st_log s @ [StatusPatched (patch_payload_of p) a] \<and> (r = None \<longleftrightarrow> a = None)))"
  using assms by (auto simp: patch_Apply_def split: sum.splits prod.splits dest!: call_eq)

lemma failure_frame:
  "gw_Generation (fold (\<lambda>t gw. setCondition K gw (failureCondition gw f t)) ts gw) = gw_Generation gw \<and>
   gw_ResourceVersion (fold (\<lambda>t gw. setCondition K gw (failureCondition gw f t)) ts gw)
     = gw_ResourceVersion gw \<and>
   status_ObservedGeneration (gw_Status (fold (\<lambda>t gw. setCondition K gw (failureCondition gw f t)) ts gw))
     = status_ObservedGeneration (gw_Status gw)"
  by (induction ts arbitrary: gw) simp_all

lemma failure_conditions:
  assumes "condition_lib K"
  shows "condOf K (fold (\<lambda>t gw. setCondition K gw (failureCondition gw f t)) ts gw) t =
    (if t \<in> set ts then Some (failureCondition gw f t) else condOf K gw t)"
proof (induction ts arbitrary: gw)
  case Nil
  then show ?case by simp
next
  case (Cons u ts)
  have "failureCondition (setCondition K gw c) f t = failureCondition gw f t" for c t
    by (simp add: failureCondition_def)
  with Cons assms show ?case by auto
qed

lemma markFailed_simps [simp]:
  "gw_ResourceVersion (markFailed K f gw) = gw_ResourceVersion gw"
  "status_ObservedGeneration (gw_Status (markFailed K f gw)) = gw_Generation gw"
  by (simp_all add: markFailed_def failure_frame)

lemma markFailed_conditions:
  "condition_lib K \<Longrightarrow> condOf K (markFailed K f gw) t =
    (if t \<in> set (sf_conditions f) then Some (failureCondition gw f t) else condOf K gw t)"
  by (simp add: markFailed_def failure_conditions) (simp add: failureCondition_def)

lemma recordFailure_log:
  assumes "recordFailure K gw f s = (r, s')"
  shows "st_filter s' = st_filter s \<and>
    (\<exists>p ps. new_log s s' = Event EventWarning (sf_reason f) (sf_message f) # ps \<and>
      (ps = [] \<and> r \<noteq> None \<or> (\<exists>a. ps = [StatusPatched p a] \<and> (r = None \<longleftrightarrow> a = None))) \<and>
      payload_resourceVersion p = gw_ResourceVersion gw \<and>
      go_get (payload_status p) conditionsStatusField
        = Some (Conditions (status_Conditions (gw_Status (markFailed K f gw)))) \<and>
      go_get (payload_status p) observedGenerationStatusField
        = Some (ObservedGeneration (gw_Generation gw)) \<and>
      go_get (payload_status p) componentStatusField = None)"
proof -
  let ?s = "emit (Event EventWarning (sf_reason f) (sf_message f)) s"
  let ?p = "patch_Add (patch_Add (NewStatusPatch (gw_ResourceVersion gw)) conditionsStatusField
      (Conditions (status_Conditions (gw_Status (markFailed K f gw))))) observedGenerationStatusField
      (ObservedGeneration (gw_Generation gw))"
  obtain r1 s1 where ap: "patch_Apply K (markFailed K f gw) ?p ?s = (r1, s1)" by fastforce
  have eqs: "s' = s1" "r = map_option (\<lambda>e. Wrap [''patching status after'', sf_reason f] [e]) r1"
    using assms ap by (auto simp: recordFailure_def Let_def split: option.splits)
  have "new_log s s' = Event EventWarning (sf_reason f) (sf_message f) #
      drop (length (st_log ?s)) (st_log s')"
    using patch_Apply_log [OF ap] eqs by (auto simp: new_log_def)
  then show ?thesis
    using patch_Apply_log [OF ap] eqs
    by (intro conjI exI [of _ "patch_payload_of ?p"]
          exI [of _ "drop (length (st_log ?s)) (st_log s')"])
      (auto simp: conditionsStatusField_def observedGenerationStatusField_def componentStatusField_def)
qed

text \<open>
  What reporting a failure comes to, whatever code does it: in the world \<open>w\<close> one warning event
  with the reason and the message, then one status patch, if it can be marshalled, under the
  resource version that was read, whose conditions of the given types are False with that
  reason and message and whose other conditions are those the gateway had. \<open>ok\<close>: the server
  accepted the patch.
\<close>

definition failureReported ::
  "'w client \<Rightarrow> LLMBatchGateway \<Rightarrow> string \<Rightarrow> message \<Rightarrow> string list \<Rightarrow> 'w \<Rightarrow> effect list \<Rightarrow> bool \<Rightarrow> bool" where
  "failureReported K gw reason msg types w es ok \<longleftrightarrow>
     (\<exists>p conds. payload_resourceVersion p = gw_ResourceVersion gw \<and>
        go_get (payload_status p) ''conditions'' = Some (Conditions conds) \<and>
        (\<forall>t. k_FindStatusCondition K conds t =
           (if t \<in> set types
            then Some \<lparr>cond_Type = t, cond_Status = ConditionFalse, cond_Reason = reason,
                   cond_Message = msg, cond_ObservedGeneration = gw_Generation gw\<rparr>
            else k_FindStatusCondition K (status_Conditions (gw_Status gw)) t)) \<and>
        (case k_MarshalPatch K p of
           Inl e \<Rightarrow> es = [Event EventWarning reason msg] \<and> \<not> ok
         | Inr data \<Rightarrow>
             es = [Event EventWarning reason msg,
               StatusPatched p (fst (k_PatchStatus K (gw_Namespace gw) (gw_Name gw) data w))] \<and>
             (ok \<longleftrightarrow> fst (k_PatchStatus K (gw_Namespace gw) (gw_Name gw) data w) = None)))"

lemma markFailed_key [simp]:
  "gw_Namespace (markFailed K f gw) = gw_Namespace gw" "gw_Name (markFailed K f gw) = gw_Name gw"
proof -
  have "gw_Namespace (fold (\<lambda>t gw. setCondition K gw (failureCondition gw f t)) ts g) = gw_Namespace g \<and>
      gw_Name (fold (\<lambda>t gw. setCondition K gw (failureCondition gw f t)) ts g) = gw_Name g" for ts g
    by (induction ts arbitrary: g) (simp_all add: setCondition_def)
  from this [of "sf_conditions f" "observe gw"] show
    "gw_Namespace (markFailed K f gw) = gw_Namespace gw" "gw_Name (markFailed K f gw) = gw_Name gw"
    by (simp_all add: markFailed_def observe_def)
qed

lemma recordFailure_reports:
  assumes "condition_lib K" and "recordFailure K gw f s = (r, s')"
  shows "failureReported K gw (sf_reason f) (sf_message f) (sf_conditions f) (st_world s) (new_log s s') (r = None)"
proof -
  let ?p = "patch_payload_of (patch_Add (patch_Add (NewStatusPatch (gw_ResourceVersion gw)) conditionsStatusField
      (Conditions (status_Conditions (gw_Status (markFailed K f gw))))) observedGenerationStatusField
      (ObservedGeneration (gw_Generation gw)))"
  have find: "k_FindStatusCondition K (status_Conditions (gw_Status (markFailed K f gw))) t =
      (if t \<in> set (sf_conditions f) then Some (failureCondition gw f t)
       else k_FindStatusCondition K (status_Conditions (gw_Status gw)) t)" for t
    using markFailed_conditions [OF assms(1), of f gw t] by (simp add: condOf_def)
  have fields: "payload_resourceVersion ?p = gw_ResourceVersion gw"
    "go_get (payload_status ?p) ''conditions''
       = Some (Conditions (status_Conditions (gw_Status (markFailed K f gw))))"
    by (simp_all add: conditionsStatusField_def observedGenerationStatusField_def)
  have log: "case k_MarshalPatch K ?p of
      Inl e \<Rightarrow> new_log s s' = [Event EventWarning (sf_reason f) (sf_message f)] \<and> r \<noteq> None
    | Inr data \<Rightarrow> new_log s s' = [Event EventWarning (sf_reason f) (sf_message f),
          StatusPatched ?p (fst (k_PatchStatus K (gw_Namespace gw) (gw_Name gw) data (st_world s)))] \<and>
        (r = None \<longleftrightarrow> fst (k_PatchStatus K (gw_Namespace gw) (gw_Name gw) data (st_world s)) = None)"
    using assms(2)
    by (auto simp: recordFailure_def Let_def patch_Apply_def call_def new_log_def
        split: sum.splits prod.splits option.splits)
  show ?thesis
    unfolding failureReported_def
    by (rule exI [of _ ?p], rule exI [of _ "status_Conditions (gw_Status (markFailed K f gw))"],
        intro conjI allI fields find [unfolded failureCondition_def] log)
qed

lemma reported_event:
  assumes "failureReported K gw reason msg types w es ok"
  obtains rest where "es = Event EventWarning reason msg # rest"
proof -
  obtain p where "case k_MarshalPatch K p of
      Inl e \<Rightarrow> es = [Event EventWarning reason msg] \<and> \<not> ok
    | Inr data \<Rightarrow>
        es = [Event EventWarning reason msg,
          StatusPatched p (fst (k_PatchStatus K (gw_Namespace gw) (gw_Name gw) data w))] \<and>
        (ok \<longleftrightarrow> fst (k_PatchStatus K (gw_Namespace gw) (gw_Name gw) data w) = None)"
    using assms unfolding failureReported_def by blast
  with that show thesis by (cases "k_MarshalPatch K p") auto
qed

text \<open>The four components, each with its condition and its entry of the status.\<close>

definition componentsOf :: "ComponentStatus \<Rightarrow> (componentCondition \<times> ComponentReplicaStatus option) list" where
  "componentsOf cs = [(apiServerCondition, cs_APIServer cs), (processorCondition, cs_Processor cs),
     (gcCondition, cs_GC cs), (asyncProcessorCondition, cs_AsyncProcessor cs)]"

definition allAvailable :: "ComponentStatus \<Rightarrow> bool" where
  "allAvailable cs = list_all (\<lambda>(cond, st). componentAvailable st) (componentsOf cs)"

text \<open>The gateway \<open>publishStatus\<close> ends with, and what it logs.\<close>

definition publishedGateway :: "'w client \<Rightarrow> LLMBatchGateway \<Rightarrow> ComponentStatus \<Rightarrow> LLMBatchGateway" where
  "publishedGateway K gw cs =
     setCondition K
       (fold (\<lambda>(cond, st) gw. setCondition K gw (availableCondition gw cond st)) (componentsOf cs)
         (observe (gw\<lparr>gw_Status := (gw_Status gw)\<lparr>status_ComponentStatus := Some cs\<rparr>\<rparr>)))
       (readyCondition gw (allAvailable cs))"

definition readyEvent :: "bool \<Rightarrow> effect" where
  "readyEvent ready =
     (if ready then Event EventNormal ''AllComponentsReady'' (MsgText ''All components are fully rolled out'')
      else Event EventWarning ''ComponentsNotReady''
             (MsgText ''One or more components are not fully rolled out''))"

definition readyTransition :: "'w client \<Rightarrow> LLMBatchGateway \<Rightarrow> bool \<Rightarrow> bool" where
  "readyTransition K gw ready \<longleftrightarrow>
     map_option cond_Status (condOf K gw conditionReady) \<noteq> Some (conditionStatus ready)"

definition statusPayload :: "'w client \<Rightarrow> LLMBatchGateway \<Rightarrow> ComponentStatus \<Rightarrow> StatusPatch" where
  "statusPayload K gw cs =
     patch_Add (patch_Add (patch_Add (NewStatusPatch (gw_ResourceVersion gw)) conditionsStatusField
       (Conditions (status_Conditions (gw_Status (publishedGateway K gw cs)))))
       componentStatusField (Components (Some cs)))
       observedGenerationStatusField (ObservedGeneration (gw_Generation gw))"

lemma availableCondition_set [simp]:
  "availableCondition (setCondition K gw c) cond st = availableCondition gw cond st"
  "readyCondition (setCondition K gw c) ready = readyCondition gw ready"
  by (simp_all add: availableCondition_def readyCondition_def split: prod.split)

lemma publish_eq:
  assumes "condition_lib K"
  shows "publishStatus K gw cs s =
    patch_Apply K (publishedGateway K gw cs) (statusPayload K gw cs)
      (if readyTransition K gw (allAvailable cs) then emit (readyEvent (allAvailable cs)) s else s)"
proof -
  let ?gw = "observe (gw\<lparr>gw_Status := (gw_Status gw)\<lparr>status_ComponentStatus := Some cs\<rparr>\<rparr>)"
  have frame: "availableCondition ?gw cond st = availableCondition gw cond st"
    "readyCondition ?gw r = readyCondition gw r" "condOf K ?gw t = condOf K gw t"
    "status_ComponentStatus (gw_Status ?gw) = Some cs" "gw_Generation ?gw = gw_Generation gw"
    "gw_ResourceVersion ?gw = gw_ResourceVersion gw"
    "status_ObservedGeneration (gw_Status ?gw) = gw_Generation gw" for cond st r t
    by (simp_all add: availableCondition_def readyCondition_def observe_def condOf_def split: prod.split)
  show ?thesis
    using assms unfolding publishStatus_def Let_def setComponentAvailableCondition_def case_prod_conv
      condOf_def [symmetric]
    by (auto simp: frame publishedGateway_def statusPayload_def componentsOf_def allAvailable_def
        readyEvent_def readyTransition_def simp del: observe_simps)
qed

lemma published_conditions:
  assumes "condition_lib K"
  shows "condOf K (publishedGateway K gw cs) conditionReady = Some (readyCondition gw (allAvailable cs))"
    and "(cond, st) \<in> set (componentsOf cs) \<Longrightarrow>
      condOf K (publishedGateway K gw cs) (cc_conditionType cond) = Some (availableCondition gw cond st)"
    and "t \<notin> set allConditionTypes \<Longrightarrow> condOf K (publishedGateway K gw cs) t = condOf K gw t"
proof -
  have frame: "availableCondition (observe (gw\<lparr>gw_Status := x\<rparr>)) cond st = availableCondition gw cond st"
    "readyCondition (observe (gw\<lparr>gw_Status := x\<rparr>)) r = readyCondition gw r"
    "condOf K (gw\<lparr>gw_Status := (gw_Status gw)\<lparr>status_ComponentStatus := y\<rparr>\<rparr>) t = condOf K gw t"
    for cond st r t x y
    by (simp_all add: availableCondition_def readyCondition_def observe_def condOf_def split: prod.split)
  show "condOf K (publishedGateway K gw cs) conditionReady = Some (readyCondition gw (allAvailable cs))"
    using assms by (simp add: publishedGateway_def componentsOf_def frame)
  show "condOf K (publishedGateway K gw cs) (cc_conditionType cond) = Some (availableCondition gw cond st)"
    if "(cond, st) \<in> set (componentsOf cs)"
    using assms that by (auto simp: publishedGateway_def componentsOf_def frame
        conditions_differ [THEN not_sym])
  show "condOf K (publishedGateway K gw cs) t = condOf K gw t" if "t \<notin> set allConditionTypes"
    using assms that by (auto simp: publishedGateway_def componentsOf_def allConditionTypes_def frame)
qed

lemma publish_log:
  assumes "condition_lib K" and "publishStatus K gw cs s = (r, s')"
  shows "st_filter s' = st_filter s \<and>
    (\<exists>ps. new_log s s' =
        (if readyTransition K gw (allAvailable cs) then [readyEvent (allAvailable cs)] else []) @ ps \<and>
      (ps = [] \<and> r \<noteq> None \<or>
       (\<exists>a. ps = [StatusPatched (patch_payload_of (statusPayload K gw cs)) a] \<and> (r = None \<longleftrightarrow> a = None))))"
proof -
  let ?s = "if readyTransition K gw (allAvailable cs) then emit (readyEvent (allAvailable cs)) s else s"
  from assms have ap: "patch_Apply K (publishedGateway K gw cs) (statusPayload K gw cs) ?s = (r, s')"
    by (simp only: publish_eq)
  show ?thesis
  proof (intro conjI exI [of _ "drop (length (st_log ?s)) (st_log s')"])
    show "st_filter s' = st_filter s"
      using patch_Apply_log [OF ap] by (simp split: if_splits)
  qed (use patch_Apply_log [OF ap] in \<open>auto simp: new_log_def\<close>)
qed

text \<open>The lists \<open>updateStatus\<close> reads, and the first of their errors.\<close>

definition workloads ::
  "'w client \<Rightarrow> LLMBatchGateway \<Rightarrow> 'w \<Rightarrow> api_error + Deployment list \<times> StatefulSet list" where
  "workloads K gw w =
     (case k_ListDeployments K (gw_Namespace gw) [(labelKeyInstance, gw_Name gw)] w of (ds, w) \<Rightarrow>
      case ds of Inl e \<Rightarrow> Inl e
      | Inr ds \<Rightarrow>
          (case fst (k_ListStatefulSets K (gw_Namespace gw) [(labelKeyInstance, gw_Name gw)] w) of
             Inl e \<Rightarrow> Inl e | Inr sss \<Rightarrow> Inr (ds, sss)))"

lemma updateStatus_cases:
  "updateStatus K gw s = (r, s') \<Longrightarrow>
   (case workloads K gw (st_world s) of
      Inl e \<Rightarrow> (\<exists>ctx. r = Some (Wrap ctx [ErrApi e])) \<and> st_log s' = st_log s \<and> st_filter s' = st_filter s
    | Inr (ds, sss) \<Rightarrow> \<exists>t. st_log t = st_log s \<and> st_filter t = st_filter s \<and>
        publishStatus K gw (collectStatus gw ds sss) t = (r, s'))"
  unfolding updateStatus_def workloads_def call_def
  by (auto split: prod.splits sum.splits intro: exI [of _ "s\<lparr>st_world := w\<rparr>" for w])

text \<open>
  What the workloads of a gateway report: the component label and the status of every one the
  gateway owns, Deployments first.
\<close>

definition workloadReport ::
  "LLMBatchGateway \<Rightarrow> OwnerReference list \<Rightarrow> string smap \<Rightarrow> int32 \<times> int32 \<Rightarrow>
   (string \<times> ComponentReplicaStatus) list" where
  "workloadReport gw refs labels counts =
     (case go_get labels labelKeyComponent of
        None \<Rightarrow> []
      | Some c \<Rightarrow> if isOwnedBy refs gw
          then [(c, \<lparr>crs_Replicas = fst counts, crs_ReadyReplicas = snd counts\<rparr>)] else [])"

definition reports ::
  "LLMBatchGateway \<Rightarrow> Deployment list \<Rightarrow> StatefulSet list \<Rightarrow> (string \<times> ComponentReplicaStatus) list" where
  "reports gw ds sss =
     concat (map (\<lambda>d. workloadReport gw (d_OwnerReferences d) (d_Labels d) (deploymentReplicaStatus d)) ds) @
     concat (map (\<lambda>ss. workloadReport gw (ss_OwnerReferences ss) (ss_Labels ss) (statefulSetReplicaStatus ss)) sss)"

definition setReport :: "string \<times> ComponentReplicaStatus \<Rightarrow> ComponentStatus \<Rightarrow> ComponentStatus" where
  "setReport x cs = setComponentStatus cs (fst x) (snd x)"

lemma add_reports:
  "addDeployment gw d cs = fold setReport
     (workloadReport gw (d_OwnerReferences d) (d_Labels d) (deploymentReplicaStatus d)) cs"
  "addStatefulSet gw ss cs = fold setReport
     (workloadReport gw (ss_OwnerReferences ss) (ss_Labels ss) (statefulSetReplicaStatus ss)) cs"
  by (simp_all add: addDeployment_def addStatefulSet_def workloadReport_def setReport_def
      split: option.split prod.split)

lemma fold_concat_map: "fold (\<lambda>x. fold f (g x)) xs y = fold f (concat (map g xs)) y"
  by (induction xs arbitrary: y) simp_all

lemma collect_reports: "collectStatus gw ds sss = fold setReport (reports gw ds sss) emptyComponentStatus"
  by (simp add: collectStatus_def add_reports [abs_def] fold_concat_map reports_def)

lemma components_differ [simp]:
  "componentAPIServer \<noteq> componentProcessor" "componentAPIServer \<noteq> componentGC"
  "componentAPIServer \<noteq> componentAsyncProcessor" "componentProcessor \<noteq> componentGC"
  "componentProcessor \<noteq> componentAsyncProcessor" "componentGC \<noteq> componentAsyncProcessor"
  by (simp_all add: componentAPIServer_def componentProcessor_def componentGC_def
      componentAsyncProcessor_def)

lemma fold_setReport:
  "cs_APIServer (fold setReport rs emptyComponentStatus) = map_of (rev rs) componentAPIServer \<and>
   cs_Processor (fold setReport rs emptyComponentStatus) = map_of (rev rs) componentProcessor \<and>
   cs_GC (fold setReport rs emptyComponentStatus) = map_of (rev rs) componentGC \<and>
   cs_AsyncProcessor (fold setReport rs emptyComponentStatus) = map_of (rev rs) componentAsyncProcessor"
proof (induction rs rule: rev_induct)
  case Nil
  then show ?case by (simp add: emptyComponentStatus_def)
next
  case (snoc x rs)
  then show ?case
    by (cases x) (auto simp: setReport_def setComponentStatus_def components_differ [THEN not_sym])
qed

text \<open>
  C28: the component status holds, for each of the four components, what the last owned
  workload with that component label reports, StatefulSets after Deployments, and nothing when
  there is none; a workload that is not the gateway's, or has another label, counts nowhere.
\<close>

theorem component_status_last_report:
  "cs_APIServer (collectStatus gw ds sss) = map_of (rev (reports gw ds sss)) componentAPIServer \<and>
   cs_Processor (collectStatus gw ds sss) = map_of (rev (reports gw ds sss)) componentProcessor \<and>
   cs_GC (collectStatus gw ds sss) = map_of (rev (reports gw ds sss)) componentGC \<and>
   cs_AsyncProcessor (collectStatus gw ds sss) = map_of (rev (reports gw ds sss)) componentAsyncProcessor"
  by (simp add: collect_reports fold_setReport)

text \<open>
  C11: under the contract of the condition functions, a status patch of \<open>updateStatus\<close> carries
  the resource version that was read, the observed generation and the collected component
  status; its conditions say of each component whether it is available and, as Ready, whether
  all four are, and leave every condition of other kinds as it was.
\<close>

theorem ready_iff_all_components_available:
  assumes "condition_lib K" and "workloads K gw (st_world s) = Inr (ds, sss)"
    and "StatusPatched p a \<in> set (new_log s (snd (updateStatus K gw s)))"
  shows "payload_resourceVersion p = gw_ResourceVersion gw \<and>
    go_get (payload_status p) observedGenerationStatusField
      = Some (ObservedGeneration (gw_Generation gw)) \<and>
    go_get (payload_status p) componentStatusField
      = Some (Components (Some (collectStatus gw ds sss))) \<and>
    (\<exists>conds. go_get (payload_status p) conditionsStatusField = Some (Conditions conds) \<and>
       map_option cond_Status (k_FindStatusCondition K conds conditionReady)
         = Some (conditionStatus (allAvailable (collectStatus gw ds sss))) \<and>
       (\<forall>(cond, st) \<in> set (componentsOf (collectStatus gw ds sss)).
          k_FindStatusCondition K conds (cc_conditionType cond) = Some (availableCondition gw cond st)) \<and>
       (\<forall>t. t \<notin> set allConditionTypes \<longrightarrow>
          k_FindStatusCondition K conds t
            = k_FindStatusCondition K (status_Conditions (gw_Status gw)) t))"
proof -
  obtain r s' where eq: "updateStatus K gw s = (r, s')" by fastforce
  then obtain t where t: "st_log t = st_log s"
    and pub: "publishStatus K gw (collectStatus gw ds sss) t = (r, s')"
    using updateStatus_cases [OF eq] assms(2) by auto
  have "new_log t s' = new_log s s'" by (simp add: new_log_def t)
  with publish_log [OF assms(1) pub] assms(3) eq
  have "p = patch_payload_of (statusPayload K gw (collectStatus gw ds sss))"
    by (auto simp: readyEvent_def split: if_splits)
  then show ?thesis
    using published_conditions [OF assms(1)]
    by (auto simp: statusPayload_def condOf_def conditionsStatusField_def
        observedGenerationStatusField_def componentStatusField_def)
qed

definition isEvent :: "effect \<Rightarrow> bool" where
  "isEvent e = (case e of Event _ _ _ \<Rightarrow> True | _ \<Rightarrow> False)"

text \<open>
  C30: \<open>updateStatus\<close> emits one event when the Ready condition changes its status or appears,
  of normal type when it becomes true, and none when the status stays; when one of the lists
  fails it reports that error, and neither patches nor emits anything.
\<close>

theorem ready_event_on_transition:
  assumes "condition_lib K"
  shows "case workloads K gw (st_world s) of
      Inl e \<Rightarrow> new_log s (snd (updateStatus K gw s)) = [] \<and>
        (\<exists>ctx. fst (updateStatus K gw s) = Some (Wrap ctx [ErrApi e]))
    | Inr (ds, sss) \<Rightarrow>
        (let ready = allAvailable (collectStatus gw ds sss)
         in filter isEvent (new_log s (snd (updateStatus K gw s)))
              = (if readyTransition K gw ready then [readyEvent ready] else []))"
proof -
  obtain r s' where eq: "updateStatus K gw s = (r, s')" by fastforce
  show ?thesis
  proof (cases "workloads K gw (st_world s)")
    case (Inl e)
    with updateStatus_cases [OF eq] eq show ?thesis by (auto simp: new_log_def)
  next
    case (Inr x)
    obtain ds sss where x: "x = (ds, sss)" by fastforce
    then obtain t where t: "st_log t = st_log s"
      and pub: "publishStatus K gw (collectStatus gw ds sss) t = (r, s')"
      using updateStatus_cases [OF eq] Inr by auto
    have "new_log t s' = new_log s s'" by (simp add: new_log_def t)
    with publish_log [OF assms pub] eq Inr x show ?thesis
      by (auto simp: Let_def isEvent_def readyEvent_def)
  qed
qed

text \<open>
  C32: a recorded failure emits exactly one warning event with its reason and message, and its
  patch, pinned to the resource version that was read, sets exactly the listed conditions
  to False with that reason and message, keeps the others and does not touch the component
  status; the call reports an error unless the patch was accepted.
\<close>

theorem failure_marks_conditions:
  assumes "condition_lib K" and "recordFailure K gw f s = (r, s')"
  shows "filter isEvent (new_log s s') = [Event EventWarning (sf_reason f) (sf_message f)] \<and>
    (r = None \<longrightarrow> (\<exists>p. StatusPatched p None \<in> set (new_log s s'))) \<and>
    (\<forall>p a. StatusPatched p a \<in> set (new_log s s') \<longrightarrow>
       payload_resourceVersion p = gw_ResourceVersion gw \<and>
       go_get (payload_status p) componentStatusField = None \<and>
       (\<exists>conds. go_get (payload_status p) conditionsStatusField = Some (Conditions conds) \<and>
          (\<forall>t. k_FindStatusCondition K conds t =
             (if t \<in> set (sf_conditions f) then Some (failureCondition gw f t)
              else k_FindStatusCondition K (status_Conditions (gw_Status gw)) t))))"
  using recordFailure_log [OF assms(2)] markFailed_conditions [OF assms(1), of f gw]
  by (auto simp: condOf_def isEvent_def)

section \<open>Witnesses\<close>

lemma setCond_find: "findCond (setCond cs c) t = (if t = cond_Type c then Some c else findCond cs t)"
  by (induction cs c rule: setCond.induct) (auto simp: findCond_def)

lemma condition_lib_cluster [simp]: "condition_lib clusterClient"
  by (simp add: condition_lib_def clusterClient_def setCond_find)

definition readyDeployment :: "string \<Rightarrow> Deployment" where
  "readyDeployment component = \<lparr>
     d_Labels = [(labelKeyInstance, ''gw''), (labelKeyComponent, component)],
     d_OwnerReferences = [controllerRef redisGateway], d_Generation = 2, d_SpecReplicas = Some 2,
     d_ObservedGeneration = 2, d_UpdatedReplicas = 2, d_StatusReplicas = 2, d_ReadyReplicas = 2\<rparr>"

definition readyState :: "cluster st" where
  "readyState = startState ((sampleCluster [redisGateway] [] [])\<lparr>cl_deployments :=
     map readyDeployment [componentAPIServer, componentProcessor, componentGC, componentAsyncProcessor]\<rparr>)"

lemma ready_workloads:
  "workloads clusterClient redisGateway (st_world readyState) = Inr (map readyDeployment
     [componentAPIServer, componentProcessor, componentGC, componentAsyncProcessor], [])"
  by (simp add: workloads_def clusterClient_def readyState_def sampleCluster_def selects_def
      readyDeployment_def labelKeyInstance_def labelKeyComponent_def go_get_def)

lemma readyDeployment_simps [simp]:
  "isOwnedBy (d_OwnerReferences (readyDeployment c)) redisGateway"
  "go_get (d_Labels (readyDeployment c)) labelKeyComponent = Some c"
  "deploymentReplicaStatus (readyDeployment c) = (2, 2)"
  by (simp_all add: readyDeployment_def isOwnedBy_def controllerRef_def go_get_def
      labelKeyInstance_def labelKeyComponent_def deploymentReplicaStatus_def
      reportedReadyReplicas_def deploymentRolledOut_def desiredReplicas_def Let_def)

lemma ready_all:
  "allAvailable (collectStatus redisGateway (map readyDeployment
     [componentAPIServer, componentProcessor, componentGC, componentAsyncProcessor]) [])"
  by (simp add: allAvailable_def componentsOf_def collect_reports fold_setReport reports_def
      workloadReport_def componentAvailable_def replicasReady_def setReport_def setComponentStatus_def
      components_differ [THEN not_sym])

lemma ready_update:
  "\<exists>p. StatusPatched p None \<in> set (new_log readyState
     (snd (updateStatus clusterClient redisGateway readyState)))"
proof -
  obtain r s' where eq: "updateStatus clusterClient redisGateway readyState = (r, s')" by fastforce
  then obtain t where t: "st_log t = st_log readyState"
    and pub: "publishStatus clusterClient redisGateway (collectStatus redisGateway (map readyDeployment
     [componentAPIServer, componentProcessor, componentGC, componentAsyncProcessor]) []) t = (r, s')"
    using updateStatus_cases [OF eq] by (auto simp: ready_workloads)
  have "r = None"
    using pub unfolding publish_eq [OF condition_lib_cluster]
    by (auto simp: patch_Apply_def call_def clusterClient_def)
  moreover have "new_log t s' = new_log readyState s'" by (simp add: new_log_def t)
  ultimately show ?thesis
    using publish_log [OF condition_lib_cluster pub] eq by (auto split: if_splits)
qed

theorem ready_iff_all_components_available_witness:
  "\<exists>p conds. StatusPatched p None \<in> set (new_log readyState
       (snd (updateStatus clusterClient redisGateway readyState))) \<and>
     go_get (payload_status p) conditionsStatusField = Some (Conditions conds) \<and>
     map_option cond_Status (findCond conds conditionReady) = Some ConditionTrue"
proof -
  obtain p where p: "StatusPatched p None \<in> set (new_log readyState
      (snd (updateStatus clusterClient redisGateway readyState)))"
    using ready_update by blast
  have find: "k_FindStatusCondition clusterClient = findCond" by (simp add: clusterClient_def)
  show ?thesis
    using ready_iff_all_components_available [OF condition_lib_cluster ready_workloads p] p ready_all
    by (auto simp: find conditionStatus_def)
qed

theorem ready_event_on_transition_witness:
  "filter isEvent (new_log readyState (snd (updateStatus clusterClient redisGateway readyState)))
     = [readyEvent True]"
proof -
  have "k_FindStatusCondition clusterClient [] conditionReady = None"
    by (simp add: clusterClient_def findCond_def)
  then have "readyTransition clusterClient redisGateway True"
    by (simp add: readyTransition_def condOf_def redisGateway_def sampleGateway_def)
  with ready_event_on_transition [OF condition_lib_cluster, where gw = redisGateway and s = readyState] ready_all
  show ?thesis unfolding ready_workloads by (simp add: Let_def)
qed

definition sampleFailure :: statusFailure where
  "sampleFailure = \<lparr>sf_reason = ''ValidationFailed'', sf_message = MsgText ''bad'',
     sf_conditions = allConditionTypes\<rparr>"

theorem failure_marks_conditions_witness:
  "filter isEvent (new_log readyState
     (snd (recordFailure clusterClient redisGateway sampleFailure readyState)))
   = [Event EventWarning ''ValidationFailed'' (MsgText ''bad'')]"
proof -
  obtain r s' where "recordFailure clusterClient redisGateway sampleFailure readyState = (r, s')"
    by fastforce
  with failure_marks_conditions [OF condition_lib_cluster this] show ?thesis
    by (simp add: sampleFailure_def)
qed

end
