(* ===== verification/Orphans.thy ===== *)
theory Orphans
  imports Status
begin

text \<open>
  \<open>deleteOrphanedResources\<close> and the kinds it looks at: \<open>llmbatchgateway_controller.go\<close>
  lines 88-109 and 334-396. The loops continue past errors and return them joined.
\<close>

record GroupVersionKind =
  gvk_Group :: string
  gvk_Version :: string
  gvk_Kind :: string

definition managedGVKs :: "GroupVersionKind list" where
  "managedGVKs = map (\<lambda>(g, v, k). \<lparr>gvk_Group = g, gvk_Version = v, gvk_Kind = k\<rparr>) [
     (''apps'', ''v1'', ''Deployment''),
     (''apps'', ''v1'', ''StatefulSet''),
     ('''', ''v1'', ''Service''),
     ('''', ''v1'', ''ConfigMap''),
     ('''', ''v1'', ''ServiceAccount''),
     (''rbac.authorization.k8s.io'', ''v1'', ''Role''),
     (''rbac.authorization.k8s.io'', ''v1'', ''RoleBinding''),
     (''cert-manager.io'', ''v1'', ''Certificate''),
     (''gateway.networking.k8s.io'', ''v1'', ''HTTPRoute''),
     (''monitoring.coreos.com'', ''v1'', ''ServiceMonitor''),
     (''monitoring.coreos.com'', ''v1'', ''PodMonitor''),
     (''monitoring.coreos.com'', ''v1'', ''PrometheusRule'')]"

record resourceKey =
  rk_Group :: string
  rk_Kind :: string
  rk_Name :: string

definition desiredKeys :: "Unstructured list \<Rightarrow> (resourceKey, unit) gomap" where
  "desiredKeys renderedObjects =
     fold (\<lambda>obj m. go_set m \<lparr>rk_Group = u_Group obj, rk_Kind = u_Kind obj, rk_Name = u_Name obj\<rparr> ())
       renderedObjects []"

text \<open>The inner loop, over the objects of one kind; \<open>errs\<close> is the accumulator.\<close>

fun deleteItems ::
  "'w client \<Rightarrow> LLMBatchGateway \<Rightarrow> (resourceKey, unit) gomap \<Rightarrow> GroupVersionKind \<Rightarrow>
   Unstructured list \<Rightarrow> goerr list \<Rightarrow> 'w st \<Rightarrow> goerr list \<times> 'w st" where
  "deleteItems K gw desired gvk [] errs s = (errs, s)"
| "deleteItems K gw desired gvk (item # items) errs s =
     (if \<not> isControllerOwnedBy (u_OwnerReferences item) gw
      then deleteItems K gw desired gvk items errs s
      else if go_has desired
           \<lparr>rk_Group = gvk_Group gvk, rk_Kind = gvk_Kind gvk, rk_Name = u_Name item\<rparr>
      then deleteItems K gw desired gvk items errs s
      else case call (k_Delete K item) s of (r, s) \<Rightarrow>
             (let s = emit (Deleted item r) s
              in case r of
                   None \<Rightarrow> deleteItems K gw desired gvk items errs s
                 | Some e \<Rightarrow>
                     (if isNotFound (ErrApi e)
                      then deleteItems K gw desired gvk items errs s
                      else deleteItems K gw desired gvk items
                             (errs @ [Wrap [''deleting'', gvk_Kind gvk, u_Name item] [ErrApi e]]) s)))"

fun deleteKinds ::
  "'w client \<Rightarrow> LLMBatchGateway \<Rightarrow> (resourceKey, unit) gomap \<Rightarrow> GroupVersionKind list \<Rightarrow>
   goerr list \<Rightarrow> 'w st \<Rightarrow> goerr list \<times> 'w st" where
  "deleteKinds K gw desired [] errs s = (errs, s)"
| "deleteKinds K gw desired (gvk # gvks) errs s =
     (case call (k_ListObjects K (gvk_Group gvk) (gvk_Version gvk) (gvk_Kind gvk @ ''List'')
                   (gw_Namespace gw)) s of
        (Inl e, s) \<Rightarrow>
          (if isNotFound (ErrApi e) \<or> isNoMatch (ErrApi e)
           then deleteKinds K gw desired gvks errs s
           else deleteKinds K gw desired gvks (errs @ [Wrap [''listing'', gvk_Kind gvk] [ErrApi e]]) s)
      | (Inr items, s) \<Rightarrow>
          (case deleteItems K gw desired gvk items errs s of (errs, s) \<Rightarrow>
             deleteKinds K gw desired gvks errs s))"

text \<open>\<open>errors.Join\<close>: nil for no errors.\<close>

definition errorsJoin :: "goerr list \<Rightarrow> goerr option" where
  "errorsJoin errs = (if errs = [] then None else Some (Wrap [] errs))"

definition deleteOrphanedResources ::
  "'w client \<Rightarrow> LLMBatchGateway \<Rightarrow> Unstructured list \<Rightarrow> 'w st \<Rightarrow> goerr option \<times> 'w st" where
  "deleteOrphanedResources K gw renderedObjects s =
     (case deleteKinds K gw (desiredKeys renderedObjects) managedGVKs [] s of
        (errs, s) \<Rightarrow> (errorsJoin errs, s))"

section \<open>Which objects are deleted\<close>

definition hasKey :: "Unstructured list \<Rightarrow> string \<Rightarrow> string \<Rightarrow> string \<Rightarrow> bool" where
  "hasKey objs grp kind name \<longleftrightarrow>
     (\<exists>obj \<in> set objs. u_Group obj = grp \<and> u_Kind obj = kind \<and> u_Name obj = name)"

lemma desiredKeys_iff:
  "go_has (desiredKeys objs) \<lparr>rk_Group = g, rk_Kind = k, rk_Name = n\<rparr> \<longleftrightarrow> hasKey objs g k n"
  by (auto simp: desiredKeys_def go_has_fold_set hasKey_def image_iff)

text \<open>An item of the list of a kind that the loop deletes.\<close>

definition orphan :: "LLMBatchGateway \<Rightarrow> Unstructured list \<Rightarrow> GroupVersionKind \<Rightarrow> Unstructured \<Rightarrow> bool" where
  "orphan gw objs gvk item \<longleftrightarrow> isControllerOwnedBy (u_OwnerReferences item) gw \<and>
     \<not> hasKey objs (gvk_Group gvk) (gvk_Kind gvk) (u_Name item)"

text \<open>The deletions of the inner loop are the orphans of the list, in its order.\<close>

lemma deleteItems_log:
  assumes "deleteItems K gw (desiredKeys objs) gvk items errs s = (errs', s')"
  shows "st_filter s' = st_filter s \<and>
    (\<exists>rs. length rs = length (filter (orphan gw objs gvk) items) \<and>
      st_log s' = st_log s @ map2 Deleted (filter (orphan gw objs gvk) items) rs \<and>
      (errs' = errs \<longleftrightarrow> set rs \<subseteq> {None, Some NotFound}) \<and>
      (\<exists>more. errs' = errs @ more))"
  using assms
proof (induction items arbitrary: errs s)
  case Nil
  then show ?case by auto
next
  case (Cons item items)
  show ?case
  proof (cases "orphan gw objs gvk item")
    case False
    then have "deleteItems K gw (desiredKeys objs) gvk items errs s = (errs', s')"
      using Cons.prems by (auto simp: orphan_def desiredKeys_iff split: if_splits)
    from Cons.IH [OF this] False show ?thesis by simp
  next
    case True
    obtain r t where c: "call (k_Delete K item) s = (r, t)" by fastforce
    let ?t = "emit (Deleted item r) t"
    let ?errs = "errs @ (if r \<in> {None, Some NotFound} then []
        else [Wrap [''deleting'', gvk_Kind gvk, u_Name item] [ErrApi (the r)]])"
    have "deleteItems K gw (desiredKeys objs) gvk items ?errs ?t = (errs', s')"
      using Cons.prems True c
      by (auto simp: orphan_def desiredKeys_iff Let_def split: option.splits if_splits)
    from Cons.IH [OF this] obtain rs more where
      "length rs = length (filter (orphan gw objs gvk) items)"
      "st_log s' = st_log ?t @ map2 Deleted (filter (orphan gw objs gvk) items) rs"
      "errs' = ?errs \<longleftrightarrow> set rs \<subseteq> {None, Some NotFound}" "errs' = ?errs @ more"
      "st_filter s' = st_filter ?t" by blast
    with True call_eq [OF c] show ?thesis
      by (intro conjI exI [of _ "r # rs"]) (auto split: if_splits)
  qed
qed

text \<open>The deletions of a log, and the answers of the lists the outer loop makes.\<close>

fun deletion :: "effect \<Rightarrow> (Unstructured \<times> api_error option) list" where
  "deletion (Deleted item r) = [(item, r)]"
| "deletion _ = []"

definition deletions :: "effect list \<Rightarrow> (Unstructured \<times> api_error option) list" where
  "deletions es = concat (map deletion es)"

fun listAnswers ::
  "'w client \<Rightarrow> LLMBatchGateway \<Rightarrow> Unstructured list \<Rightarrow> GroupVersionKind list \<Rightarrow> 'w st \<Rightarrow>
   (GroupVersionKind \<times> (api_error + Unstructured list)) list" where
  "listAnswers K gw objs [] s = []"
| "listAnswers K gw objs (gvk # gvks) s =
     (case call (k_ListObjects K (gvk_Group gvk) (gvk_Version gvk) (gvk_Kind gvk @ ''List'')
                   (gw_Namespace gw)) s of
        (r, t) \<Rightarrow> (gvk, r) # listAnswers K gw objs gvks
          (case r of Inl _ \<Rightarrow> t
           | Inr items \<Rightarrow> snd (deleteItems K gw (desiredKeys objs) gvk items [] t)))"

fun orphansIn :: "LLMBatchGateway \<Rightarrow> Unstructured list \<Rightarrow>
    GroupVersionKind \<times> (api_error + Unstructured list) \<Rightarrow> Unstructured list" where
  "orphansIn gw objs (gvk, Inl e) = []"
| "orphansIn gw objs (gvk, Inr items) = filter (orphan gw objs gvk) items"

fun listFailed :: "GroupVersionKind \<times> (api_error + Unstructured list) \<Rightarrow> bool" where
  "listFailed (gvk, Inl e) = (e \<notin> {NotFound, NoMatch})"
| "listFailed (gvk, Inr items) = False"

lemma deletions_append [simp]: "deletions (xs @ ys) = deletions xs @ deletions ys"
  by (simp add: deletions_def)

lemma deletions_map2: "length xs = length rs \<Longrightarrow> deletions (map2 Deleted xs rs) = zip xs rs"
  by (induction xs rs rule: list_induct2) (simp_all add: deletions_def)

lemma all_deletions [simp]: "list_all (\<lambda>e. deletion e \<noteq> []) (map2 Deleted xs rs)"
  by (auto simp: list_all_iff set_zip)

text \<open>The accumulator does not change what the inner loop does.\<close>

lemma deleteItems_acc:
  "snd (deleteItems K gw desired gvk items errs s) = snd (deleteItems K gw desired gvk items [] s)"
proof (induction items arbitrary: errs s)
  case Nil
  then show ?case by simp
next
  case (Cons item items)
  have "snd (deleteItems K gw desired gvk items e1 t) = snd (deleteItems K gw desired gvk items e2 t)"
    for e1 e2 t using Cons.IH by metis
  then show ?case
    by (auto simp: Let_def split: prod.split option.split)
qed

lemma deleteItems_deletions:
  assumes "deleteItems K gw (desiredKeys objs) gvk items errs s = (errs', s')"
  shows "\<exists>es. st_log s' = st_log s @ es \<and>
    list_all (\<lambda>e. deletion e \<noteq> []) es \<and>
    map fst (deletions es) = filter (orphan gw objs gvk) items \<and>
    (errs' = errs \<longleftrightarrow> set (map snd (deletions es)) \<subseteq> {None, Some NotFound}) \<and>
    (\<exists>more. errs' = errs @ more)"
proof -
  obtain rs more where rs: "length rs = length (filter (orphan gw objs gvk) items)"
    "st_log s' = st_log s @ map2 Deleted (filter (orphan gw objs gvk) items) rs"
    "errs' = errs \<longleftrightarrow> set rs \<subseteq> {None, Some NotFound}" "errs' = errs @ more"
    using deleteItems_log [OF assms] by blast
  show ?thesis
    by (rule exI [of _ "map2 Deleted (filter (orphan gw objs gvk) items) rs"])
      (use rs in \<open>simp add: deletions_map2 del: set_map\<close>)
qed

lemma deleteKinds_log:
  assumes "deleteKinds K gw (desiredKeys objs) gvks errs s = (errs', s')"
  shows "st_filter s' = st_filter s \<and>
    (\<exists>es. st_log s' = st_log s @ es \<and>
      list_all (\<lambda>e. deletion e \<noteq> []) es \<and>
      map fst (deletions es) = concat (map (orphansIn gw objs) (listAnswers K gw objs gvks s)) \<and>
      (errs' = errs \<longleftrightarrow> set (map snd (deletions es)) \<subseteq> {None, Some NotFound} \<and>
         (\<forall>x \<in> set (listAnswers K gw objs gvks s). \<not> listFailed x)) \<and>
      (\<exists>more. errs' = errs @ more))"
  using assms
proof (induction gvks arbitrary: errs s)
  case Nil
  then show ?case by (auto simp: deletions_def)
next
  case (Cons gvk gvks)
  obtain r t where c: "call (k_ListObjects K (gvk_Group gvk) (gvk_Version gvk)
      (gvk_Kind gvk @ ''List'') (gw_Namespace gw)) s = (r, t)" by fastforce
  show ?case
  proof (cases r)
    case (Inl e)
    let ?errs = "errs @ (if e \<in> {NotFound, NoMatch} then [] else [Wrap [''listing'', gvk_Kind gvk] [ErrApi e]])"
    have "deleteKinds K gw (desiredKeys objs) gvks ?errs t = (errs', s')"
      using Cons.prems c Inl by (auto split: if_splits)
    from Cons.IH [OF this] call_eq [OF c] c Inl show ?thesis
      by (auto split: if_splits)
  next
    case (Inr items)
    obtain errs1 t1 where d: "deleteItems K gw (desiredKeys objs) gvk items errs t = (errs1, t1)"
      by fastforce
    have rest: "deleteKinds K gw (desiredKeys objs) gvks errs1 t1 = (errs', s')"
      using Cons.prems c d Inr by simp
    have t1: "snd (deleteItems K gw (desiredKeys objs) gvk items [] t) = t1"
      using deleteItems_acc [of K gw "desiredKeys objs" gvk items errs t] d by simp
    obtain es1 m1 where es1: "st_log t1 = st_log t @ es1" "list_all (\<lambda>e. deletion e \<noteq> []) es1"
      "map fst (deletions es1) = filter (orphan gw objs gvk) items"
      "errs1 = errs \<longleftrightarrow> set (map snd (deletions es1)) \<subseteq> {None, Some NotFound}" "errs1 = errs @ m1"
      using deleteItems_deletions [OF d] by blast
    obtain es2 m2 where es2: "st_log s' = st_log t1 @ es2" "list_all (\<lambda>e. deletion e \<noteq> []) es2"
      "map fst (deletions es2) = concat (map (orphansIn gw objs) (listAnswers K gw objs gvks t1))"
      "errs' = errs1 \<longleftrightarrow> set (map snd (deletions es2)) \<subseteq> {None, Some NotFound} \<and>
         (\<forall>x \<in> set (listAnswers K gw objs gvks t1). \<not> listFailed x)" "errs' = errs1 @ m2"
      "st_filter s' = st_filter t1"
      using Cons.IH [OF rest] by blast
    have ans: "listAnswers K gw objs (gvk # gvks) s = (gvk, Inr items) # listAnswers K gw objs gvks t1"
      using c Inr t1 by simp
    have "errs' = errs \<longleftrightarrow> errs1 = errs \<and> errs' = errs1"
      using es1(5) es2(5) by auto
    then show ?thesis
      using es1 es2 call_eq [OF c] deleteItems_log [OF d] unfolding ans
      by (intro conjI exI [of _ "es1 @ es2"]) auto
  qed
qed

lemma deleteOrphaned_log:
  assumes "deleteOrphanedResources K gw objs s = (r, s')"
  shows "st_filter s' = st_filter s \<and>
    list_all (\<lambda>e. deletion e \<noteq> []) (new_log s s') \<and> logs (\<lambda>e. deletion e \<noteq> []) s s' \<and>
    map fst (deletions (new_log s s'))
      = concat (map (orphansIn gw objs) (listAnswers K gw objs managedGVKs s)) \<and>
    (r = None \<longleftrightarrow> set (map snd (deletions (new_log s s'))) \<subseteq> {None, Some NotFound} \<and>
       (\<forall>x \<in> set (listAnswers K gw objs managedGVKs s). \<not> listFailed x))"
proof -
  obtain errs where d: "deleteKinds K gw (desiredKeys objs) managedGVKs [] s = (errs, s')"
    and r: "r = errorsJoin errs"
    using assms by (auto simp: deleteOrphanedResources_def split: prod.splits)
  from deleteKinds_log [OF d] show ?thesis
    by (auto simp: r errorsJoin_def logs_def simp del: set_map)
qed

lemma listAnswers_kinds: "(gvk, r) \<in> set (listAnswers K gw objs gvks s) \<Longrightarrow>
    gvk \<in> set gvks \<and> (\<exists>w. r = fst (k_ListObjects K (gvk_Group gvk) (gvk_Version gvk)
      (gvk_Kind gvk @ ''List'') (gw_Namespace gw) w))"
proof (induction gvks arbitrary: s)
  case Nil
  then show ?case by simp
next
  case (Cons g gvks)
  then show ?case by (auto simp: call_def split: prod.splits) (metis fst_conv)
qed

lemma orphansIn_iff:
  "item \<in> set (orphansIn gw objs x) \<longleftrightarrow>
     (\<exists>gvk items. x = (gvk, Inr items) \<and> item \<in> set items \<and> orphan gw objs gvk item)"
  by (cases "(gw, objs, x)" rule: orphansIn.cases) auto

text \<open>A list of a kind in a namespace answers with objects of that kind and namespace.\<close>

definition lists_what_is_asked :: "'w client \<Rightarrow> bool" where
  "lists_what_is_asked K \<longleftrightarrow>
     (\<forall>g v k ns w items. fst (k_ListObjects K g v (k @ ''List'') ns w) = Inr items \<longrightarrow>
        list_all (\<lambda>item. u_Group item = g \<and> u_Kind item = k \<and> u_Namespace item = ns) items)"

lemma deletion_safe:
  assumes "lists_what_is_asked K"
    and "Deleted item a \<in> set (new_log s (snd (deleteOrphanedResources K gw objs s)))"
  shows "u_Namespace item = gw_Namespace gw \<and> isControllerOwnedBy (u_OwnerReferences item) gw \<and>
    (u_Group item, u_Kind item) \<in> set (map (\<lambda>gvk. (gvk_Group gvk, gvk_Kind gvk)) managedGVKs) \<and>
    u_Kind item \<noteq> ''Secret'' \<and> \<not> hasKey objs (u_Group item) (u_Kind item) (u_Name item)"
proof -
  obtain r s' where eq: "deleteOrphanedResources K gw objs s = (r, s')" by fastforce
  have "(item, a) \<in> set (deletions (new_log s s'))"
    using assms(2) eq by (force simp: deletions_def)
  then have "item \<in> set (map fst (deletions (new_log s s')))" by force
  then have "item \<in> set (concat (map (orphansIn gw objs) (listAnswers K gw objs managedGVKs s)))"
    using deleteOrphaned_log [OF eq] by argo
  then obtain gvk items where ans: "(gvk, Inr items) \<in> set (listAnswers K gw objs managedGVKs s)"
    and item: "item \<in> set items" "orphan gw objs gvk item"
    by (auto simp: orphansIn_iff)
  from listAnswers_kinds [OF ans] assms(1) item(1)
  have kind: "gvk \<in> set managedGVKs" "u_Group item = gvk_Group gvk" "u_Kind item = gvk_Kind gvk"
    "u_Namespace item = gw_Namespace gw"
    by (auto simp: lists_what_is_asked_def list_all_iff) (metis+)
  have "gvk_Kind gvk \<noteq> ''Secret''" using kind(1) by (auto simp: managedGVKs_def)
  with kind item(2) show ?thesis by (auto simp: orphan_def)
qed

section \<open>Properties\<close>

text \<open>
  C17: the clean-up deletes, in the order of the kinds and of their lists, exactly the listed
  objects that the gateway controls and whose group, kind and name were not rendered, and does
  nothing else. It reports an error exactly when a list failed for another reason than a
  missing API, or a delete for another reason than a missing object.
\<close>

theorem orphans_deleted_exactly:
  "map fst (deletions (new_log s (snd (deleteOrphanedResources K gw objs s))))
     = concat (map (orphansIn gw objs) (listAnswers K gw objs managedGVKs s)) \<and>
   list_all (\<lambda>e. deletion e \<noteq> []) (new_log s (snd (deleteOrphanedResources K gw objs s))) \<and>
   (fst (deleteOrphanedResources K gw objs s) = None \<longleftrightarrow>
      set (map snd (deletions (new_log s (snd (deleteOrphanedResources K gw objs s)))))
        \<subseteq> {None, Some NotFound} \<and>
      \<not> list_ex listFailed (listAnswers K gw objs managedGVKs s))"
  using deleteOrphaned_log [of K gw objs s "fst (deleteOrphanedResources K gw objs s)"
      "snd (deleteOrphanedResources K gw objs s)"]
  by (simp add: list_ex_iff del: set_map)

text \<open>
  C18: when lists answer with what they are asked for, a deleted object lies in the gateway's
  namespace, has the gateway as its controller, is of a managed kind, so never a Secret, and
  no rendered object has its group, kind and name.
\<close>

theorem deletions_are_safe:
  assumes "lists_what_is_asked K"
    and "Deleted item a \<in> set (new_log s (snd (deleteOrphanedResources K gw objs s)))"
  shows "u_Namespace item = gw_Namespace gw \<and> isControllerOwnedBy (u_OwnerReferences item) gw \<and>
    (u_Group item, u_Kind item) \<in> set (map (\<lambda>gvk. (gvk_Group gvk, gvk_Kind gvk)) managedGVKs) \<and>
    u_Kind item \<noteq> ''Secret'' \<and> \<not> hasKey objs (u_Group item) (u_Kind item) (u_Name item)"
  using assms by (rule deletion_safe)

lemma cluster_lists [simp]: "lists_what_is_asked clusterClient"
  by (auto simp: lists_what_is_asked_def clusterClient_def list_all_iff)

definition oldObject :: Unstructured where
  "oldObject = (sampleObject ''old'')\<lparr>u_Namespace := ''apps'',
     u_OwnerReferences := [controllerRef redisGateway]\<rparr>"

definition keptObject :: Unstructured where
  "keptObject = oldObject\<lparr>u_Name := ''kept''\<rparr>"

definition foreignObject :: Unstructured where
  "foreignObject = oldObject\<lparr>u_Name := ''foreign'', u_OwnerReferences := []\<rparr>"

definition orphanState :: "cluster st" where
  "orphanState = startState (sampleCluster [] [] [foreignObject, oldObject, keptObject])"

lemma orphan_run:
  "new_log orphanState (snd (deleteOrphanedResources clusterClient redisGateway [keptObject] orphanState))
     = [Deleted oldObject None]"
  by code_simp

theorem deletions_are_safe_witness:
  "\<exists>item. Deleted item None \<in> set (new_log orphanState
       (snd (deleteOrphanedResources clusterClient redisGateway [keptObject] orphanState))) \<and>
     isControllerOwnedBy (u_OwnerReferences item) redisGateway \<and>
     \<not> hasKey [keptObject] (u_Group item) (u_Kind item) (u_Name item)"
proof -
  have "Deleted oldObject None \<in> set (new_log orphanState
      (snd (deleteOrphanedResources clusterClient redisGateway [keptObject] orphanState)))"
    by (simp add: orphan_run)
  with deletions_are_safe [OF cluster_lists this] show ?thesis by blast
qed

end
