(* ===== verification/Reconcile.thy ===== *)
theory Reconcile
  imports SecretSync Orphans
begin

text \<open>
  The reconciler: \<open>llmbatchgateway_controller.go\<close> lines 127-273. One call is a function of
  the reconciler, the request and the state; the timeout the context carries shows as client
  calls that answer \<open>DeadlineExceeded\<close>. The secret filter is part of the state, since every
  call and the watch share it.
\<close>

text \<open>
  The fields of the Go struct, and with them the libraries the calls use: the Helm library, the
  JSON decoder of transform parameters, and the order in which the runtime ranges over the
  model gateways.
\<close>

record ('w, 'c, 'rv) LLMBatchGatewayReconciler =
  r_Client :: "'w client"
  r_BatchGWHelmRenderer :: "'c HelmRenderer"
  r_AsyncHelmRenderer :: "'c HelmRenderer option"
  r_ReconcileTimeout :: int64
  r_SyncPeriod :: int64
  r_helm :: "('c, 'rv) helm_lib"
  r_unmarshal :: "string \<Rightarrow> val option"
  r_visit :: "ModelGatewaySpec smap \<Rightarrow> ModelGatewaySpec smap"

text \<open>The constructor also makes the empty filter, the initial part of the state.\<close>

definition NewLLMBatchGatewayReconciler ::
  "'w client \<Rightarrow> 'c HelmRenderer \<Rightarrow> 'c HelmRenderer option \<Rightarrow> int64 \<Rightarrow> int64 \<Rightarrow> ('c, 'rv) helm_lib \<Rightarrow>
   (string \<Rightarrow> val option) \<Rightarrow> (ModelGatewaySpec smap \<Rightarrow> ModelGatewaySpec smap) \<Rightarrow>
   ('w, 'c, 'rv) LLMBatchGatewayReconciler \<times> secretWatchFilter" where
  "NewLLMBatchGatewayReconciler c batchGWHelm asyncHelm syncPeriod reconcileTimeout helm unmarshal visit =
     (\<lparr>r_Client = c, r_BatchGWHelmRenderer = batchGWHelm, r_AsyncHelmRenderer = asyncHelm,
       r_ReconcileTimeout = reconcileTimeout, r_SyncPeriod = syncPeriod, r_helm = helm,
       r_unmarshal = unmarshal, r_visit = visit\<rparr>, filter_new)"

definition reasonReferenceNotPermitted :: string where
  "reasonReferenceNotPermitted = ''ReferenceNotPermitted''"

definition reasonSecretRefImmutable :: string where
  "reasonSecretRefImmutable = ''SecretRefImmutable''"

text \<open>The label of the error metric.\<close>

definition errorReason :: "goerr \<Rightarrow> string" where
  "errorReason err =
     (case as_ref err of
        Some _ \<Rightarrow> reasonReferenceNotPermitted
      | None \<Rightarrow>
          (case as_immutable err of
             Some _ \<Rightarrow> reasonSecretRefImmutable
           | None \<Rightarrow> ''Other''))"

text \<open>
  The loop over the rendered objects (lines 245-262). The objects are shared with the clean-up
  through pointers, so the loop also returns them as it leaves them: namespaced, owned, and
  after a successful apply as the server answered.
\<close>

fun applyObjects ::
  "'w client \<Rightarrow> LLMBatchGateway \<Rightarrow> Unstructured list \<Rightarrow> 'w st \<Rightarrow> (goerr + Unstructured list) \<times> 'w st" where
  "applyObjects K gw [] s = (Inr [], s)"
| "applyObjects K gw (obj # objs) s =
     (let obj = obj\<lparr>u_Namespace := gw_Namespace gw\<rparr>
      in case k_SetControllerReference K gw (u_Namespace obj) (u_OwnerReferences obj) of
           Inl e \<Rightarrow>
             (Inl (Wrap [''setting owner reference on'', u_Kind obj, u_Name obj] [ErrExternal e]), s)
         | Inr refs \<Rightarrow>
             (let obj = obj\<lparr>u_OwnerReferences := refs\<rparr>
              in case applyObject K obj s of
                   (Inl err, s) \<Rightarrow>
                     (if isNotFound err \<or> isNoMatch err
                      then (case applyObjects K gw objs s of (r, s) \<Rightarrow> (map_sum id (\<lambda>os. obj # os) r, s))
                      else (Inl (Wrap [''applying'', u_Kind obj, u_Name obj] [err]),
                            emit (Event EventWarning ''ApplyFailed''
                                    (MsgError [''Failed to apply'', u_Kind obj, u_Name obj] err)) s))
                 | (Inr obj', s) \<Rightarrow>
                     (case applyObjects K gw objs s of (r, s) \<Rightarrow> (map_sum id (\<lambda>os. obj' # os) r, s))))"

text \<open>Lines 221-227: which references the watch filter learns.\<close>

definition trackSecret :: "LLMBatchGateway \<Rightarrow> 'w st \<Rightarrow> 'w st" where
  "trackSecret gw s =
     (let ref = spec_SecretRef (gw_Spec gw)
      in if ref_Namespace ref \<noteq> '''' \<and> ref_Namespace ref \<noteq> gw_Namespace gw
         then s\<lparr>st_filter := filter_add (st_filter s) (ref_Namespace ref) (ref_Name ref)\<rparr>
         else s)"

text \<open>Lines 229-273: render, apply, clean up, report.\<close>

definition renderAll ::
  "('w, 'c, 'rv) LLMBatchGatewayReconciler \<Rightarrow> LLMBatchGateway \<Rightarrow> string \<Rightarrow> 'w st \<Rightarrow>
   ((ctrlResult \<times> goerr option) + Unstructured list) \<times> 'w st" where
  "renderAll R gw localName s =
     (case RenderBatchChart (r_helm R) (r_BatchGWHelmRenderer R) gw localName of
        Inl err \<Rightarrow> (case failRender (r_Client R) gw ''batch-gateway chart'' err s of (r, s) \<Rightarrow> (Inl r, s))
      | Inr batchObjects \<Rightarrow>
          (case r_AsyncHelmRenderer R of
             None \<Rightarrow>
               (Inl (noResult, Some (ErrNew
                  ''async dispatch requires an async helm renderer, but none was configured'')), s)
           | Some h \<Rightarrow>
               (case RenderAsyncChart (r_helm R) (r_unmarshal R) h gw localName of
                  Inl err \<Rightarrow> (case failRender (r_Client R) gw ''async chart'' err s of (r, s) \<Rightarrow> (Inl r, s))
                | Inr asyncObjects \<Rightarrow> (Inr (batchObjects @ asyncObjects), s))))"

definition reconcileObjects ::
  "('w, 'c, 'rv) LLMBatchGatewayReconciler \<Rightarrow> LLMBatchGateway \<Rightarrow> Unstructured list \<Rightarrow> 'w st \<Rightarrow>
   (ctrlResult \<times> goerr option) \<times> 'w st" where
  "reconcileObjects R gw allObjects s =
     (case applyObjects (r_Client R) gw allObjects s of
        (Inl e, s) \<Rightarrow> ((noResult, Some e), s)
      | (Inr allObjects, s) \<Rightarrow>
          (case deleteOrphanedResources (r_Client R) gw allObjects s of
             (Some err, s) \<Rightarrow> ((noResult, Some (Wrap [''deleting orphaned resources''] [err])), s)
           | (None, s) \<Rightarrow>
               (case updateStatus (r_Client R) gw s of
                  (Some err, s) \<Rightarrow> ((noResult, Some (Wrap [''updating status''] [err])), s)
                | (None, s) \<Rightarrow> ((\<lparr>ctrl_RequeueAfter = r_SyncPeriod R\<rparr>, None), s))))"

text \<open>Lines 200-217: the errors of the resolution that only the user can fix.\<close>

definition permanentReason :: "goerr \<Rightarrow> string option" where
  "permanentReason err =
     (case as_ref err of
        Some _ \<Rightarrow> Some reasonReferenceNotPermitted
      | None \<Rightarrow>
          (case as_immutable err of
             Some _ \<Rightarrow> Some reasonSecretRefImmutable
           | None \<Rightarrow> None))"

definition reconcileGateway ::
  "('w, 'c, 'rv) LLMBatchGatewayReconciler \<Rightarrow> LLMBatchGateway \<Rightarrow> 'w st \<Rightarrow>
   (ctrlResult \<times> goerr option) \<times> 'w st" where
  "reconcileGateway R gw s =
     (case validateSpec (r_visit R) gw of
        Some err \<Rightarrow>
          (case recordFailure (r_Client R) gw
                  \<lparr>sf_reason = ''ValidationFailed'',
                   sf_message = MsgError [''Spec validation failed''] (ErrValidation err),
                   sf_conditions = allConditionTypes\<rparr> s of
             (e, s) \<Rightarrow> ((noResult, e), s))
      | None \<Rightarrow>
          (case resolveSecret (r_Client R) gw s of
             (Inl err, s) \<Rightarrow>
               (case permanentReason err of
                  Some reason \<Rightarrow>
                    (case recordFailure (r_Client R) gw
                            \<lparr>sf_reason = reason, sf_message = MsgError [] err,
                             sf_conditions = [conditionReady]\<rparr> s of
                       (e, s) \<Rightarrow> ((noResult, e), s))
                | None \<Rightarrow> ((noResult, Some (Wrap [''resolving secret''] [err])), s))
           | (Inr localName, s) \<Rightarrow>
               (case renderAll R gw localName (trackSecret gw s) of
                  (Inl r, s) \<Rightarrow> (r, s)
                | (Inr allObjects, s) \<Rightarrow> reconcileObjects R gw allObjects s)))"

definition reconcile ::
  "('w, 'c, 'rv) LLMBatchGatewayReconciler \<Rightarrow> string \<Rightarrow> string \<Rightarrow> 'w st \<Rightarrow>
   (ctrlResult \<times> goerr option) \<times> 'w st" where
  "reconcile R ns name s =
     (case call (k_GetGateway (r_Client R) ns name) s of
        (Inl e, s) \<Rightarrow>
          (if isNotFound (ErrApi e) then ((noResult, None), s)
           else ((noResult, Some (Wrap [''fetching LLMBatchGateway''] [ErrApi e])), s))
      | (Inr gw, s) \<Rightarrow> reconcileGateway R gw s)"

definition Reconcile ::
  "('w, 'c, 'rv) LLMBatchGatewayReconciler \<Rightarrow> string \<Rightarrow> string \<Rightarrow> 'w st \<Rightarrow>
   (ctrlResult \<times> goerr option) \<times> 'w st" where
  "Reconcile R ns name s =
     (case reconcile R ns name s of
        ((result, err), s) \<Rightarrow>
          ((result, err),
           case err of None \<Rightarrow> s | Some e \<Rightarrow> emit (ErrorCounted (errorReason e)) s))"

section \<open>The apply loop\<close>

fun application :: "effect \<Rightarrow> (Unstructured \<times> api_error option) list" where
  "application (Applied obj r) = [(obj, r)]"
| "application _ = []"

definition applications :: "effect list \<Rightarrow> (Unstructured \<times> api_error option) list" where
  "applications es = concat (map application es)"

lemma applications_simps [simp]:
  "applications [] = []" "applications (e # es) = application e @ applications es"
  "applications (xs @ ys) = applications xs @ applications ys"
  by (simp_all add: applications_def)

text \<open>The object as it is sent: namespaced and with its controller.\<close>

definition sent :: "'w client \<Rightarrow> LLMBatchGateway \<Rightarrow> Unstructured \<Rightarrow> Unstructured \<Rightarrow> bool" where
  "sent K gw obj out \<longleftrightarrow>
     (\<exists>refs. k_SetControllerReference K gw (gw_Namespace gw) (u_OwnerReferences obj) = Inr refs \<and>
        out = obj\<lparr>u_Namespace := gw_Namespace gw, u_OwnerReferences := refs\<rparr>)"

text \<open>A skipped object: its API is not installed.\<close>

definition tolerated :: "api_error option \<Rightarrow> bool" where
  "tolerated r \<longleftrightarrow> r \<in> {None, Some NotFound, Some NoMatch}"

lemma isEvent_simps [simp]:
  "isEvent (Event t r m)" "\<not> isEvent (Applied x a)" "\<not> isEvent (AppliedSecret c a)"
  "\<not> isEvent (Deleted x a)" "\<not> isEvent (StatusPatched p a)" "\<not> isEvent (ErrorCounted l)"
  by (simp_all add: isEvent_def)

lemma map_sum_Inr [simp]: "map_sum id f x = Inr y \<longleftrightarrow> (\<exists>z. x = Inr z \<and> y = f z)"
  by (cases x) auto

lemma applyObject_log:
  assumes "applyObject K obj s = (r, s')"
  shows "st_filter s' = st_filter s \<and>
    ((\<exists>ctx e. r = Inl (Wrap ctx [ErrExternal e]) \<and> s' = s) \<or>
     (\<exists>a. st_log s' = st_log s @ [Applied obj a] \<and>
        (case a of Some e \<Rightarrow> r = Inl (ErrApi e)
         | None \<Rightarrow> \<exists>obj' data w w'. r = Inr obj' \<and> k_PatchObject K obj data FieldOwner True w = (Inr obj', w'))))"
  using assms
  by (auto simp: applyObject_def ServerSideApply_def error_of_def call_def
      split: sum.splits prod.splits)

text \<open>
  The loop sends a prefix of the objects, all of them when it succeeds, and then every answer
  was a success or a missing API.
\<close>

lemma applyObjects_log:
  assumes "applyObjects K gw objs s = (r, s')"
  shows "st_filter s' = st_filter s \<and>
    (\<exists>es n. st_log s' = st_log s @ es \<and> n \<le> length objs \<and>
      list_all2 (sent K gw) (take n objs) (map fst (applications es)) \<and>
      list_all (\<lambda>e. application e \<noteq> [] \<or> isEvent e) es \<and>
      (\<forall>objs'. r = Inr objs' \<longrightarrow> n = length objs \<and> \<not> list_ex isEvent es \<and>
         list_all tolerated (map snd (applications es))))"
  using assms
proof (induction objs arbitrary: r s)
  case Nil
  then show ?case by auto
next
  case (Cons obj objs)
  show ?case
  proof (cases "k_SetControllerReference K gw (gw_Namespace gw) (u_OwnerReferences obj)")
    case (Inl e)
    with Cons.prems show ?thesis
      by (intro conjI exI [of _ "[]"] exI [of _ 0]) (auto simp: Let_def)
  next
    case (Inr refs)
    define out where "out = obj\<lparr>u_Namespace := gw_Namespace gw, u_OwnerReferences := refs\<rparr>"
    have sent: "sent K gw obj out" by (simp add: sent_def Inr out_def)
    obtain a t where ap: "applyObject K out s = (a, t)" by fastforce
    show ?thesis
    proof (cases "\<exists>err. a = Inl err \<and> \<not> isNotFound err \<and> \<not> isNoMatch err")
      case True
      then obtain err where a: "a = Inl err" and hard: "\<not> isNotFound err" "\<not> isNoMatch err" by blast
      have s': "s' = emit (Event EventWarning ''ApplyFailed''
          (MsgError [''Failed to apply'', u_Kind out, u_Name out] err)) t" "r = Inl (Wrap [''applying'', u_Kind out, u_Name out] [err])"
        using Cons.prems Inr ap a hard by (simp_all add: Let_def out_def)
      from applyObject_log [OF ap] consider "t = s" | b where "st_log t = st_log s @ [Applied out b]"
        by blast
      then show ?thesis
      proof cases
        case 1
        then show ?thesis using s'
          by (intro conjI exI [of _ "[Event EventWarning ''ApplyFailed''
            (MsgError [''Failed to apply'', u_Kind out, u_Name out] err)]"] exI [of _ 0])
            (simp_all)
      next
        case 2
        then show ?thesis using s' sent applyObject_log [OF ap]
          by (intro conjI exI [of _ "[Applied out b, Event EventWarning ''ApplyFailed''
            (MsgError [''Failed to apply'', u_Kind out, u_Name out] err)]"] exI [of _ 1])
            simp_all
      qed
    next
      case False
      obtain r1 where rest: "applyObjects K gw objs t = (r1, s')" and r: "(\<exists>o'. r = Inr o') \<longrightarrow> (\<exists>o'. r1 = Inr o')"
        using Cons.prems Inr ap False
        by (fastforce simp: Let_def out_def [symmetric] split: sum.splits if_splits prod.splits)
      from False applyObject_log [OF ap] obtain b where b: "st_log t = st_log s @ [Applied out b]"
        "tolerated b" "st_filter t = st_filter s"
        by (fastforce simp: tolerated_def split: option.splits)
      from Cons.IH [OF rest] obtain es n where "st_log s' = st_log t @ es" "n \<le> length objs"
        "list_all2 (sent K gw) (take n objs) (map fst (applications es))"
        "list_all (\<lambda>e. application e \<noteq> [] \<or> isEvent e) es" "st_filter s' = st_filter t"
        "\<forall>objs'. r1 = Inr objs' \<longrightarrow> n = length objs \<and> \<not> list_ex isEvent es \<and>
         list_all tolerated (map snd (applications es))" by blast
      with b sent r show ?thesis
        by (intro conjI exI [of _ "Applied out b # es"] exI [of _ "Suc n"]) (auto)
    qed
  qed
qed

text \<open>The server's answer to an apply is the object that was sent, by identity.\<close>

definition echoes_identity :: "'w client \<Rightarrow> bool" where
  "echoes_identity K \<longleftrightarrow>
     (\<forall>obj data w obj' w'. k_PatchObject K obj data FieldOwner True w = (Inr obj', w') \<longrightarrow>
        u_Group obj' = u_Group obj \<and> u_Kind obj' = u_Kind obj \<and> u_Name obj' = u_Name obj)"

definition identity :: "Unstructured \<Rightarrow> string \<times> string \<times> string" where
  "identity obj = (u_Group obj, u_Kind obj, u_Name obj)"

lemma hasKey_identity: "hasKey objs g k n \<longleftrightarrow> (g, k, n) \<in> set (map identity objs)"
  by (auto simp: hasKey_def identity_def image_iff)

lemma applyObjects_identity:
  "echoes_identity K \<Longrightarrow> applyObjects K gw objs s = (Inr objs', s') \<Longrightarrow>
     map identity objs' = map identity objs"
proof (induction objs arbitrary: objs' s)
  case Nil
  then show ?case by simp
next
  case (Cons obj objs)
  obtain refs where refs: "k_SetControllerReference K gw (gw_Namespace gw) (u_OwnerReferences obj) = Inr refs"
    using Cons.prems(2) by (auto simp: Let_def split: sum.splits)
  define out where "out = obj\<lparr>u_Namespace := gw_Namespace gw, u_OwnerReferences := refs\<rparr>"
  obtain a t where ap: "applyObject K out s = (a, t)" by fastforce
  obtain o' os where rest: "applyObjects K gw objs t = (Inr os, s')" and objs': "objs' = o' # os"
    and o': "a = Inr o' \<or> o' = out"
    using Cons.prems(2) refs ap
    by (auto simp: Let_def out_def [symmetric] split: sum.splits if_splits prod.splits)
  have "identity o' = identity obj"
  proof (cases "o' = out")
    case True
    then show ?thesis by (simp add: out_def identity_def)
  next
    case False
    with o' have "a = Inr o'" by simp
    with applyObject_log [OF ap] obtain data w w'
      where "k_PatchObject K out data FieldOwner True w = (Inr o', w')"
      by (auto split: option.splits)
    with Cons.prems(1) show ?thesis
      unfolding echoes_identity_def by (fastforce simp: out_def identity_def)
  qed
  with Cons.IH [OF Cons.prems(1) rest] objs' show ?case by simp
qed

section \<open>The log of a reconcile\<close>

text \<open>Entries that report: events and status patches.\<close>

definition isReport :: "effect \<Rightarrow> bool" where
  "isReport e \<longleftrightarrow> isEvent e \<or> (\<exists>p a. e = StatusPatched p a)"

lemma isReport_simps [simp]:
  "isReport (Event t r m)" "isReport (StatusPatched p a)" "\<not> isReport (Applied x a)"
  "\<not> isReport (AppliedSecret c a)" "\<not> isReport (Deleted x a)" "\<not> isReport (ErrorCounted l)"
  by (simp_all add: isReport_def)

lemma logs_new_log_iff: "logs P s s' \<longleftrightarrow> (st_log s' = st_log s @ new_log s s' \<and> list_all P (new_log s s'))"
  by (auto simp: logs_def)

lemma logs_recordFailure [log_intros]: "logs isReport s (snd (recordFailure K gw f s))"
  unfolding recordFailure_def Let_def
  by (auto split: prod.split option.split intro!: logs_trans [of isReport s "emit e s" for e]
      dest!: patch_Apply_log simp: logs_def)

lemma logs_publishStatus: "logs isReport s (snd (publishStatus K gw cs s))"
proof -
  have "logs isReport s (snd (patch_Apply K g p t))" if "logs isReport s t" for g p t
    using that by (rule logs_trans) (rule logs_patch_Apply, simp)
  then show ?thesis
    unfolding publishStatus_def Let_def by (auto split: prod.split)
qed

lemma logs_updateStatus [log_intros]: "logs isReport s (snd (updateStatus K gw s))"
  unfolding updateStatus_def
  by (auto split: prod.split sum.split dest!: logs_call_eq [where P = isReport]
      intro: logs_trans logs_publishStatus)

lemma recordFailure_frame:
  "recordFailure K gw f s = (r, s') \<Longrightarrow> logs isReport s s' \<and> st_filter s' = st_filter s"
  using logs_recordFailure [of s K gw f] recordFailure_log [of K gw f s r s'] by auto

lemma failRender_frame:
  "failRender K gw chart e s = (r, s') \<Longrightarrow>
     logs isReport s s' \<and> st_filter s' = st_filter s \<and> (\<exists>err. r = (noResult, Some err))"
  unfolding failRender_def Let_def
  by (auto split: prod.splits option.splits dest!: recordFailure_frame)

lemma renderAll_frame:
  "renderAll R gw n s = (r, s') \<Longrightarrow>
     st_filter s' = st_filter s \<and>
     (case r of Inl x \<Rightarrow> logs isReport s s' \<and> (\<exists>err. x = (noResult, Some err)) | Inr _ \<Rightarrow> s' = s)"
  unfolding renderAll_def
  by (auto split: prod.splits option.splits sum.splits dest!: failRender_frame)

lemma updateStatus_frame:
  "updateStatus K gw s = (r, s') \<Longrightarrow> logs isReport s s' \<and> st_filter s' = st_filter s"
proof -
  assume eq: "updateStatus K gw s = (r, s')"
  have "st_filter (snd (updateStatus K gw s)) = st_filter s"
    unfolding updateStatus_def publishStatus_def Let_def
    by (auto split: prod.split sum.split dest!: call_eq)
  with logs_updateStatus [of s K gw] eq show ?thesis by simp
qed

lemma logs_split:
  "st_log s' = st_log s @ es \<Longrightarrow> list_all P es \<Longrightarrow> logs P s s'"
  by (auto simp: logs_def)

text \<open>
  The second half of a reconcile: applies, then deletions, then reports, each phase only
  entered when the one before succeeded.
\<close>

lemma reconcileObjects_log:
  assumes "reconcileObjects R gw objs s = ((res, err), s')"
  shows "st_filter s' = st_filter s \<and>
    (\<exists>app n del rep. st_log s' = st_log s @ app @ del @ rep \<and> n \<le> length objs \<and>
      list_all2 (sent (r_Client R) gw) (take n objs) (map fst (applications app)) \<and>
      list_all (\<lambda>e. application e \<noteq> [] \<or> isEvent e) app \<and>
      list_all isReport rep \<and>
      (del \<noteq> [] \<longrightarrow> (\<exists>objs' t u. applyObjects (r_Client R) gw objs s = (Inr objs', t) \<and>
         del = new_log t u \<and>
         u = snd (deleteOrphanedResources (r_Client R) gw objs' t))) \<and>
      list_all (\<lambda>e. deletion e \<noteq> []) del \<and>
      (del \<noteq> [] \<or> rep \<noteq> [] \<or> err = None \<longrightarrow> n = length objs \<and> \<not> list_ex isEvent app \<and>
         list_all tolerated (map snd (applications app))) \<and>
      (if err = None then res = \<lparr>ctrl_RequeueAfter = r_SyncPeriod R\<rparr> else res = noResult))"
proof -
  let ?K = "r_Client R"
  obtain r1 s1 where a: "applyObjects ?K gw objs s = (r1, s1)" by fastforce
  obtain app n where app: "st_log s1 = st_log s @ app" "n \<le> length objs" "st_filter s1 = st_filter s"
    "list_all2 (sent ?K gw) (take n objs) (map fst (applications app))"
    "list_all (\<lambda>e. application e \<noteq> [] \<or> isEvent e) app"
    "\<forall>objs'. r1 = Inr objs' \<longrightarrow> n = length objs \<and> \<not> list_ex isEvent app \<and>
       list_all tolerated (map snd (applications app))"
    using applyObjects_log [OF a] by blast
  show ?thesis
  proof (cases r1)
    case (Inl e)
    with assms a have "s' = s1" "err \<noteq> None" "res = noResult" by (auto simp: reconcileObjects_def)
    with app show ?thesis
      by (intro conjI, simp) (rule exI [of _ app], rule exI [of _ n], rule exI [of _ "[]"],
        rule exI [of _ "[]"], auto)
  next
    case (Inr objs')
    obtain r2 s2 where d: "deleteOrphanedResources ?K gw objs' s1 = (r2, s2)" by fastforce
    from deleteOrphaned_log [OF d] obtain del where del: "st_log s2 = st_log s1 @ del"
      "list_all (\<lambda>e. deletion e \<noteq> []) del" "st_filter s2 = st_filter s1"
      by (auto simp: logs_def)
    then have new: "del = new_log s1 s2" by simp
    have u: "s2 = snd (deleteOrphanedResources ?K gw objs' s1)" by (simp add: d)
    have "\<exists>rep. st_log s' = st_log s2 @ rep \<and> list_all isReport rep \<and> st_filter s' = st_filter s2 \<and>
        (if err = None then res = \<lparr>ctrl_RequeueAfter = r_SyncPeriod R\<rparr> else res = noResult)"
      using assms a Inr d
      by (auto simp: reconcileObjects_def logs_def split: option.splits prod.splits
          dest!: updateStatus_frame)
    then obtain rep where rep: "st_log s' = st_log s2 @ rep" "list_all isReport rep"
      "st_filter s' = st_filter s2"
      "if err = None then res = \<lparr>ctrl_RequeueAfter = r_SyncPeriod R\<rparr> else res = noResult" by blast
    have "\<exists>objs' t u. applyObjects ?K gw objs s = (Inr objs', t) \<and>
        del = new_log t u \<and>
        u = snd (deleteOrphanedResources ?K gw objs' t)"
      using a Inr u new by blast
    with app del rep Inr show ?thesis
      by (intro conjI, simp) (rule exI [of _ app], rule exI [of _ n], rule exI [of _ del],
        rule exI [of _ rep], simp)
  qed
qed

text \<open>The metric entry of an error.\<close>

definition counted :: "goerr option \<Rightarrow> effect list" where
  "counted err = (case err of None \<Rightarrow> [] | Some e \<Rightarrow> [ErrorCounted (errorReason e)])"

definition isSecretApply :: "effect \<Rightarrow> bool" where
  "isSecretApply e \<longleftrightarrow> (\<exists>c a. e = AppliedSecret c a)"

text \<open>What the two renderers produce for a gateway, when both succeed.\<close>

definition renders ::
  "('w, 'c, 'rv) LLMBatchGatewayReconciler \<Rightarrow> LLMBatchGateway \<Rightarrow> string \<Rightarrow> Unstructured list \<Rightarrow> bool" where
  "renders R gw localName objs \<longleftrightarrow>
     (\<exists>h batch async. r_AsyncHelmRenderer R = Some h \<and>
        RenderBatchChart (r_helm R) (r_BatchGWHelmRenderer R) gw localName = Inr batch \<and>
        RenderAsyncChart (r_helm R) (r_unmarshal R) h gw localName = Inr async \<and>
        objs = batch @ async)"

lemma renderAll_renders:
  "renderAll R gw n s = (Inr objs, s') \<Longrightarrow> renders R gw n objs"
  unfolding renderAll_def renders_def by (auto split: sum.splits option.splits prod.splits)

lemma resolve_logs:
  assumes "resolveSecret K gw s = (r, s')"
  shows "st_filter s' = st_filter s \<and> logs isSecretApply s s'"
proof (cases "secretNamespace gw = gw_Namespace gw")
  case True
  with assms show ?thesis by (simp add: resolve_same_namespace)
next
  case False
  obtain a b c where ans: "secretAnswers K gw (st_world s) = (a, b, c)" by (rule prod_cases3)
  have "st_filter s' = st_filter s" using resolve_filter [of K gw s] assms by simp
  moreover have "logs isSecretApply s s'"
    using resolve_log [OF False ans assms] by (auto simp: logs_def isSecretApply_def)
  ultimately show ?thesis ..
qed

lemma trackSecret_simps [simp]:
  "st_log (trackSecret gw s) = st_log s" "st_world (trackSecret gw s) = st_world s"
  by (simp_all add: trackSecret_def Let_def)

text \<open>
  The three ways a reconcile of an existing gateway goes: the spec is refused, no objects are
  applied because the Secret or a chart failed, or the objects are applied.
\<close>

lemma reconcileGateway_cases:
  assumes "reconcileGateway R gw s = ((res, err), s')"
  obtains (refused) v where "validateSpec (r_visit R) gw = Some v"
      and "logs isReport s s'" and "res = noResult" and "st_filter s' = st_filter s"
      and "recordFailure (r_Client R) gw \<lparr>sf_reason = ''ValidationFailed'',
          sf_message = MsgError [''Spec validation failed''] (ErrValidation v),
          sf_conditions = allConditionTypes\<rparr> s = (err, s')"
  | (unresolved) e sec rep where "validateSpec (r_visit R) gw = None"
      and "fst (resolveSecret (r_Client R) gw s) = Inl e"
      and "st_log s' = st_log s @ sec @ rep" and "list_all isSecretApply sec"
      and "list_all isReport rep" and "res = noResult" and "st_filter s' = st_filter s"
      and "st_log (snd (resolveSecret (r_Client R) gw s)) = st_log s @ sec"
  | (unrendered) n e sec rep where "validateSpec (r_visit R) gw = None"
      and "fst (resolveSecret (r_Client R) gw s) = Inr n"
      and "st_log s' = st_log s @ sec @ rep" and "list_all isSecretApply sec"
      and "list_all isReport rep" and "res = noResult" and "err = Some e"
      and "st_filter s' = st_filter (trackSecret gw s)"
      and "st_log (snd (resolveSecret (r_Client R) gw s)) = st_log s @ sec"
  | (applied) n sec t objs where "validateSpec (r_visit R) gw = None"
      and "fst (resolveSecret (r_Client R) gw s) = Inr n" and "renders R gw n objs"
      and "st_log t = st_log s @ sec" and "list_all isSecretApply sec"
      and "reconcileObjects R gw objs t = ((res, err), s')"
      and "st_filter t = st_filter (trackSecret gw s)"
      and "t = trackSecret gw (snd (resolveSecret (r_Client R) gw s))"
      and "st_log (snd (resolveSecret (r_Client R) gw s)) = st_log s @ sec"
proof (cases "validateSpec (r_visit R) gw")
  case (Some v)
  obtain e t where rec: "recordFailure (r_Client R) gw \<lparr>sf_reason = ''ValidationFailed'',
      sf_message = MsgError [''Spec validation failed''] (ErrValidation v),
      sf_conditions = allConditionTypes\<rparr> s = (e, t)" by fastforce
  with assms Some have "res = noResult" "err = e" "s' = t" by (auto simp: reconcileGateway_def)
  with refused [OF Some] rec recordFailure_frame [OF rec] show thesis by simp
next
  case None
  obtain r t where res: "resolveSecret (r_Client R) gw s = (r, t)" by fastforce
  obtain sec where sec: "st_log t = st_log s @ sec" "list_all isSecretApply sec"
    "st_filter t = st_filter s"
    using resolve_logs [OF res] by (auto simp: logs_def)
  have new: "st_log (snd (resolveSecret (r_Client R) gw s)) = st_log s @ sec"
    using sec(1) by (simp add: res)
  show thesis
  proof (cases r)
    case (Inl e)
    have "logs isReport t s' \<and> st_filter s' = st_filter t \<and> res = noResult"
      using assms None res Inl
      by (auto simp: reconcileGateway_def split: option.splits prod.splits dest!: recordFailure_frame)
    with unresolved [OF None, of e sec] res Inl sec new show thesis by (auto simp: logs_def)
  next
    case (Inr n)
    obtain x u where ren: "renderAll R gw n (trackSecret gw t) = (x, u)" by fastforce
    have filt: "st_filter (trackSecret gw t) = st_filter (trackSecret gw s)"
      using sec(3) by (simp add: trackSecret_def Let_def)
    show thesis
    proof (cases x)
      case (Inl y)
      with assms None res Inr ren have eq: "y = (res, err)" "s' = u"
        by (auto simp: reconcileGateway_def)
      from renderAll_frame [OF ren] Inl eq obtain rep e where
        "st_log s' = st_log t @ rep" "list_all isReport rep" "res = noResult" "err = Some e"
        "st_filter s' = st_filter (trackSecret gw s)"
        by (auto simp: logs_def filt)
      with unrendered [OF None, of n sec rep e] res Inr sec new show thesis by simp
    next
      case objs: (Inr objs)
      with assms None res Inr ren have eq: "reconcileObjects R gw objs u = ((res, err), s')"
        by (auto simp: reconcileGateway_def)
      from renderAll_frame [OF ren] objs have u: "u = trackSecret gw t" by simp
      show thesis
        by (rule applied [OF None, of n objs u sec])
          (use res Inr ren objs renderAll_renders eq sec u filt new in auto)
    qed
  qed
qed

lemma Reconcile_existing:
  assumes "k_GetGateway (r_Client R) ns name (st_world s) = (Inr gw, w)"
    and "Reconcile R ns name s = ((res, err), s')"
  shows "\<exists>u. reconcileGateway R gw (s\<lparr>st_world := w\<rparr>) = ((res, err), u) \<and>
    st_log s' = st_log u @ counted err \<and> st_filter s' = st_filter u \<and> st_world s' = st_world u"
  using assms
  by (auto simp: Reconcile_def reconcile_def call_def counted_def split: prod.splits option.splits)

lemma Reconcile_absent:
  assumes "k_GetGateway (r_Client R) ns name (st_world s) = (Inl e, w)"
    and "Reconcile R ns name s = ((res, err), s')"
  shows "st_filter s' = st_filter s \<and> res = noResult \<and> st_log s' = st_log s @ counted err \<and>
    err = (if e = NotFound then None else Some (Wrap [''fetching LLMBatchGateway''] [ErrApi e]))"
  using assms
  by (auto simp: Reconcile_def reconcile_def call_def counted_def split: prod.splits option.splits if_splits)

section \<open>Errors without a label of their own\<close>

definition plain :: "goerr \<Rightarrow> bool" where
  "plain e \<longleftrightarrow> as_ref e = None \<and> as_immutable e = None"

named_theorems plain_dest \<open>the errors of a function have no label of their own\<close>

lemma plain_simps [simp]:
  "plain (ErrApi a)" "plain (ErrExternal x)" "plain (ErrValidation v)" "plain (ErrNew m)"
  "plain (Wrap ctx es) \<longleftrightarrow> (\<forall>e \<in> set es. plain e)"
  by (auto simp: plain_def check_all_None)

lemma plain_errorReason: "plain e \<Longrightarrow> errorReason e = ''Other''"
  by (simp add: plain_def errorReason_def)

lemma plain_permanent: "permanentReason e = None \<longleftrightarrow> plain e"
  by (auto simp: plain_def permanentReason_def split: option.splits)

lemma plain_patch [plain_dest]: "patch_Apply K gw p s = (Some e, s') \<Longrightarrow> plain e"
  by (auto simp: patch_Apply_def split: sum.splits prod.splits)

lemma plain_recordFailure [plain_dest]: "recordFailure K gw f s = (Some e, s') \<Longrightarrow> plain e"
  by (auto simp: recordFailure_def Let_def split: prod.splits option.splits dest!: plain_dest)

lemma plain_decodeTemplate: "decodeTemplate post name steps objs = Inl e \<Longrightarrow> plain e"
  by (induction post name steps objs rule: decodeTemplate.induct) auto

lemma plain_decodeAll: "decodeAll lib post rendered objs = Inl e \<Longrightarrow> plain e"
  by (induction lib post rendered objs rule: decodeAll.induct)
    (auto split: if_splits sum.splits dest!: plain_decodeTemplate)

lemma plain_renderChart: "renderChart lib h gw vals post = Inl e \<Longrightarrow> plain e"
  by (auto simp: renderChart_def Let_def split: sum.splits dest!: plain_decodeAll)

lemma plain_failRender [plain_dest]:
  "failRender K gw chart e s = ((res, Some err), s') \<Longrightarrow> plain e \<Longrightarrow> plain err"
  by (auto simp: failRender_def Let_def split: prod.splits option.splits dest!: plain_dest)

lemma plain_renderAll [plain_dest]:
  "renderAll R gw n s = (Inl (res, Some err), s') \<Longrightarrow> plain err"
  by (auto simp: renderAll_def RenderBatchChart_def RenderAsyncChart_def
      split: prod.splits option.splits sum.splits dest!: plain_dest plain_renderChart)

lemma plain_applyObject [plain_dest]: "applyObject K obj s = (Inl e, s') \<Longrightarrow> plain e"
  by (auto simp: applyObject_def ServerSideApply_def split: sum.splits prod.splits)

lemma plain_applyObjects [plain_dest]: "applyObjects K gw objs s = (Inl e, s') \<Longrightarrow> plain e"
proof (induction objs arbitrary: s)
  case Nil
  then show ?case by simp
next
  case (Cons obj objs)
  have "map_sum id f x = Inl e \<longleftrightarrow> x = Inl e" for f :: "'a \<Rightarrow> 'b" and x :: "goerr + 'a"
    by (cases x) auto
  then have inl: "map_sum id f x = Inl e \<longleftrightarrow> x = Inl e"
    for f :: "Unstructured list \<Rightarrow> Unstructured list" and x
    by (cases x) auto
  from Cons show ?case
    by (auto simp: Let_def inl split: sum.splits prod.splits if_splits dest: plain_applyObject)
qed

lemma plain_deleteItems:
  "deleteItems K gw desired gvk items errs s = (errs', s') \<Longrightarrow> \<forall>e \<in> set errs. plain e \<Longrightarrow>
     \<forall>e \<in> set errs'. plain e"
proof (induction items arbitrary: errs s)
  case Nil
  then show ?case by simp
next
  case (Cons item items)
  obtain r t where c: "call (k_Delete K item) s = (r, t)" by fastforce
  let ?errs = "errs @ (if r \<in> {None, Some NotFound} then []
      else [Wrap [''deleting'', gvk_Kind gvk, u_Name item] [ErrApi (the r)]])"
  show ?case
  proof (cases "\<not> isControllerOwnedBy (u_OwnerReferences item) gw \<or> go_has desired
      \<lparr>rk_Group = gvk_Group gvk, rk_Kind = gvk_Kind gvk, rk_Name = u_Name item\<rparr>")
    case True
    with Cons.prems(1) have "deleteItems K gw desired gvk items errs s = (errs', s')"
      by (auto split: if_splits)
    then show ?thesis using Cons.IH Cons.prems(2) by blast
  next
    case False
    with Cons.prems(1) c
    have "deleteItems K gw desired gvk items ?errs (emit (Deleted item r) t) = (errs', s')"
      by (auto simp: Let_def split: option.splits if_splits)
    then show ?thesis by (rule Cons.IH) (use Cons.prems(2) in auto)
  qed
qed

lemma plain_deleteKinds:
  "deleteKinds K gw desired gvks errs s = (errs', s') \<Longrightarrow> \<forall>e \<in> set errs. plain e \<Longrightarrow>
     \<forall>e \<in> set errs'. plain e"
proof (induction gvks arbitrary: errs s)
  case Nil
  then show ?case by simp
next
  case (Cons gvk gvks)
  obtain r t where c: "call (k_ListObjects K (gvk_Group gvk) (gvk_Version gvk)
      (gvk_Kind gvk @ ''List'') (gw_Namespace gw)) s = (r, t)" by fastforce
  show ?case
  proof (cases r)
    case (Inl e)
    let ?errs = "errs @ (if e \<in> {NotFound, NoMatch} then [] else [Wrap [''listing'', gvk_Kind gvk] [ErrApi e]])"
    have "deleteKinds K gw desired gvks ?errs t = (errs', s')"
      using Cons.prems c Inl by (auto split: if_splits)
    then show ?thesis by (rule Cons.IH) (use Cons.prems(2) in auto)
  next
    case (Inr items)
    obtain errs1 t1 where d: "deleteItems K gw desired gvk items errs t = (errs1, t1)"
      by fastforce
    with Cons.prems c Inr have "deleteKinds K gw desired gvks errs1 t1 = (errs', s')" by simp
    then show ?thesis using Cons.IH plain_deleteItems [OF d] Cons.prems(2) by blast
  qed
qed

lemma plain_deleteOrphaned [plain_dest]:
  "deleteOrphanedResources K gw objs s = (Some e, s') \<Longrightarrow> plain e"
  by (auto simp: deleteOrphanedResources_def errorsJoin_def split: prod.splits if_splits
      dest!: plain_deleteKinds)

lemma plain_updateStatus [plain_dest]: "updateStatus K gw s = (Some e, s') \<Longrightarrow> plain e"
  by (auto simp: updateStatus_def publishStatus_def Let_def split: prod.splits sum.splits
      dest!: plain_patch)

lemma plain_reconcileObjects [plain_dest]:
  "reconcileObjects R gw objs s = ((res, Some e), s') \<Longrightarrow> plain e"
  by (auto simp: reconcileObjects_def split: prod.splits sum.splits option.splits dest!: plain_dest)

lemma plain_reconcileGateway: "reconcileGateway R gw s = ((res, Some e), s') \<Longrightarrow> plain e"
  by (auto simp: reconcileGateway_def plain_permanent split: prod.splits sum.splits option.splits
      dest!: plain_dest)

lemma plain_Reconcile:
  assumes "Reconcile R ns name s = ((res, Some e), s')"
  shows "plain e"
proof (cases "k_GetGateway (r_Client R) ns name (st_world s)")
  case (Pair r w)
  show ?thesis
  proof (cases r)
    case (Inl x)
    with Pair Reconcile_absent [OF _ assms] show ?thesis by (simp split: if_splits)
  next
    case (Inr gw)
    with Pair Reconcile_existing [OF _ assms] show ?thesis by (blast dest: plain_reconcileGateway)
  qed
qed

lemma counted_simps [simp]:
  "counted None = []" "counted (Some e) = [ErrorCounted (errorReason e)]"
  by (simp_all add: counted_def)

lemma counted_plain:
  assumes "Reconcile R ns name s = ((res, err), s')"
  shows "counted err = (if err = None then [] else [ErrorCounted ''Other''])"
proof (cases err)
  case (Some e)
  with plain_errorReason [OF plain_Reconcile] assms show ?thesis by simp
qed simp

lemma counted_only: "e \<in> set (counted err) \<Longrightarrow> \<exists>l. e = ErrorCounted l"
  by (cases err) simp_all

text \<open>Where the entries of each kind in a reconcile's log come from.\<close>

definition canApply ::
  "('w, 'c, 'rv) LLMBatchGatewayReconciler \<Rightarrow> LLMBatchGateway \<Rightarrow> 'w st \<Rightarrow> Unstructured list \<Rightarrow> bool" where
  "canApply R gw s objs \<longleftrightarrow> validateSpec (r_visit R) gw = None \<and>
     (\<exists>n. fst (resolveSecret (r_Client R) gw s) = Inr n \<and> renders R gw n objs)"

lemma no_writes:
  "list_all isReport es \<Longrightarrow> Applied x a \<notin> set es \<and> Deleted x a \<notin> set es"
  "list_all isSecretApply es \<Longrightarrow> Applied x a \<notin> set es \<and> Deleted x a \<notin> set es"
  by (auto simp: list_all_iff isSecretApply_def dest: bspec)

lemma Reconcile_objects:
  assumes "k_GetGateway (r_Client R) ns name (st_world s) = (Inr gw, w)"
    and "Reconcile R ns name s = ((res, err), s')"
    and "(\<exists>x a. Applied x a \<in> set (new_log s s')) \<or> (\<exists>x a. Deleted x a \<in> set (new_log s s')) \<or> res \<noteq> noResult"
  obtains objs sec t u where "canApply R gw (s\<lparr>st_world := w\<rparr>) objs"
    and "st_log t = st_log s @ sec" and "list_all isSecretApply sec"
    and "reconcileObjects R gw objs t = ((res, err), u)"
    and "st_log s' = st_log u @ counted err"
    and "t = trackSecret gw (snd (resolveSecret (r_Client R) gw (s\<lparr>st_world := w\<rparr>)))"
    and "st_world s' = st_world u"
proof -
  obtain u where u: "reconcileGateway R gw (s\<lparr>st_world := w\<rparr>) = ((res, err), u)"
    "st_log s' = st_log u @ counted err" "st_world s' = st_world u"
    using Reconcile_existing [OF assms(1,2)] by blast
  from u(1) show thesis
  proof (cases rule: reconcileGateway_cases)
    case (refused v)
    then obtain es where "st_log u = st_log s @ es" "list_all isReport es" by (auto simp: logs_def)
    with refused(3) assms(3) u(2) no_writes(1) [of es] show ?thesis
      by (auto dest!: counted_only)
  next
    case (unresolved e sec rep)
    with assms(3) u(2) no_writes(1) [of rep] no_writes(2) [of sec] show ?thesis
      by (auto dest!: counted_only)
  next
    case (unrendered n e sec rep)
    with assms(3) u(2) no_writes(1) [of rep] no_writes(2) [of sec] show ?thesis
      by (auto dest!: counted_only)
  next
    case (applied n sec t objs)
    then have "canApply R gw (s\<lparr>st_world := w\<rparr>) objs" by (auto simp: canApply_def)
    then show ?thesis
      by (rule that [of objs t sec u]) (use applied u in simp_all)
  qed
qed

lemma applications_none: "list_all (\<lambda>e. application e = []) es \<Longrightarrow> applications es = []"
  by (induction es) simp_all

lemma deletions_none: "list_all (\<lambda>e. deletion e = []) es \<Longrightarrow> deletions es = []"
  by (simp add: deletions_def list_all_iff)

lemma not_application:
  "isReport e \<Longrightarrow> application e = []" "isSecretApply e \<Longrightarrow> application e = []"
  "deletion e \<noteq> [] \<Longrightarrow> application e = []"
  by (cases e; simp add: isSecretApply_def)+

lemma not_deletion:
  "isReport e \<Longrightarrow> deletion e = []" "isSecretApply e \<Longrightarrow> deletion e = []"
  "isEvent e \<Longrightarrow> deletion e = []" "application e \<noteq> [] \<Longrightarrow> deletion e = []"
  by (cases e; simp add: isSecretApply_def)+

lemma applied_iff: "Applied x a \<in> set es \<longleftrightarrow> (x, a) \<in> set (applications es)"
proof -
  have "(x, a) \<in> set (application e) \<longleftrightarrow> e = Applied x a" for e by (cases e) auto
  then show ?thesis by (auto simp: applications_def)
qed

lemma deleted_iff: "Deleted x a \<in> set es \<longleftrightarrow> (x, a) \<in> set (deletions es)"
proof -
  have "(x, a) \<in> set (deletion e) \<longleftrightarrow> e = Deleted x a" for e by (cases e) auto
  then show ?thesis by (auto simp: deletions_def)
qed

text \<open>The applies and deletes of a reconcile are those of its second half.\<close>

lemma Reconcile_writes:
  assumes "k_GetGateway (r_Client R) ns name (st_world s) = (Inr gw, w)"
    and "Reconcile R ns name s = ((res, err), s')"
    and "(\<exists>x a. Applied x a \<in> set (new_log s s')) \<or> (\<exists>x a. Deleted x a \<in> set (new_log s s')) \<or> res \<noteq> noResult"
  obtains objs n t where "canApply R gw (s\<lparr>st_world := w\<rparr>) objs" and "n \<le> length objs"
    and "list_all2 (sent (r_Client R) gw) (take n objs) (map fst (applications (new_log s s')))"
    and "deletions (new_log s s') \<noteq> [] \<or> err = None \<Longrightarrow>
      n = length objs \<and> list_all tolerated (map snd (applications (new_log s s')))"
    and "deletions (new_log s s') \<noteq> [] \<Longrightarrow> \<exists>objs' t0.
      applyObjects (r_Client R) gw objs t = (Inr objs', t0) \<and>
      deletions (new_log s s')
        = deletions (new_log t0 (snd (deleteOrphanedResources (r_Client R) gw objs' t0)))"
    and "if err = None then res = \<lparr>ctrl_RequeueAfter = r_SyncPeriod R\<rparr> else res = noResult"
proof -
  obtain objs sec t u where o: "canApply R gw (s\<lparr>st_world := w\<rparr>) objs"
    "st_log t = st_log s @ sec" "list_all isSecretApply sec"
    "st_log s' = st_log u @ counted err" and rec: "reconcileObjects R gw objs t = ((res, err), u)"
    using Reconcile_objects [OF assms] by metis
  obtain app n del rep where p: "st_log u = st_log t @ app @ del @ rep" "n \<le> length objs"
    "list_all2 (sent (r_Client R) gw) (take n objs) (map fst (applications app))"
    "list_all (\<lambda>e. application e \<noteq> [] \<or> isEvent e) app" "list_all isReport rep"
    "del \<noteq> [] \<longrightarrow> (\<exists>objs' t0 u. applyObjects (r_Client R) gw objs t = (Inr objs', t0) \<and>
       del = new_log t0 u \<and> u = snd (deleteOrphanedResources (r_Client R) gw objs' t0))"
    "list_all (\<lambda>e. deletion e \<noteq> []) del"
    "del \<noteq> [] \<or> rep \<noteq> [] \<or> err = None \<longrightarrow> n = length objs \<and> \<not> list_ex isEvent app \<and>
         list_all tolerated (map snd (applications app))"
    "if err = None then res = \<lparr>ctrl_RequeueAfter = r_SyncPeriod R\<rparr> else res = noResult"
    using reconcileObjects_log [OF rec] by blast
  have log: "new_log s s' = sec @ app @ del @ rep @ counted err"
    using o(2,4) p(1) by simp
  have c: "list_all (\<lambda>e. application e = []) (counted err)" "list_all (\<lambda>e. deletion e = []) (counted err)"
    by (cases err; simp)+
  have "applications sec = []" "applications del = []" "applications rep = []" "applications (counted err) = []"
    using o(3) p(5,7) c by (auto intro!: applications_none simp: list_all_iff not_application)
  then have apps: "applications (new_log s s') = applications app" by (simp add: log)
  have "deletion e = []" if "e \<in> set app" for e
    using that p(4) not_deletion(3,4) [of e] by (auto simp: list_all_iff)
  then have "deletions sec = []" "deletions app = []" "deletions rep = []" "deletions (counted err) = []"
    using o(3) p(5) c by (auto intro!: deletions_none simp: list_all_iff not_deletion)
  then have dels: "deletions (new_log s s') = deletions del" by (simp add: log)
  then have ne: "deletions (new_log s s') \<noteq> [] \<Longrightarrow> del \<noteq> []" by (auto simp: deletions_def)
  show thesis
    by (rule that [of objs n t]) (use o(1) p ne in \<open>auto simp: apps dels\<close>)
qed

text \<open>\<open>SetControllerReference\<close> makes the gateway the controller of the object.\<close>

definition owner_lib :: "'w client \<Rightarrow> bool" where
  "owner_lib K \<longleftrightarrow>
     (\<forall>gw ns refs refs'. k_SetControllerReference K gw ns refs = Inr refs' \<longrightarrow>
        isControllerOwnedBy refs' gw)"

lemma publish_patches:
  "\<exists>g p v. publishStatus K gw cs t = patch_Apply K g p v \<and> (v = t \<or> (\<exists>e. v = emit e t))"
  unfolding publishStatus_def Let_def setComponentAvailableCondition_def case_prod_conv
  by (intro exI conjI, rule refl) auto

lemma publish_success:
  "publishStatus K gw cs t = (None, u) \<Longrightarrow> \<exists>es p. st_log u = st_log t @ es @ [StatusPatched p None]"
proof -
  assume eq: "publishStatus K gw cs t = (None, u)"
  obtain g p v where "publishStatus K gw cs t = patch_Apply K g p v"
    and v: "v = t \<or> (\<exists>e. v = emit e t)"
    using publish_patches by blast
  with eq have "patch_Apply K g p v = (None, u)" by simp
  from patch_Apply_log [OF this] v show ?thesis by auto
qed

lemma updateStatus_success:
  "updateStatus K gw s = (None, s') \<Longrightarrow> \<exists>es p. st_log s' = st_log s @ es @ [StatusPatched p None]"
  by (auto simp: updateStatus_def split: prod.splits sum.splits dest!: publish_success call_eq)

lemma reconcileObjects_success:
  assumes "reconcileObjects R gw objs s = ((res, None), s')"
  shows "\<exists>es p. st_log s' = st_log s @ es @ [StatusPatched p None]"
proof -
  obtain objs' t u where a: "applyObjects (r_Client R) gw objs s = (Inr objs', t)"
    and d: "deleteOrphanedResources (r_Client R) gw objs' t = (None, u)"
    and p: "updateStatus (r_Client R) gw u = (None, s')"
    using assms by (auto simp: reconcileObjects_def split: prod.splits sum.splits option.splits)
  obtain b where "st_log t = st_log s @ b" using applyObjects_log [OF a] by blast
  moreover obtain c where "st_log u = st_log t @ c"
    using deleteOrphaned_log [OF d] by (auto simp: logs_def)
  ultimately show ?thesis using updateStatus_success [OF p] by auto
qed

lemma filter_after:
  assumes "k_GetGateway (r_Client R) ns name (st_world s) = (Inr gw, w)"
    and "object_name a b"
  shows "filter_matches (st_filter (snd (Reconcile R ns name s))) a b \<longleftrightarrow>
    filter_matches (st_filter s) a b \<or>
    (validateSpec (r_visit R) gw = None \<and>
     (\<exists>n. fst (resolveSecret (r_Client R) gw (s\<lparr>st_world := w\<rparr>)) = Inr n) \<and>
     secretNamespace gw \<noteq> gw_Namespace gw \<and> a = secretNamespace gw \<and> b = secretName gw)"
proof -
  obtain res err s' where eq: "Reconcile R ns name s = ((res, err), s')" by (metis prod.collapse)
  obtain u where u: "reconcileGateway R gw (s\<lparr>st_world := w\<rparr>) = ((res, err), u)"
    "st_filter s' = st_filter u"
    using Reconcile_existing [OF assms(1) eq] by blast
  have track: "filter_matches (st_filter (trackSecret gw (s\<lparr>st_world := w\<rparr>))) a b \<longleftrightarrow>
      filter_matches (st_filter s) a b \<or>
      secretNamespace gw \<noteq> gw_Namespace gw \<and> a = secretNamespace gw \<and> b = secretName gw"
    using assms(2) by (auto simp: trackSecret_def Let_def secretNamespace_def swf.matches_add)
  from u(1) show ?thesis
  proof (cases rule: reconcileGateway_cases)
    case (refused v)
    then show ?thesis using u(2) eq by simp
  next
    case (unresolved e sec rep)
    then show ?thesis using u(2) eq by simp
  next
    case (unrendered n e sec rep)
    then show ?thesis using u(2) eq track by simp
  next
    case (applied n sec t objs)
    then show ?thesis using u(2) eq track reconcileObjects_log [OF applied(6)] by simp
  qed
qed

text \<open>An applied object is a rendered one, namespaced and owned.\<close>

lemma applied_owned:
  assumes "k_GetGateway (r_Client R) ns name (st_world s) = (Inr gw, w)"
    and "owner_lib (r_Client R)"
    and "Applied x a \<in> set (new_log s (snd (Reconcile R ns name s)))"
  shows "u_Namespace x = gw_Namespace gw \<and> isControllerOwnedBy (u_OwnerReferences x) gw \<and>
    (\<exists>objs obj. canApply R gw (s\<lparr>st_world := w\<rparr>) objs \<and> obj \<in> set objs \<and>
       identity x = identity obj \<and> u_Labels x = u_Labels obj \<and> u_Content x = u_Content obj)"
proof -
  obtain res err s' where eq: "Reconcile R ns name s = ((res, err), s')" by (metis prod.collapse)
  with assms(3) have x: "Applied x a \<in> set (new_log s s')" by simp
  then obtain objs n where c: "canApply R gw (s\<lparr>st_world := w\<rparr>) objs"
    and l: "list_all2 (sent (r_Client R) gw) (take n objs) (map fst (applications (new_log s s')))"
    using Reconcile_writes [OF assms(1) eq] by metis
  from x have "x \<in> set (map fst (applications (new_log s s')))" by (force simp: applied_iff)
  with l obtain obj where "obj \<in> set (take n objs)" and "sent (r_Client R) gw obj x"
    by (metis in_set_conv_nth list_all2_conv_all_nth)
  then have "obj \<in> set objs" "identity x = identity obj" "u_Labels x = u_Labels obj"
    "u_Content x = u_Content obj" "u_Namespace x = gw_Namespace gw"
    "isControllerOwnedBy (u_OwnerReferences x) gw"
    using assms(2) by (auto simp: sent_def identity_def owner_lib_def dest: in_set_takeD)
  with c show ?thesis by blast
qed

section \<open>Properties\<close>

text \<open>
  C1: everything a reconcile applies comes from an accepted spec whose Secret was resolved: it
  is a rendered object, content and labels unchanged, put into the gateway's namespace and
  under the gateway's control.
\<close>

theorem applied_objects_rendered_and_owned:
  assumes "k_GetGateway (r_Client R) ns name (st_world s) = (Inr gw, w)"
    and "owner_lib (r_Client R)"
    and "Applied x a \<in> set (new_log s (snd (Reconcile R ns name s)))"
  shows "u_Namespace x = gw_Namespace gw \<and> isControllerOwnedBy (u_OwnerReferences x) gw \<and>
    (\<exists>objs obj. canApply R gw (s\<lparr>st_world := w\<rparr>) objs \<and> obj \<in> set objs \<and>
       identity x = identity obj \<and> u_Labels x = u_Labels obj \<and> u_Content x = u_Content obj)"
  using assms by (rule applied_owned)

text \<open>
  C5: a reconcile deletes only after it has applied every rendered object, each with success or
  because its API is not installed; a failed apply never leads to a deletion.
\<close>

theorem deletes_only_after_all_applies:
  assumes "k_GetGateway (r_Client R) ns name (st_world s) = (Inr gw, w)"
    and "Deleted x a \<in> set (new_log s (snd (Reconcile R ns name s)))"
  shows "\<exists>objs. canApply R gw (s\<lparr>st_world := w\<rparr>) objs \<and>
    list_all2 (sent (r_Client R) gw) objs
      (map fst (applications (new_log s (snd (Reconcile R ns name s))))) \<and>
    list_all tolerated (map snd (applications (new_log s (snd (Reconcile R ns name s)))))"
proof -
  obtain res err s' where eq: "Reconcile R ns name s = ((res, err), s')" by (metis prod.collapse)
  with assms(2) have x: "Deleted x a \<in> set (new_log s s')" by simp
  then have "deletions (new_log s s') \<noteq> []" by (auto simp: deleted_iff)
  with x show ?thesis
    by (auto intro: Reconcile_writes [OF assms(1) eq] simp: eq)
qed

text \<open>
  C4: when the server answers an apply with the object's own identity and a list with what it
  was asked for, no reconcile deletes an object of a group, kind and name that it applied.
\<close>

theorem applied_objects_never_deleted:
  assumes "k_GetGateway (r_Client R) ns name (st_world s) = (Inr gw, w)"
    and "echoes_identity (r_Client R)" and "lists_what_is_asked (r_Client R)"
    and "Deleted x a \<in> set (new_log s (snd (Reconcile R ns name s)))"
    and "Applied y b \<in> set (new_log s (snd (Reconcile R ns name s)))"
  shows "identity x \<noteq> identity y"
proof -
  obtain res err s' where eq: "Reconcile R ns name s = ((res, err), s')" by (metis prod.collapse)
  with assms(4,5) have x: "Deleted x a \<in> set (new_log s s')" and y: "Applied y b \<in> set (new_log s s')"
    by simp_all
  have del: "deletions (new_log s s') \<noteq> []" using x by (auto simp: deleted_iff)
  obtain objs n t where
    l: "list_all2 (sent (r_Client R) gw) (take n objs) (map fst (applications (new_log s s')))"
    and d: "\<exists>objs' t0. applyObjects (r_Client R) gw objs t = (Inr objs', t0) \<and>
      deletions (new_log s s')
        = deletions (new_log t0 (snd (deleteOrphanedResources (r_Client R) gw objs' t0)))"
    using Reconcile_writes [OF assms(1) eq] x del by metis
  from y have "y \<in> set (map fst (applications (new_log s s')))" by (force simp: applied_iff)
  with l obtain obj where obj: "obj \<in> set (take n objs)" and "sent (r_Client R) gw obj y"
    by (metis in_set_conv_nth list_all2_conv_all_nth)
  then have id: "identity y = identity obj" by (auto simp: sent_def identity_def)
  obtain objs' t0 where ap: "applyObjects (r_Client R) gw objs t = (Inr objs', t0)"
    and "Deleted x a \<in> set (new_log t0 (snd (deleteOrphanedResources (r_Client R) gw objs' t0)))"
    using d x by (auto simp: deleted_iff)
  from deletion_safe [OF assms(3) this(2)]
  have "identity x \<notin> set (map identity objs')" by (simp add: hasKey_identity) (simp add: identity_def)
  moreover have "map identity objs' = map identity objs"
    by (rule applyObjects_identity [OF assms(2) ap])
  ultimately show ?thesis using id obj by (auto dest: in_set_takeD)
qed

text \<open>
  C16: a reconcile that asks for the periodic requeue has completed: accepted spec, resolved
  Secret, every rendered object applied or its API missing, and as its last step a status patch
  that the server accepted; it asks for the sync period.
\<close>

theorem requeue_means_complete:
  assumes "k_GetGateway (r_Client R) ns name (st_world s) = (Inr gw, w)"
    and "fst (fst (Reconcile R ns name s)) \<noteq> noResult"
  shows "fst (Reconcile R ns name s) = (\<lparr>ctrl_RequeueAfter = r_SyncPeriod R\<rparr>, None) \<and>
    (\<exists>objs. canApply R gw (s\<lparr>st_world := w\<rparr>) objs \<and>
       list_all2 (sent (r_Client R) gw) objs
         (map fst (applications (new_log s (snd (Reconcile R ns name s))))) \<and>
       list_all tolerated (map snd (applications (new_log s (snd (Reconcile R ns name s)))))) \<and>
    (\<exists>es p. new_log s (snd (Reconcile R ns name s)) = es @ [StatusPatched p None])"
proof -
  obtain res err s' where eq: "Reconcile R ns name s = ((res, err), s')" by (metis prod.collapse)
  with assms(2) have res: "res \<noteq> noResult" by simp
  obtain objs n where w: "canApply R gw (s\<lparr>st_world := w\<rparr>) objs"
    "list_all2 (sent (r_Client R) gw) (take n objs) (map fst (applications (new_log s s')))"
    "err = None \<Longrightarrow> n = length objs \<and> list_all tolerated (map snd (applications (new_log s s')))"
    "if err = None then res = \<lparr>ctrl_RequeueAfter = r_SyncPeriod R\<rparr> else res = noResult"
    using Reconcile_writes [OF assms(1) eq] res by metis
  then have err: "err = None" using res by (auto split: if_splits)
  obtain objs1 sec t u where o: "st_log t = st_log s @ sec"
    "reconcileObjects R gw objs1 t = ((res, err), u)" "st_log s' = st_log u @ counted err"
    using Reconcile_objects [OF assms(1) eq] res by metis
  from reconcileObjects_success [OF o(2) [unfolded err]] o(1,3) err
  have "\<exists>es p. new_log s s' = es @ [StatusPatched p None]" by force
  with w err eq show ?thesis by auto
qed

text \<open>
  C22: a spec that breaks the rules is reported and nothing else happens. The log is, in this
  order, one warning event \<open>ValidationFailed\<close> with the rule that is broken, one status patch in
  which all five conditions are False with that reason, unless it cannot be marshalled, and the
  count of the error if there is one; so no object or Secret is written and nothing is deleted.
  No Secret is tracked and no requeue is asked for, and the reconcile fails exactly when the
  server has not accepted the patch.
\<close>

theorem invalid_spec_only_reported:
  assumes "k_GetGateway (r_Client R) ns name (st_world s) = (Inr gw, w)"
    and "wf_gateway gw" and "set (r_visit R (gwModels gw)) = set (gwModels gw)"
    and "\<not> valid_spec gw" and "condition_lib (r_Client R)"
    and "Reconcile R ns name s = ((res, err), s')"
  shows "\<exists>v report. validateSpec (r_visit R) gw = Some v \<and>
    failureReported (r_Client R) gw ''ValidationFailed''
      (MsgError [''Spec validation failed''] (ErrValidation v)) allConditionTypes w report (err = None) \<and>
    new_log s s' = report @ (if err = None then [] else [ErrorCounted ''Other'']) \<and>
    res = noResult \<and> st_filter s' = st_filter s"
proof -
  obtain v where v: "validateSpec (r_visit R) gw = Some v"
    using validateSpec_None [OF assms(2), of "r_visit R"] assms(3,4) by auto
  obtain u where u: "reconcileGateway R gw (s\<lparr>st_world := w\<rparr>) = ((res, err), u)"
    "st_log s' = st_log u @ counted err" "st_filter s' = st_filter u"
    using Reconcile_existing [OF assms(1,6)] by blast
  let ?f = "\<lparr>sf_reason = ''ValidationFailed'',
      sf_message = MsgError [''Spec validation failed''] (ErrValidation v),
      sf_conditions = allConditionTypes\<rparr>"
  from u(1) v have rec: "recordFailure (r_Client R) gw ?f (s\<lparr>st_world := w\<rparr>) = (err, u)"
    and res: "res = noResult"
    by (auto simp: reconcileGateway_def split: prod.splits)
  from recordFailure_frame [OF rec] obtain es where es: "st_log u = st_log s @ es"
    and filt: "st_filter u = st_filter s"
    by (auto simp: logs_def)
  have "new_log (s\<lparr>st_world := w\<rparr>) u = es" "new_log s s' = es @ counted err"
    using es u(2) by simp_all
  with recordFailure_reports [OF assms(5) rec] v res u(3) filt counted_plain [OF assms(6)]
  show ?thesis by (intro exI [of _ v] exI [of _ es]) simp
qed

text \<open>
  The watch filter grows by exactly one key when an accepted gateway's Secret of another
  namespace has been resolved, and is otherwise left as it is; no reconcile forgets a Secret.
\<close>

lemma filter_tracks_resolved_secrets:
  assumes "k_GetGateway (r_Client R) ns name (st_world s) = (Inr gw, w)"
    and "object_name a b"
  shows "filter_matches (st_filter (snd (Reconcile R ns name s))) a b \<longleftrightarrow>
    filter_matches (st_filter s) a b \<or>
    (validateSpec (r_visit R) gw = None \<and>
     (\<exists>n. fst (resolveSecret (r_Client R) gw (s\<lparr>st_world := w\<rparr>)) = Inr n) \<and>
     secretNamespace gw \<noteq> gw_Namespace gw \<and> a = secretNamespace gw \<and> b = secretName gw)"
  using assms by (rule filter_after)

text \<open>
  Every error a reconcile returns has the metric label \<open>Other\<close>: the two labels for a
  reference that is not permitted and for a changed reference are never counted, since those
  errors end in the status and not in the result.
\<close>

lemma error_metric_is_other:
  assumes "fst (Reconcile R ns name s) = (res, Some e)"
  shows "errorReason e = ''Other''"
proof -
  obtain s' where "Reconcile R ns name s = ((res, Some e), s')"
    using assms by (metis prod.collapse)
  then show ?thesis by (rule plain_errorReason [OF plain_Reconcile])
qed

text \<open>
  C33: a reference that no grant permits, or that was changed, is reported on the Ready
  condition, and on no other, with the reason of its own: after what the resolution wrote, the
  log is the warning event, the status patch with Ready False and that reason, unless it cannot
  be marshalled, and the count of the error if there is one. No object is applied or deleted.
  The reconcile asks for no requeue and returns an error, on which it would be retried, only
  when the server has not accepted the patch.
\<close>

theorem permanent_errors_not_retried:
  assumes "k_GetGateway (r_Client R) ns name (st_world s) = (Inr gw, w)"
    and "validateSpec (r_visit R) gw = None"
    and "resolveSecret (r_Client R) gw (s\<lparr>st_world := w\<rparr>) = (Inl e, t)"
    and "as_ref e \<noteq> None \<or> as_immutable e \<noteq> None" and "condition_lib (r_Client R)"
    and "Reconcile R ns name s = ((res, err), s')"
  shows "\<exists>report. failureReported (r_Client R) gw
      (if as_ref e \<noteq> None then ''ReferenceNotPermitted'' else ''SecretRefImmutable'')
      (MsgError [] e) [''Ready''] (st_world t) report (err = None) \<and>
    new_log s s' = new_log s t @ report @ (if err = None then [] else [ErrorCounted ''Other'']) \<and>
    applications (new_log s s') = [] \<and> deletions (new_log s s') = [] \<and> res = noResult"
proof -
  let ?reason = "if as_ref e \<noteq> None then ''ReferenceNotPermitted'' else ''SecretRefImmutable''"
  have reason: "permanentReason e = Some ?reason"
    using assms(4) by (auto simp: permanentReason_def reasonReferenceNotPermitted_def
        reasonSecretRefImmutable_def split: option.split)
  obtain u where u: "reconcileGateway R gw (s\<lparr>st_world := w\<rparr>) = ((res, err), u)"
    "st_log s' = st_log u @ counted err"
    using Reconcile_existing [OF assms(1,6)] by blast
  let ?f = "\<lparr>sf_reason = ?reason, sf_message = MsgError [] e, sf_conditions = [conditionReady]\<rparr>"
  from u(1) assms(2,3) reason have rec: "recordFailure (r_Client R) gw ?f t = (err, u)"
    and res: "res = noResult"
    by (auto simp: reconcileGateway_def split: prod.splits)
  obtain sec where sec: "st_log t = st_log s @ sec" "list_all isSecretApply sec"
    using resolve_logs [OF assms(3)] by (auto simp: logs_def)
  from recordFailure_frame [OF rec] obtain es where es: "st_log u = st_log t @ es" "list_all isReport es"
    by (auto simp: logs_def)
  have log: "new_log s s' = sec @ es @ counted err" "new_log s t = sec" "new_log t u = es"
    using sec(1) es(1) u(2) by simp_all
  have "applications (new_log s s') = []" "deletions (new_log s s') = []"
    using sec(2) es(2) by (auto simp: log list_all_iff not_application not_deletion
        intro!: applications_none deletions_none dest!: counted_only)
  with recordFailure_reports [OF assms(5) rec] log res counted_plain [OF assms(6)]
  show ?thesis by (intro exI [of _ es]) (simp add: conditionReady_def)
qed

text \<open>
  A gateway that is gone ends the reconcile with nothing done; any other failure to read it
  is counted and returned, so that the request is retried.
\<close>

lemma absent_gateway:
  assumes "k_GetGateway (r_Client R) ns name (st_world s) = (Inl e, w)"
  shows "if e = NotFound
    then fst (Reconcile R ns name s) = (noResult, None) \<and> new_log s (snd (Reconcile R ns name s)) = []
    else (\<exists>err. fst (Reconcile R ns name s) = (noResult, Some err) \<and>
            new_log s (snd (Reconcile R ns name s)) = [ErrorCounted ''Other''])"
proof -
  obtain res err s' where eq: "Reconcile R ns name s = ((res, err), s')" by (metis prod.collapse)
  from Reconcile_absent [OF assms eq] show ?thesis
    by (auto simp: eq plain_errorReason)
qed

end
