(* ===== verification/Runs.thy ===== *)
theory Runs
  imports Reconcile
begin

text \<open>
  The reconciler run on the sample server: a complete pass, an invalid spec, a resolved and a
  changed reference, a missing renderer and a missing gateway. They are the witnesses of the
  properties of \<open>Reconcile\<close>.
\<close>

section \<open>A run\<close>

definition sampleReconciler :: "(cluster, unit, unit) LLMBatchGatewayReconciler" where
  "sampleReconciler = fst (NewLLMBatchGatewayReconciler clusterClient sampleRenderer
     (Some sampleRenderer) 300 60 sampleLib (\<lambda>_. None) id)"

definition runState :: "cluster st" where
  "runState = startState (sampleCluster [redisGateway] [] [oldObject])"

lemma sampleReconciler_simps [simp]:
  "r_Client sampleReconciler = clusterClient" "r_visit sampleReconciler = id"
  "r_BatchGWHelmRenderer sampleReconciler = sampleRenderer"
  "r_AsyncHelmRenderer sampleReconciler = Some sampleRenderer" "r_helm sampleReconciler = sampleLib"
  "r_SyncPeriod sampleReconciler = 300"
  by (simp_all add: sampleReconciler_def NewLLMBatchGatewayReconciler_def)

lemma cluster_get:
  "gw_Namespace gw = ns \<Longrightarrow> gw_Name gw = name \<Longrightarrow>
   k_GetGateway clusterClient ns name (sampleCluster [gw] secrets objs)
     = (Inr gw, sampleCluster [gw] secrets objs)"
  by (simp add: clusterClient_def sampleCluster_def found_def)

lemma cluster_get_run:
  "k_GetGateway (r_Client sampleReconciler) ''apps'' ''gw'' (st_world runState)
     = (Inr redisGateway, st_world runState)"
  by (simp add: runState_def cluster_get)

lemma accepted_redis [simp]: "validateSpec id redisGateway = None"
  by (simp add: validateSpec_None)

lemma accepted_sql [simp]: "validateSpec id sqlGateway = None"
  by (simp add: validateSpec_None)

lemma sample_batch_render:
  "RenderBatchChart sampleLib sampleRenderer gw s = Inr [sampleObject ''d'']"
  by (simp add: RenderBatchChart_def renderChart_def sampleLib_def Let_def baseName_def)

lemma cluster_owner [simp]: "owner_lib clusterClient"
  by (auto simp: owner_lib_def clusterClient_def setControllerRef_def isControllerOwnedBy_def
      controllerRef_def split: if_splits)

lemma cluster_echoes [simp]: "echoes_identity clusterClient"
  by (simp add: echoes_identity_def clusterClient_def)

lemma run_objects:
  "Reconcile sampleReconciler ''apps'' ''gw'' runState =
     (case reconcileObjects sampleReconciler redisGateway
        [sampleObject ''d'', labelAsyncComponent (sampleObject ''d'')] runState of
        ((result, err), s) \<Rightarrow>
          ((result, err), case err of None \<Rightarrow> s | Some e \<Rightarrow> emit (ErrorCounted (errorReason e)) s))"
proof -
  have "secretNamespace redisGateway = gw_Namespace redisGateway"
    by (simp add: secretNamespace_def)
  moreover have "trackSecret redisGateway s = s" for s :: "cluster st"
    by (simp add: trackSecret_def)
  moreover have "call (k_GetGateway clusterClient ''apps'' ''gw'') runState = (Inr redisGateway, runState)"
    using cluster_get_run by (simp add: call_def)
  ultimately show ?thesis
    by (simp add: Reconcile_def reconcile_def reconcileGateway_def resolve_same_namespace
        renderAll_def sample_batch_render sample_async_render)
qed

lemma run_second_half:
  "case reconcileObjects sampleReconciler redisGateway
        [sampleObject ''d'', labelAsyncComponent (sampleObject ''d'')] runState of
     ((result, err), s) \<Rightarrow> result = \<lparr>ctrl_RequeueAfter = 300\<rparr> \<and> err = None \<and>
       map (\<lambda>(x, a). (u_Name x, a)) (applications (st_log s)) = [(''d'', None), (''d'', None)] \<and>
       deletions (st_log s) = [(oldObject, None)]"
  by code_simp

lemma run_results:
  "fst (Reconcile sampleReconciler ''apps'' ''gw'' runState) = (\<lparr>ctrl_RequeueAfter = 300\<rparr>, None)"
  "Deleted oldObject None \<in> set (new_log runState (snd (Reconcile sampleReconciler ''apps'' ''gw'' runState)))"
  "\<exists>x. u_Name x = ''d'' \<and>
     Applied x None \<in> set (new_log runState (snd (Reconcile sampleReconciler ''apps'' ''gw'' runState)))"
proof -
  obtain res err s' where eq: "reconcileObjects sampleReconciler redisGateway
      [sampleObject ''d'', labelAsyncComponent (sampleObject ''d'')] runState = ((res, err), s')"
    by (metis prod.collapse)
  have log: "new_log runState t = st_log t" for t :: "cluster st"
    by (simp add: new_log_def runState_def)
  note run = run_second_half [unfolded eq prod.case]
  have "(''d'', None) \<in> set (map (\<lambda>(x, a). (u_Name x, a)) (applications (st_log s')))"
    using run by simp
  then show "\<exists>x. u_Name x = ''d'' \<and>
     Applied x None \<in> set (new_log runState (snd (Reconcile sampleReconciler ''apps'' ''gw'' runState)))"
    using run by (auto simp: run_objects eq log applied_iff)
  show "fst (Reconcile sampleReconciler ''apps'' ''gw'' runState) = (\<lparr>ctrl_RequeueAfter = 300\<rparr>, None)"
    using run by (simp add: run_objects eq)
  show "Deleted oldObject None
      \<in> set (new_log runState (snd (Reconcile sampleReconciler ''apps'' ''gw'' runState)))"
    using run by (simp add: run_objects eq log deleted_iff)
qed

theorem applied_objects_rendered_and_owned_witness:
  "\<exists>x. Applied x None \<in> set (new_log runState (snd (Reconcile sampleReconciler ''apps'' ''gw'' runState))) \<and>
     u_Namespace x = ''apps'' \<and> isControllerOwnedBy (u_OwnerReferences x) redisGateway"
proof -
  obtain x where x: "Applied x None \<in> set (new_log runState
      (snd (Reconcile sampleReconciler ''apps'' ''gw'' runState)))"
    using run_results(3) by blast
  have "owner_lib (r_Client sampleReconciler)" by simp
  from applied_objects_rendered_and_owned [OF cluster_get_run this x] x show ?thesis by auto
qed

theorem deletes_only_after_all_applies_witness:
  "list_all tolerated (map snd (applications
     (new_log runState (snd (Reconcile sampleReconciler ''apps'' ''gw'' runState)))))"
  using deletes_only_after_all_applies [OF cluster_get_run run_results(2)] by blast

theorem applied_objects_never_deleted_witness:
  "\<exists>y b. Applied y b \<in> set (new_log runState (snd (Reconcile sampleReconciler ''apps'' ''gw'' runState))) \<and>
     Deleted oldObject None
       \<in> set (new_log runState (snd (Reconcile sampleReconciler ''apps'' ''gw'' runState))) \<and>
     identity oldObject \<noteq> identity y"
proof -
  obtain y where y: "Applied y None \<in> set (new_log runState
      (snd (Reconcile sampleReconciler ''apps'' ''gw'' runState)))"
    using run_results(3) by blast
  have "echoes_identity (r_Client sampleReconciler)" "lists_what_is_asked (r_Client sampleReconciler)"
    by simp_all
  from applied_objects_never_deleted [OF cluster_get_run this run_results(2) y] y run_results(2)
  show ?thesis by blast
qed

theorem requeue_means_complete_witness:
  "\<exists>es p. new_log runState (snd (Reconcile sampleReconciler ''apps'' ''gw'' runState))
     = es @ [StatusPatched p None]"
proof -
  have "fst (fst (Reconcile sampleReconciler ''apps'' ''gw'' runState)) \<noteq> noResult"
    by (simp add: run_results(1) noResult_def)
  from requeue_means_complete [OF cluster_get_run this] show ?thesis by blast
qed

definition invalidGateway :: LLMBatchGateway where
  "invalidGateway = sampleGateway (sampleSpec [] (Some (sampleAsync (Some sampleRedis) None)) '''')"

definition invalidState :: "cluster st" where
  "invalidState = startState (sampleCluster [invalidGateway] [] [])"

lemma invalidGateway_simps:
  "wf_gateway invalidGateway" "gwModels invalidGateway = []" "\<not> valid_spec invalidGateway"
  by (simp_all add: invalidGateway_def sampleGateway_def sampleSpec_def wf_gateway_def wf_map_def
      sampleAsync_def sampleRedis_def valid_spec_def)

theorem invalid_spec_only_reported_witness:
  "\<exists>m rest. new_log invalidState (snd (Reconcile sampleReconciler ''apps'' ''gw'' invalidState))
     = Event EventWarning ''ValidationFailed'' m # rest"
proof -
  obtain res err s' where eq: "Reconcile sampleReconciler ''apps'' ''gw'' invalidState = ((res, err), s')"
    by (metis prod.collapse)
  have get: "k_GetGateway (r_Client sampleReconciler) ''apps'' ''gw'' (st_world invalidState)
      = (Inr invalidGateway, st_world invalidState)"
    by (simp add: invalidState_def cluster_get invalidGateway_def)
  have visit: "set (r_visit sampleReconciler (gwModels invalidGateway)) = set (gwModels invalidGateway)"
    by simp
  have "condition_lib (r_Client sampleReconciler)" by simp
  from invalid_spec_only_reported [OF get invalidGateway_simps(1) visit invalidGateway_simps(3) this eq]
  show ?thesis by (auto simp: eq elim!: reported_event)
qed

definition sqlState :: "Secret list \<Rightarrow> cluster st" where
  "sqlState copies = startState (sampleCluster [sqlGateway] (vaultSecret # copies) [])"

lemma cluster_get_sql:
  "k_GetGateway (r_Client sampleReconciler) ''apps'' ''gw'' (st_world (sqlState copies))
     = (Inr sqlGateway, st_world (sqlState copies))"
  by (simp add: sqlState_def cluster_get)

lemma filter_tracks_resolved_secrets_example:
  "filter_matches (st_filter (snd (Reconcile sampleReconciler ''apps'' ''gw'' (sqlState []))))
     ''vault'' ''creds''"
proof -
  have "st_world (sqlState []) = sampleCluster [sqlGateway] [vaultSecret] []"
    by (simp add: sqlState_def)
  from sample_resolve [OF this]
  have "fst (resolveSecret clusterClient sqlGateway (sqlState []\<lparr>st_world := st_world (sqlState [])\<rparr>))
      = Inr ''gw-credentials''"
    by simp
  then show ?thesis
    using filter_tracks_resolved_secrets [OF cluster_get_sql [of "[]"], of "''vault''" "''creds''"]
    by (simp add: object_name_def sample_resolution(1))
qed

definition noAsyncReconciler :: "(cluster, unit, unit) LLMBatchGatewayReconciler" where
  "noAsyncReconciler = sampleReconciler\<lparr>r_AsyncHelmRenderer := None\<rparr>"

lemma error_metric_is_other_example:
  "\<exists>e. fst (Reconcile noAsyncReconciler ''apps'' ''gw'' runState) = (noResult, Some e) \<and>
     errorReason e = ''Other''"
proof -
  let ?e = "ErrNew ''async dispatch requires an async helm renderer, but none was configured''"
  have "secretNamespace redisGateway = gw_Namespace redisGateway"
    by (simp add: secretNamespace_def)
  moreover have "call (k_GetGateway clusterClient ''apps'' ''gw'') runState = (Inr redisGateway, runState)"
    using cluster_get_run by (simp add: call_def)
  ultimately have "fst (Reconcile noAsyncReconciler ''apps'' ''gw'' runState) = (noResult, Some ?e)"
    by (simp add: Reconcile_def reconcile_def reconcileGateway_def resolve_same_namespace
        renderAll_def sample_batch_render noAsyncReconciler_def)
  with error_metric_is_other [OF this] show ?thesis by blast
qed

theorem permanent_errors_not_retried_witness:
  "deletions (new_log (sqlState [foreignCopy])
     (snd (Reconcile sampleReconciler ''apps'' ''gw'' (sqlState [foreignCopy])))) = [] \<and>
   (\<exists>m. Event EventWarning ''SecretRefImmutable'' m \<in> set (new_log (sqlState [foreignCopy])
     (snd (Reconcile sampleReconciler ''apps'' ''gw'' (sqlState [foreignCopy])))))"
proof -
  let ?e = "ErrImmutable \<lparr>sri_OldRef = ''vault/other'', sri_NewRef = ''vault/creds''\<rparr>"
  obtain res err s' where eq: "Reconcile sampleReconciler ''apps'' ''gw'' (sqlState [foreignCopy]) = ((res, err), s')"
    by (metis prod.collapse)
  have v: "validateSpec (r_visit sampleReconciler) sqlGateway = None" by simp
  have ns: "secretNamespace sqlGateway \<noteq> gw_Namespace sqlGateway" by (simp add: sample_resolution(1))
  have ans: "secretAnswers clusterClient sqlGateway (st_world (sqlState [foreignCopy]))
      = (Inr foreignCopy, Inr [appsGrant], Inr vaultSecret)"
    by (simp add: sqlState_def sample_answers)
  obtain t where "resolveSecret clusterClient sqlGateway (sqlState [foreignCopy]) = (Inl ?e, t)"
    by (rule resolve_cross [OF ns ans])
      (simp add: checkSecretRefImmutable_def sample_answers(3) sample_resolution(3) Let_def)
  then have r: "resolveSecret (r_Client sampleReconciler) sqlGateway
      (sqlState [foreignCopy]\<lparr>st_world := st_world (sqlState [foreignCopy])\<rparr>) = (Inl ?e, t)"
    by simp
  have "as_ref ?e \<noteq> None \<or> as_immutable ?e \<noteq> None" "condition_lib (r_Client sampleReconciler)" by simp_all
  from permanent_errors_not_retried [OF cluster_get_sql v r this eq] show ?thesis
    by (auto simp: eq elim!: reported_event)
qed

lemma absent_gateway_example:
  "fst (Reconcile sampleReconciler ''apps'' ''other'' runState) = (noResult, None)"
proof -
  have "k_GetGateway (r_Client sampleReconciler) ''apps'' ''other'' (st_world runState)
      = (Inl NotFound, st_world runState)"
    by (simp add: runState_def sampleCluster_def clusterClient_def found_def)
  from absent_gateway [OF this] show ?thesis by simp
qed

end
