(* ===== verification/Watches.thy ===== *)
theory Watches
  imports Runs
begin

text \<open>
  What wakes the controller: \<open>SetupWithManager\<close> and \<open>isCRDInstalled\<close> of
  \<open>llmbatchgateway_controller.go\<close> (lines 491-595) and \<open>IsCRDInstalled\<close> of
  \<open>internal/utils/utils.go\<close>. The scheme and the REST mapper are parameters.
\<close>

section \<open>Event to requests\<close>

definition requestFor :: "LLMBatchGateway \<Rightarrow> nsname" where
  "requestFor gw = (gw_Namespace gw, gw_Name gw)"

fun secretRequests :: "LLMBatchGateway list \<Rightarrow> nsname \<Rightarrow> nsname list" where
  "secretRequests [] obj = []"
| "secretRequests (gw # gws) obj =
     (let ref = spec_SecretRef (gw_Spec gw)
      in if ref_Namespace ref = fst obj \<and> ref_Name ref = snd obj
         then requestFor gw # secretRequests gws obj else secretRequests gws obj)"

text \<open>A list error is logged and gives no requests.\<close>

definition enqueueForSecret :: "'w client \<Rightarrow> nsname \<Rightarrow> 'w st \<Rightarrow> nsname list \<times> 'w st" where
  "enqueueForSecret K obj s =
     (case call (k_ListGateways K) s of
        (Inl e, s) \<Rightarrow> ([], s)
      | (Inr gws, s) \<Rightarrow> (secretRequests gws obj, s))"

fun grantRequests :: "LLMBatchGateway list \<Rightarrow> nsname \<Rightarrow> nsname list" where
  "grantRequests [] obj = []"
| "grantRequests (gw # gws) obj =
     (let refNS = ref_Namespace (spec_SecretRef (gw_Spec gw))
      in if refNS = fst obj then requestFor gw # grantRequests gws obj else grantRequests gws obj)"

definition enqueueForReferenceGrant :: "'w client \<Rightarrow> nsname \<Rightarrow> 'w st \<Rightarrow> nsname list \<times> 'w st" where
  "enqueueForReferenceGrant K obj s =
     (case call (k_ListGateways K) s of
        (Inl e, s) \<Rightarrow> ([], s)
      | (Inr gws, s) \<Rightarrow> (grantRequests gws obj, s))"

section \<open>What is watched\<close>

text \<open>The Go types of the objects \<open>SetupWithManager\<close> names.\<close>

datatype go_type =
    T_LLMBatchGateway | T_Deployment | T_StatefulSet | T_Service | T_ConfigMap | T_ServiceAccount
  | T_Role | T_RoleBinding | T_Secret | T_HTTPRoute | T_Certificate | T_ServiceMonitor
  | T_PodMonitor | T_PrometheusRule | T_ReferenceGrant

text \<open>
  \<open>ObjectKinds\<close> answers the kinds a scheme knows for a type, or an error;
  \<open>RESTMapping\<close> whether the server knows a group, kind and version.
\<close>

record kind_env =
  ke_ObjectKinds :: "go_type \<Rightarrow> string + GroupVersionKind list"
  ke_RESTMapping :: "string \<Rightarrow> string \<Rightarrow> string \<Rightarrow> bool"

definition isCRDInstalled :: "kind_env \<Rightarrow> go_type \<Rightarrow> bool" where
  "isCRDInstalled env obj =
     (case ke_ObjectKinds env obj of
        Inl _ \<Rightarrow> False
      | Inr [] \<Rightarrow> False
      | Inr (gvk # _) \<Rightarrow> ke_RESTMapping env (gvk_Group gvk) (gvk_Kind gvk) (gvk_Version gvk))"

datatype handler = EnqueueForSecret | EnqueueForReferenceGrant

datatype watch =
    For go_type
  | Owns go_type
  | Watch go_type handler bool

text \<open>The flag of \<open>Watch\<close>: events pass the secret filter first.\<close>

definition optionalOwns :: "go_type list" where
  "optionalOwns = [T_HTTPRoute, T_Certificate, T_ServiceMonitor, T_PodMonitor, T_PrometheusRule]"

definition SetupWithManager :: "kind_env \<Rightarrow> watch list" where
  "SetupWithManager env =
     (let c = [For T_LLMBatchGateway, Owns T_Deployment, Owns T_StatefulSet, Owns T_Service,
               Owns T_ConfigMap, Owns T_ServiceAccount, Owns T_Role, Owns T_RoleBinding,
               Watch T_Secret EnqueueForSecret True];
          c = c @ map Owns (filter (isCRDInstalled env) optionalOwns)
      in if isCRDInstalled env T_ReferenceGrant
         then c @ [Watch T_ReferenceGrant EnqueueForReferenceGrant False] else c)"

section \<open>The scheme of the operator\<close>

text \<open>
  \<open>init\<close> of \<open>cmd/main.go\<close> (lines 84-91) fills the scheme from six libraries. What each
  adds is a parameter; \<open>adds_own_types\<close> states of it that a library registers no type of
  another library's API. The API of each type:
\<close>

datatype api_library =
    Lib_ClientGo | Lib_Batch | Lib_GatewayV1 | Lib_GatewayV1beta1 | Lib_Monitoring | Lib_OpenShiftConfig
  | Lib_CertManager

definition schemeLibraries :: "api_library list" where
  "schemeLibraries = [Lib_ClientGo, Lib_Batch, Lib_GatewayV1, Lib_GatewayV1beta1, Lib_Monitoring,
     Lib_OpenShiftConfig]"

fun homeLibrary :: "go_type \<Rightarrow> api_library" where
  "homeLibrary T_LLMBatchGateway = Lib_Batch"
| "homeLibrary T_HTTPRoute = Lib_GatewayV1beta1"
| "homeLibrary T_ReferenceGrant = Lib_GatewayV1beta1"
| "homeLibrary T_Certificate = Lib_CertManager"
| "homeLibrary T_ServiceMonitor = Lib_Monitoring"
| "homeLibrary T_PodMonitor = Lib_Monitoring"
| "homeLibrary T_PrometheusRule = Lib_Monitoring"
| "homeLibrary _ = Lib_ClientGo"

text \<open>
  The kinds of a type in the operator's scheme: what the libraries registered, an error when
  none did.
\<close>

definition operatorScheme ::
  "(api_library \<Rightarrow> go_type \<Rightarrow> GroupVersionKind list) \<Rightarrow> go_type \<Rightarrow> string + GroupVersionKind list" where
  "operatorScheme adds t =
     (let gvks = concat (map (\<lambda>lib. adds lib t) schemeLibraries)
      in if gvks = [] then Inl ''no kind is registered'' else Inr gvks)"

definition adds_own_types :: "(api_library \<Rightarrow> go_type \<Rightarrow> GroupVersionKind list) \<Rightarrow> bool" where
  "adds_own_types adds \<longleftrightarrow> (\<forall>lib t. adds lib t \<noteq> [] \<longrightarrow> homeLibrary t = lib)"

definition kindName :: "go_type \<Rightarrow> string" where
  "kindName t = (case t of
     T_LLMBatchGateway \<Rightarrow> ''LLMBatchGateway'' | T_Deployment \<Rightarrow> ''Deployment''
   | T_StatefulSet \<Rightarrow> ''StatefulSet'' | T_Service \<Rightarrow> ''Service'' | T_ConfigMap \<Rightarrow> ''ConfigMap''
   | T_ServiceAccount \<Rightarrow> ''ServiceAccount'' | T_Role \<Rightarrow> ''Role'' | T_RoleBinding \<Rightarrow> ''RoleBinding''
   | T_Secret \<Rightarrow> ''Secret'' | T_HTTPRoute \<Rightarrow> ''HTTPRoute'' | T_Certificate \<Rightarrow> ''Certificate''
   | T_ServiceMonitor \<Rightarrow> ''ServiceMonitor'' | T_PodMonitor \<Rightarrow> ''PodMonitor''
   | T_PrometheusRule \<Rightarrow> ''PrometheusRule'' | T_ReferenceGrant \<Rightarrow> ''ReferenceGrant'')"

section \<open>Lemmas\<close>

lemma secretRequests_eq:
  "secretRequests gws obj = map requestFor (filter (\<lambda>gw.
     ref_Namespace (spec_SecretRef (gw_Spec gw)) = fst obj \<and> ref_Name (spec_SecretRef (gw_Spec gw)) = snd obj) gws)"
  by (induction gws) (simp_all add: Let_def)

lemma grantRequests_eq:
  "grantRequests gws obj = map requestFor (filter (\<lambda>gw.
     ref_Namespace (spec_SecretRef (gw_Spec gw)) = fst obj) gws)"
  by (induction gws) (simp_all add: Let_def)

lemma owns_optional:
  "Owns t \<in> set (SetupWithManager env) \<longleftrightarrow>
     t \<in> {T_Deployment, T_StatefulSet, T_Service, T_ConfigMap, T_ServiceAccount, T_Role, T_RoleBinding} \<or>
     t \<in> set optionalOwns \<and> isCRDInstalled env t"
  by (auto simp: SetupWithManager_def Let_def)

section \<open>Properties\<close>

text \<open>
  A Secret event that passes the filter becomes requests for exactly the listed gateways
  whose reference names that Secret and namespace; a ReferenceGrant event for exactly those that
  refer into its namespace, so both halves of a cross-namespace reference wake its gateways.
\<close>

lemma events_wake_referring_gateways:
  assumes "k_ListGateways K (st_world s) = (Inr gws, w)"
  shows "set (fst (enqueueForSecret K (ns, n) s)) =
      requestFor ` {gw \<in> set gws. spec_SecretRef (gw_Spec gw) = \<lparr>ref_Name = n, ref_Namespace = ns\<rparr>} \<and>
    set (fst (enqueueForReferenceGrant K (ns, m) s)) =
      requestFor ` {gw \<in> set gws. ref_Namespace (spec_SecretRef (gw_Spec gw)) = ns}"
proof -
  have "(r :: SecretReference) = \<lparr>ref_Name = n, ref_Namespace = ns\<rparr> \<longleftrightarrow>
      ref_Namespace r = ns \<and> ref_Name r = n" for r
    by (cases r) auto
  then show ?thesis
    using assms
    by (auto simp: enqueueForSecret_def enqueueForReferenceGrant_def call_def secretRequests_eq
        grantRequests_eq)
qed

text \<open>
  Once a reconcile has resolved a gateway's Secret of another namespace, every later event
  for that Secret passes the filter and its requests contain the gateway, as long as it is
  listed.
\<close>

lemma resolved_secret_is_watched:
  assumes "k_GetGateway (r_Client R) ns name (st_world s) = (Inr gw, w)"
    and "validateSpec (r_visit R) gw = None"
    and "fst (resolveSecret (r_Client R) gw (s\<lparr>st_world := w\<rparr>)) = Inr n"
    and "secretNamespace gw \<noteq> gw_Namespace gw" and "object_name (secretNamespace gw) (secretName gw)"
    and "k_ListGateways K v = (Inr gws, v')" and "gw \<in> set gws"
    and "s' = snd (Reconcile R ns name s)"
  shows "filter_passes (st_filter s') (UpdateEvent old (secretNamespace gw, secretName gw)) \<and>
    requestFor gw \<in> set (fst (enqueueForSecret K (secretNamespace gw, secretName gw)
      (s'\<lparr>st_world := v\<rparr>)))"
proof -
  have ns: "secretNamespace gw = ref_Namespace (spec_SecretRef (gw_Spec gw))"
    using assms(4) by (auto simp: secretNamespace_def Let_def split: if_splits)
  have "filter_matches (st_filter s') (secretNamespace gw) (secretName gw)"
    using filter_after [OF assms(1), of "secretNamespace gw" "secretName gw"] assms(2,3,4,5,8)
    by (simp add: ns)
  moreover have "requestFor gw \<in> set (secretRequests gws (secretNamespace gw, secretName gw))"
    using assms(7) by (auto simp: secretRequests_eq ns)
  ultimately show ?thesis
    using assms(6) by (simp add: enqueueForSecret_def call_def)
qed

text \<open>
  Every kind the clean-up may delete is watched, the optional ones when scheme and server
  know them: the types the controller owns are, in the same order, the types of the managed
  kinds.
\<close>

lemma owned_kinds_are_managed:
  "kindName ` {t. Owns t \<in> set (SetupWithManager env)} \<subseteq> gvk_Kind ` set managedGVKs \<and>
   (list_all (isCRDInstalled env) optionalOwns \<longrightarrow>
      kindName ` {t. Owns t \<in> set (SetupWithManager env)} = gvk_Kind ` set managedGVKs)"
proof -
  have all: "gvk_Kind ` set managedGVKs = kindName ` ({T_Deployment, T_StatefulSet, T_Service,
      T_ConfigMap, T_ServiceAccount, T_Role, T_RoleBinding} \<union> set optionalOwns)"
    by (simp add: managedGVKs_def kindName_def optionalOwns_def insert_commute)
  have "{t. Owns t \<in> set (SetupWithManager env)} = {T_Deployment, T_StatefulSet, T_Service,
      T_ConfigMap, T_ServiceAccount, T_Role, T_RoleBinding} \<union>
      {t \<in> set optionalOwns. isCRDInstalled env t}"
    by (auto simp: owns_optional)
  then show ?thesis unfolding all by (auto simp: list_all_iff)
qed

text \<open>
  C39: the operator never watches the Certificates it owns. Its scheme is not filled from the
  cert-manager library, so a Certificate has no kind in it, and the check for the API fails
  whether or not the server has it.
\<close>

theorem certificates_never_watched:
  assumes "adds_own_types adds" and "ke_ObjectKinds env = operatorScheme adds"
  shows "\<not> isCRDInstalled env T_Certificate \<and> Owns T_Certificate \<notin> set (SetupWithManager env)"
proof -
  have "adds lib T_Certificate = []" if "lib \<in> set schemeLibraries" for lib
    using assms(1) that unfolding adds_own_types_def schemeLibraries_def
    by (cases "adds lib T_Certificate = []") fastforce+
  then have "operatorScheme adds T_Certificate = Inl ''no kind is registered''"
    by (simp add: operatorScheme_def)
  with assms(2) have "\<not> isCRDInstalled env T_Certificate"
    by (simp add: isCRDInstalled_def)
  then show ?thesis by (simp add: owns_optional)
qed

section \<open>Witnesses\<close>

lemma events_wake_referring_gateways_example:
  "(''apps'', ''gw'') \<in> set (fst (enqueueForSecret clusterClient (''vault'', ''creds'') (sqlState [])))"
proof -
  have "k_ListGateways clusterClient (st_world (sqlState [])) = (Inr [sqlGateway], st_world (sqlState []))"
    by (simp add: clusterClient_def sqlState_def sampleCluster_def)
  from events_wake_referring_gateways [OF this, of "''vault''" "''creds''" "''g''"]
  show ?thesis by (auto simp: requestFor_def image_iff)
qed

lemma resolved_secret_is_watched_example:
  "filter_passes (st_filter (snd (Reconcile sampleReconciler ''apps'' ''gw'' (sqlState []))))
     (UpdateEvent (''vault'', ''creds'') (''vault'', ''creds''))"
proof -
  have w: "st_world (sqlState []) = sampleCluster [sqlGateway] [vaultSecret] []"
    by (simp add: sqlState_def)
  have list: "k_ListGateways clusterClient (st_world (sqlState []))
      = (Inr [sqlGateway], st_world (sqlState []))"
    by (simp add: clusterClient_def sqlState_def sampleCluster_def)
  have v: "validateSpec (r_visit sampleReconciler) sqlGateway = None" by simp
  have r: "fst (resolveSecret (r_Client sampleReconciler) sqlGateway
      (sqlState []\<lparr>st_world := st_world (sqlState [])\<rparr>)) = Inr ''gw-credentials''"
    using sample_resolve [OF w] by simp
  have ns: "secretNamespace sqlGateway \<noteq> gw_Namespace sqlGateway" "object_name (secretNamespace sqlGateway) (secretName sqlGateway)"
    by (simp_all add: sample_resolution(1) object_name_def)
  have mem: "sqlGateway \<in> set [sqlGateway]" by simp
  from resolved_secret_is_watched [OF cluster_get_sql v r ns list mem refl, of "(''vault'', ''creds'')"]
  show ?thesis by (simp only: sample_resolution(1) sample_refs SecretReference.simps)
qed

text \<open>A server that knows every kind, and libraries that add one kind per type of their own.\<close>

definition sampleAdds :: "api_library \<Rightarrow> go_type \<Rightarrow> GroupVersionKind list" where
  "sampleAdds lib t =
     (if homeLibrary t = lib
      then [\<lparr>gvk_Group = ''g'', gvk_Version = ''v1'', gvk_Kind = kindName t\<rparr>] else [])"

definition sampleKinds :: kind_env where
  "sampleKinds = \<lparr>ke_ObjectKinds = operatorScheme sampleAdds, ke_RESTMapping = (\<lambda>g k v. True)\<rparr>"

definition fullKinds :: kind_env where
  "fullKinds = sampleKinds\<lparr>ke_ObjectKinds := (\<lambda>t.
     Inr [\<lparr>gvk_Group = ''g'', gvk_Version = ''v1'', gvk_Kind = kindName t\<rparr>])\<rparr>"

theorem certificates_never_watched_witness:
  "Owns T_Certificate \<notin> set (SetupWithManager sampleKinds) \<and>
   Owns T_ServiceMonitor \<in> set (SetupWithManager sampleKinds)"
proof -
  have "adds_own_types sampleAdds" by (simp add: adds_own_types_def sampleAdds_def)
  moreover have "ke_ObjectKinds sampleKinds = operatorScheme sampleAdds" by (simp add: sampleKinds_def)
  ultimately have "Owns T_Certificate \<notin> set (SetupWithManager sampleKinds)"
    using certificates_never_watched by blast
  moreover have "isCRDInstalled sampleKinds T_ServiceMonitor"
    by (simp add: isCRDInstalled_def sampleKinds_def operatorScheme_def schemeLibraries_def sampleAdds_def)
  ultimately show ?thesis by (simp add: owns_optional optionalOwns_def)
qed

lemma owned_kinds_are_managed_example:
  "kindName ` {t. Owns t \<in> set (SetupWithManager fullKinds)} = gvk_Kind ` set managedGVKs"
proof -
  have "list_all (isCRDInstalled fullKinds) optionalOwns"
    by (simp add: isCRDInstalled_def fullKinds_def sampleKinds_def list_all_iff)
  with owned_kinds_are_managed [of fullKinds] show ?thesis by blast
qed

end
