(* ===== verification/Monitoring.thy ===== *)
theory Monitoring
  imports Watches
begin

text \<open>
  \<open>internal/monitoring/controller.go\<close>: the controller that keeps the operator's own Service,
  ServiceMonitor and PrometheusRule applied, and \<open>IsCRDInstalled\<close> of
  \<open>internal/utils/utils.go\<close>.
\<close>

definition IsCRDInstalled :: "kind_env \<Rightarrow> go_type \<Rightarrow> bool" where
  "IsCRDInstalled env obj =
     (case ke_ObjectKinds env obj of
        Inl _ \<Rightarrow> False
      | Inr [] \<Rightarrow> False
      | Inr (gvk # _) \<Rightarrow> ke_RESTMapping env (gvk_Group gvk) (gvk_Kind gvk) (gvk_Version gvk))"

definition reconcileMetricsService ::
  "'w client \<Rightarrow> string \<Rightarrow> 'w st \<Rightarrow> goerr option \<times> 'w st" where
  "reconcileMetricsService K ns s =
     (case applyOperator K (OpService (metricsService ns)) s of (r, s) \<Rightarrow> (error_of r, s))"

definition reconcileServiceMonitor ::
  "'w client \<Rightarrow> string \<Rightarrow> 'w st \<Rightarrow> goerr option \<times> 'w st" where
  "reconcileServiceMonitor K ns s =
     (case applyOperator K (OpServiceMonitor (serviceMonitor ns)) s of (r, s) \<Rightarrow> (error_of r, s))"

definition reconcilePrometheusRule ::
  "'w client \<Rightarrow> string \<Rightarrow> 'w st \<Rightarrow> goerr option \<times> 'w st" where
  "reconcilePrometheusRule K ns s =
     (case applyOperator K (OpPrometheusRule (prometheusRule ns)) s of (r, s) \<Rightarrow> (error_of r, s))"

text \<open>The reaction to a failed step: count it, emit an event, return the error wrapped.\<close>

definition stepFailed :: "string \<Rightarrow> goerr \<Rightarrow> 'w st \<Rightarrow> goerr option \<times> 'w st" where
  "stepFailed kind err s =
     (Some (Wrap [''reconciling operator'', kind] [err]),
      emit (Event EventWarning ''ReconcileFailed'' (MsgError [''Failed to reconcile'', kind] err))
        (emit (ErrorCounted (kind @ ''ApplyFailed'')) s))"

definition metricsReconcile :: "'w client \<Rightarrow> string \<Rightarrow> 'w st \<Rightarrow> goerr option \<times> 'w st" where
  "metricsReconcile K ns s =
     (case reconcileMetricsService K ns s of
        (Some err, s) \<Rightarrow> stepFailed ''Service'' err s
      | (None, s) \<Rightarrow>
          (case reconcileServiceMonitor K ns s of
             (Some err, s) \<Rightarrow> stepFailed ''ServiceMonitor'' err s
           | (None, s) \<Rightarrow>
               (case reconcilePrometheusRule K ns s of
                  (Some err, s) \<Rightarrow> stepFailed ''PrometheusRule'' err s
                | (None, s) \<Rightarrow> (None, s))))"

text \<open>
  The watches: each type with the suffix of its name filter, besides the one request the
  bootstrap source adds on start-up. Every event that passes enqueues the one empty request.
\<close>

definition nameFilter :: "string \<Rightarrow> string \<Rightarrow> nsname \<Rightarrow> bool" where
  "nameFilter ns suffix obj \<longleftrightarrow> fst obj = ns \<and> snd obj = OperatorName @ suffix"

definition metricsWatches :: "kind_env \<Rightarrow> (go_type \<times> string) list" where
  "metricsWatches env =
     (let b = [(T_Service, ''-metrics'')];
          b = (if IsCRDInstalled env T_ServiceMonitor then b @ [(T_ServiceMonitor, ''-metrics'')] else b)
      in if IsCRDInstalled env T_PrometheusRule then b @ [(T_PrometheusRule, ''-alerts'')] else b)"

section \<open>Lemmas\<close>

text \<open>The three objects in the order of their application, with the Go type of each.\<close>

definition operatorObjects :: "string \<Rightarrow> operator_object list" where
  "operatorObjects ns = [OpService (metricsService ns), OpServiceMonitor (serviceMonitor ns),
     OpPrometheusRule (prometheusRule ns)]"

fun objectType :: "operator_object \<Rightarrow> go_type" where
  "objectType (OpService _) = T_Service"
| "objectType (OpServiceMonitor _) = T_ServiceMonitor"
| "objectType (OpPrometheusRule _) = T_PrometheusRule"

fun objectMeta :: "operator_object \<Rightarrow> ObjectMeta" where
  "objectMeta (OpService svc) = svc_Meta svc"
| "objectMeta (OpServiceMonitor sm) = sm_Meta sm"
| "objectMeta (OpPrometheusRule pr) = pr_Meta pr"

lemma applyOperator_log:
  assumes "applyOperator K obj s = (r, s')"
  shows "st_log s' = st_log s \<and> (\<exists>e. r = Inl e) \<or>
    (\<exists>a. st_log s' = st_log s @ [AppliedOperator obj a] \<and> (a = None \<longleftrightarrow> (\<exists>x. r = Inr x)))"
  using assms
  by (auto simp: applyOperator_def ServerSideApply_def error_of_def
      split: sum.splits prod.splits dest!: call_eq)

fun operatorApply :: "effect \<Rightarrow> (operator_object \<times> api_error option) list" where
  "operatorApply (AppliedOperator obj a) = [(obj, a)]"
| "operatorApply _ = []"

definition operatorApplies :: "effect list \<Rightarrow> (operator_object \<times> api_error option) list" where
  "operatorApplies es = concat (map operatorApply es)"

lemma operatorApplies_simps [simp]:
  "operatorApplies [] = []" "operatorApplies (e # es) = operatorApply e @ operatorApplies es"
  "operatorApplies (xs @ ys) = operatorApplies xs @ operatorApplies ys"
  by (simp_all add: operatorApplies_def)

text \<open>
  The three steps as a loop over the objects, each with the kind that names it in the error and
  in the metric.
\<close>

fun applySteps :: "'w client \<Rightarrow> (string \<times> operator_object) list \<Rightarrow> 'w st \<Rightarrow> goerr option \<times> 'w st" where
  "applySteps K [] s = (None, s)"
| "applySteps K ((kind, obj) # steps) s =
     (case applyOperator K obj s of
        (Inl err, s) \<Rightarrow> stepFailed kind err s
      | (Inr _, s) \<Rightarrow> applySteps K steps s)"

definition operatorSteps :: "string \<Rightarrow> (string \<times> operator_object) list" where
  "operatorSteps ns = zip [''Service'', ''ServiceMonitor'', ''PrometheusRule''] (operatorObjects ns)"

lemma metricsReconcile_steps: "metricsReconcile K ns s = applySteps K (operatorSteps ns) s"
  by (simp add: metricsReconcile_def reconcileMetricsService_def reconcileServiceMonitor_def
      reconcilePrometheusRule_def operatorSteps_def operatorObjects_def error_of_def
      split: prod.split sum.split)

text \<open>
  A loop without an error has applied every object and nothing else; one with an error has
  applied a prefix with success, perhaps tried the next, counted one error and emitted one event.
\<close>

lemma applySteps_log:
  assumes "applySteps K steps s = (r, s')"
  shows "st_filter s' = st_filter s \<and>
    (if r = None
     then st_log s' = st_log s @ map (\<lambda>st. AppliedOperator (snd st) None) steps
     else (\<exists>n < length steps. \<exists>tried err.
       (tried = [] \<or> (\<exists>a. tried = [AppliedOperator (snd (steps ! n)) (Some a)])) \<and>
       st_log s' = st_log s @ map (\<lambda>st. AppliedOperator (snd st) None) (take n steps) @ tried @
         [ErrorCounted (fst (steps ! n) @ ''ApplyFailed''),
          Event EventWarning ''ReconcileFailed'' (MsgError [''Failed to reconcile'', fst (steps ! n)] err)]))"
  using assms
proof (induction steps arbitrary: s)
  case Nil
  then show ?case by simp
next
  case (Cons step steps)
  obtain kind obj where step: "step = (kind, obj)" by fastforce
  obtain x t where ap: "applyOperator K obj s = (x, t)" by fastforce
  have filt: "st_filter t = st_filter s"
  proof -
    have "st_filter (snd (applyOperator K obj s)) = st_filter s" by (simp add: applyOperator_def)
    with ap show ?thesis by simp
  qed
  show ?case
  proof (cases x)
    case (Inl err)
    then have "r \<noteq> None" "s' = snd (stepFailed kind err t)"
      using Cons.prems ap step by (auto simp: stepFailed_def)
    then show ?thesis
      using applyOperator_log [OF ap] Inl step filt
      by (intro conjI) (auto simp: stepFailed_def intro!: exI [of _ 0])
  next
    case (Inr y)
    then have rest: "applySteps K steps t = (r, s')" using Cons.prems ap step by simp
    have t: "st_log t = st_log s @ [AppliedOperator obj None]"
      using applyOperator_log [OF ap] Inr by auto
    show ?thesis
    proof (cases "r = None")
      case True
      with Cons.IH [OF rest] t step filt show ?thesis by simp
    next
      case False
      with Cons.IH [OF rest] obtain n tried err where "n < length steps"
        "tried = [] \<or> (\<exists>a. tried = [AppliedOperator (snd (steps ! n)) (Some a)])"
        "st_log s' = st_log t @ map (\<lambda>st. AppliedOperator (snd st) None) (take n steps) @ tried @
         [ErrorCounted (fst (steps ! n) @ ''ApplyFailed''),
          Event EventWarning ''ReconcileFailed'' (MsgError [''Failed to reconcile'', fst (steps ! n)] err)]"
        "st_filter s' = st_filter t"
        by auto
      with False t step filt show ?thesis
        by (auto intro!: exI [of _ "Suc n"] exI [of _ "tried"])
    qed
  qed
qed

lemma operatorApplies_map [simp]:
  "operatorApplies (map (\<lambda>st. AppliedOperator (snd st) None) steps) = map (\<lambda>st. (snd st, None)) steps"
  by (induction steps) simp_all

lemma no_events_map [simp]: "filter isEvent (map (\<lambda>st. AppliedOperator (snd st) None) steps) = []"
  by (induction steps) (simp_all add: isEvent_def)

section \<open>Properties\<close>

text \<open>
  A metrics reconcile that succeeds has applied the Service, the ServiceMonitor and the
  PrometheusRule, once each and in this order, and is silent; one that fails has applied a
  prefix of them successfully, emits one warning and stops there.
\<close>

lemma operator_objects_applied:
  "case metricsReconcile K ns s of (r, s') \<Rightarrow>
     if r = None
     then operatorApplies (new_log s s') = map (\<lambda>obj. (obj, None)) (operatorObjects ns) \<and>
          filter isEvent (new_log s s') = []
     else (\<exists>n < 3. \<exists>rest. operatorApplies (new_log s s')
             = map (\<lambda>obj. (obj, None)) (take n (operatorObjects ns)) @ rest \<and>
             (rest = [] \<or> (\<exists>a. rest = [(operatorObjects ns ! n, Some a)]))) \<and>
          length (filter isEvent (new_log s s')) = 1"
proof -
  obtain r s' where eq: "metricsReconcile K ns s = (r, s')" by fastforce
  have objs: "map snd (operatorSteps ns) = operatorObjects ns" "length (operatorSteps ns) = 3"
    by (simp_all add: operatorSteps_def operatorObjects_def)
  then have pairs: "map (\<lambda>st. (snd st, None)) (take n (operatorSteps ns))
      = map (\<lambda>obj. (obj, None)) (take n (operatorObjects ns))" for n
    by (metis (no_types, lifting) comp_apply map_eq_conv map_map take_map)
  note log = applySteps_log [OF eq [unfolded metricsReconcile_steps], unfolded objs(2)]
  show ?thesis
  proof (cases "r = None")
    case True
    then have "new_log s s' = map (\<lambda>st. AppliedOperator (snd st) None) (operatorSteps ns)"
      using log by simp
    with True eq pairs [of 3] objs(2) show ?thesis by (simp add: operatorObjects_def)
  next
    case False
    with log [THEN conjunct2] have "\<exists>n < 3. \<exists>tried err.
       (tried = [] \<or> (\<exists>a. tried = [AppliedOperator (snd (operatorSteps ns ! n)) (Some a)])) \<and>
       st_log s' = st_log s @ map (\<lambda>st. AppliedOperator (snd st) None) (take n (operatorSteps ns)) @ tried @
         [ErrorCounted (fst (operatorSteps ns ! n) @ ''ApplyFailed''),
          Event EventWarning ''ReconcileFailed'' (MsgError [''Failed to reconcile'', fst (operatorSteps ns ! n)] err)]"
      by (simp only: if_False)
    then obtain n tried err where n: "n < 3"
      "tried = [] \<or> (\<exists>a. tried = [AppliedOperator (snd (operatorSteps ns ! n)) (Some a)])"
      "st_log s' = st_log s @ map (\<lambda>st. AppliedOperator (snd st) None) (take n (operatorSteps ns)) @ tried @
         [ErrorCounted (fst (operatorSteps ns ! n) @ ''ApplyFailed''),
          Event EventWarning ''ReconcileFailed'' (MsgError [''Failed to reconcile'', fst (operatorSteps ns ! n)] err)]"
      by blast
    note new_log_append [OF n(3)]
    moreover have "snd (operatorSteps ns ! n) = operatorObjects ns ! n"
      using n(1) objs by (metis nth_map)
    ultimately show ?thesis
      using False eq n(1,2) by (auto simp: pairs isEvent_def intro!: exI [of _ n])
  qed
qed

text \<open>
  C40: an operator without the ServiceMonitor API fails its metrics reconcile every time and
  never applies its PrometheusRule, although the watches treat both APIs as optional.
\<close>

theorem missing_service_monitor_api_fails:
  assumes "k_MarshalOperator K (OpService (metricsService ns)) = Inr d"
    and "k_PatchOperator K (OpService (metricsService ns)) d FieldOwner True (st_world s) = (Inr x, w)"
    and "k_MarshalOperator K (OpServiceMonitor (serviceMonitor ns)) = Inr d'"
    and "k_PatchOperator K (OpServiceMonitor (serviceMonitor ns)) d' FieldOwner True w = (Inl NoMatch, w')"
  shows "fst (metricsReconcile K ns s)
      = Some (Wrap [''reconciling operator'', ''ServiceMonitor''] [ErrApi NoMatch]) \<and>
    map fst (operatorApplies (new_log s (snd (metricsReconcile K ns s))))
      = [OpService (metricsService ns), OpServiceMonitor (serviceMonitor ns)] \<and>
    ErrorCounted ''ServiceMonitorApplyFailed'' \<in> set (new_log s (snd (metricsReconcile K ns s)))"
  using assms
  by (simp add: metricsReconcile_def reconcileMetricsService_def reconcileServiceMonitor_def
      applyOperator_def ServerSideApply_def call_def error_of_def stepFailed_def new_log_def)

text \<open>
  The watches cover what the controller applies: for each of its objects whose API is
  installed there is a watch of its type whose name filter the object passes, so that a change
  or a deletion brings it back.
\<close>

lemma operator_objects_watched:
  assumes "obj \<in> set (operatorObjects ns)"
    and "objectType obj = T_Service \<or> IsCRDInstalled env (objectType obj)"
  shows "\<exists>suffix. (objectType obj, suffix) \<in> set (metricsWatches env) \<and>
    nameFilter ns suffix (om_Namespace (objectMeta obj), om_Name (objectMeta obj))"
  using assms
  by (auto simp: operatorObjects_def metricsWatches_def Let_def nameFilter_def metricsService_def
      serviceMonitor_def prometheusRule_def)

text \<open>
  The ServiceMonitor finds the metrics Service: all its match labels are labels of the
  Service in the same namespace, each endpoint's port is a port of the Service by name, and the
  error-rate alert is on the counter that both controllers increment.
\<close>

lemma monitor_selects_service:
  "list_all (\<lambda>(k, v). go_get (om_Labels (svc_Meta (metricsService ns))) k = Some v)
     (sm_MatchLabels (serviceMonitor ns)) \<and>
   om_Namespace (sm_Meta (serviceMonitor ns)) = om_Namespace (svc_Meta (metricsService ns)) \<and>
   list_all (\<lambda>e. ep_Port e \<in> port_Name ` set (svc_Ports (metricsService ns)))
     (sm_Endpoints (serviceMonitor ns)) \<and>
   (\<exists>pre post. rule_Expr errorRateRule = pre @ metricName ReconcileErrors @ post)"
proof -
  have "rule_Expr errorRateRule = ''rate('' @ metricName ReconcileErrors @ ''[5m]) > 0.1''"
    by (simp add: errorRateRule_def metricName_def ReconcileErrors_def)
  then have "\<exists>pre post. rule_Expr errorRateRule = pre @ metricName ReconcileErrors @ post" by blast
  then show ?thesis
    by (simp add: serviceMonitor_def metricsService_def operatorSelectorLabels_def
        operatorLabels_def go_get_def)
qed

section \<open>Witnesses\<close>

definition noMonitorClient :: "cluster client" where
  "noMonitorClient = clusterClient\<lparr>k_PatchOperator := (\<lambda>obj data owner force w.
     (case obj of OpServiceMonitor _ \<Rightarrow> Inl NoMatch | _ \<Rightarrow> Inr obj, w))\<rparr>"

theorem missing_service_monitor_api_fails_witness:
  "ErrorCounted ''ServiceMonitorApplyFailed''
     \<in> set (new_log vaultState (snd (metricsReconcile noMonitorClient ''ops'' vaultState)))"
proof -
  have "k_MarshalOperator noMonitorClient (OpService (metricsService ''ops'')) = Inr ''operator object''"
    and "k_PatchOperator noMonitorClient (OpService (metricsService ''ops'')) ''operator object'' FieldOwner
      True (st_world vaultState) = (Inr (OpService (metricsService ''ops'')), st_world vaultState)"
    and "k_MarshalOperator noMonitorClient (OpServiceMonitor (serviceMonitor ''ops''))
      = Inr ''operator object''"
    and "k_PatchOperator noMonitorClient (OpServiceMonitor (serviceMonitor ''ops'')) ''operator object''
      FieldOwner True (st_world vaultState) = (Inl NoMatch, st_world vaultState)"
    by (simp_all add: noMonitorClient_def clusterClient_def)
  from missing_service_monitor_api_fails [OF this] show ?thesis by blast
qed

lemma operator_objects_watched_example:
  "\<exists>suffix. (T_ServiceMonitor, suffix) \<in> set (metricsWatches sampleKinds) \<and>
     nameFilter ''ops'' suffix (''ops'', ''llm-d-batch-gateway-operator-metrics'')"
proof -
  have "IsCRDInstalled sampleKinds T_ServiceMonitor"
    by (simp add: IsCRDInstalled_def sampleKinds_def operatorScheme_def schemeLibraries_def sampleAdds_def)
  then show ?thesis
    using operator_objects_watched [of "OpServiceMonitor (serviceMonitor ''ops'')" "''ops''" sampleKinds]
    by (simp add: operatorObjects_def serviceMonitor_def OperatorName_def)
qed

end
