(* ===== verification/Startup.thy ===== *)
theory Startup
  imports Monitoring
begin

text \<open>
  \<open>cmd/main.go\<close> and \<open>cmd/metrics.go\<close>: how the operator is put together. Everything outside
  the repository (the client, the manager, the API server, the file system) is a field of
  \<open>main_env\<close>: an optional text is the error of a call that gives only an error.
\<close>

section \<open>Component images\<close>

definition envImageAPIServer :: string where
  "envImageAPIServer = ''LLM_D_BATCH_GATEWAY_APISERVER_IMAGE''"

definition envImageProcessor :: string where
  "envImageProcessor = ''LLM_D_BATCH_GATEWAY_PROCESSOR_IMAGE''"

definition envImageGC :: string where
  "envImageGC = ''LLM_D_BATCH_GATEWAY_GC_IMAGE''"

definition envImageAsync :: string where
  "envImageAsync = ''LLM_D_ASYNC_IMAGE''"

definition requiredImages :: "string list" where
  "requiredImages = [envImageAPIServer, envImageProcessor, envImageGC, envImageAsync]"

definition componentImagesFromEnv :: "(string \<Rightarrow> string) \<Rightarrow> goerr + ComponentImages" where
  "componentImagesFromEnv getenv =
     (let missing = filter (\<lambda>e. getenv e = '''') requiredImages
      in if missing \<noteq> []
         then Inl (Wrap [''required image environment variables are not set'', join '', '' missing] [])
         else Inr \<lparr>img_APIServer = getenv envImageAPIServer, img_Processor = getenv envImageProcessor,
                   img_GC = getenv envImageGC, img_Async = getenv envImageAsync\<rparr>)"

section \<open>The metrics server\<close>

text \<open>
  \<open>filepath.Join\<close> of two elements: the non-empty ones joined with a slash and cleaned, that
  is, empty and \<open>.\<close> segments dropped and \<open>..\<close> resolved; \<open>acc\<close> is the reversed result.
\<close>

fun splitSlash :: "string \<Rightarrow> string \<Rightarrow> string list" where
  "splitSlash cur [] = [rev cur]"
| "splitSlash cur (c # cs) =
     (if c = CHR ''/'' then rev cur # splitSlash [] cs else splitSlash (c # cur) cs)"

fun cleanParts :: "bool \<Rightarrow> string list \<Rightarrow> string list \<Rightarrow> string list" where
  "cleanParts rooted acc [] = rev acc"
| "cleanParts rooted acc (p # ps) =
     (if p = '''' \<or> p = ''.'' then cleanParts rooted acc ps
      else if p = ''..''
      then (case acc of
              [] \<Rightarrow> if rooted then cleanParts rooted [] ps else cleanParts rooted [''..''] ps
            | a # as \<Rightarrow> if a = ''..'' then cleanParts rooted (''..'' # acc) ps
                        else cleanParts rooted as ps)
      else cleanParts rooted (p # acc) ps)"

definition pathClean :: "string \<Rightarrow> string" where
  "pathClean path =
     (let rooted = (path \<noteq> '''' \<and> hd path = CHR ''/'');
          body = join ''/'' (cleanParts rooted [] (splitSlash [] path))
      in if rooted then CHR ''/'' # body else if body = '''' then ''.'' else body)"

definition pathJoin :: "string \<Rightarrow> string \<Rightarrow> string" where
  "pathJoin a b =
     (if a = '''' \<and> b = '''' then ''''
      else if a = '''' then pathClean b
      else if b = '''' then pathClean a
      else pathClean (a @ ''/'' @ b))"

text \<open>
  The option that installs \<open>GetCertificate\<close> is represented by the two paths its closure
  reads; \<open>getCertificate\<close> is that closure, run at each handshake.
\<close>

definition loadMetricsCertificate :: "string \<Rightarrow> tls_opt" where
  "loadMetricsCertificate certDir =
     (let certPath = pathJoin certDir ''tls.crt''; keyPath = pathJoin certDir ''tls.key''
      in (\<lambda>c. c\<lparr>conf_Certificate := Some (certPath, keyPath)\<rparr>))"

definition getCertificate :: "(string \<Rightarrow> string \<Rightarrow> string + 'cert) \<Rightarrow> string \<times> string \<Rightarrow> goerr + 'cert" where
  "getCertificate loadX509KeyPair paths =
     (case loadX509KeyPair (fst paths) (snd paths) of
        Inl e \<Rightarrow> Inl (Wrap [''loading metrics serving certificate''] [ErrExternal e])
      | Inr cert \<Rightarrow> Inr cert)"

record metrics_Options =
  mo_BindAddress :: string
  mo_SecureServing :: bool
  mo_AuthFilter :: bool
  mo_CertDir :: string
  mo_TLSOpts :: "tls_opt list"

definition metricsServerOptions :: "string \<Rightarrow> bool \<Rightarrow> string \<Rightarrow> tls_opt list \<Rightarrow> metrics_Options" where
  "metricsServerOptions bindAddress secure certDir tlsOpts =
     (let opts = \<lparr>mo_BindAddress = bindAddress, mo_SecureServing = secure, mo_AuthFilter = False,
                  mo_CertDir = '''', mo_TLSOpts = tlsOpts\<rparr>;
          opts = (if secure then opts\<lparr>mo_AuthFilter := True\<rparr> else opts)
      in if certDir \<noteq> ''''
         then opts\<lparr>mo_CertDir := certDir, mo_TLSOpts := mo_TLSOpts opts @ [loadMetricsCertificate certDir]\<rparr>
         else opts)"

section \<open>main\<close>

record flags =
  fl_batchGatewayChartPath :: string
  fl_asyncChartPath :: string
  fl_metricsAddr :: string
  fl_metricsSecure :: bool
  fl_metricsCertPath :: string
  fl_probeAddr :: string
  fl_enableLeaderElection :: bool
  fl_syncPeriod :: int64
  fl_reconcileTimeout :: int64

text \<open>The flag defaults; a duration is in nanoseconds.\<close>

definition defaultFlags :: flags where
  "defaultFlags = \<lparr>fl_batchGatewayChartPath = ''/charts/batch-gateway'',
     fl_asyncChartPath = ''/charts/llm-d-async'', fl_metricsAddr = '':8443'', fl_metricsSecure = True,
     fl_metricsCertPath = '''', fl_probeAddr = '':8081'', fl_enableLeaderElection = False,
     fl_syncPeriod = 5 * 60 * 1000000000, fl_reconcileTimeout = 30 * 1000000000\<rparr>"

record manager_Options =
  mgr_Metrics :: metrics_Options
  mgr_HealthProbeBindAddress :: string
  mgr_LeaderElection :: bool
  mgr_LeaderElectionID :: string

record ('w, 'c, 'rv) main_env =
  me_GetConfig :: "string option"
  me_NewClient :: "string option"
  me_tls :: tls_env
  me_fetchProfile :: "api_error + TLSProfileSpec"
  me_fetchAdherence :: "string \<times> api_error option"
  me_NewManager :: "manager_Options \<Rightarrow> string option"
  me_Getenv :: "string \<Rightarrow> string"
  me_helm :: "('c, 'rv) helm_lib"
  me_client :: "'w client"
  me_unmarshal :: "string \<Rightarrow> val option"
  me_visit :: "ModelGatewaySpec smap \<Rightarrow> ModelGatewaySpec smap"
  me_kinds :: kind_env
  me_Complete :: "watch list \<Rightarrow> string option"
  me_AddHealthzCheck :: "string option"
  me_AddReadyzCheck :: "string option"
  me_CompleteMetrics :: "(go_type \<times> string) list \<Rightarrow> string option"
  me_SetupWatcher :: "SecurityProfileWatcher \<Rightarrow> string option"
  me_Start :: "string option"

text \<open>The operator as it is when the manager starts.\<close>

record ('w, 'c, 'rv) operator =
  op_Manager :: manager_Options
  op_Reconciler :: "('w, 'c, 'rv) LLMBatchGatewayReconciler"
  op_Filter :: secretWatchFilter
  op_MetricsNamespace :: "string option"
  op_Watcher :: "SecurityProfileWatcher option"

text \<open>A call that gives only an error: exit with the message, or go on.\<close>

definition orExit :: "string option \<Rightarrow> string \<Rightarrow> string + 'a \<Rightarrow> string + 'a" where
  "orExit err msg rest = (case err of Some _ \<Rightarrow> Inl msg | None \<Rightarrow> rest)"

definition registerMetrics :: "('w, 'c, 'rv) main_env \<Rightarrow> string + string option" where
  "registerMetrics env =
     (let operatorNamespace = me_Getenv env ''POD_NAMESPACE''
      in if operatorNamespace \<noteq> ''''
         then orExit (me_CompleteMetrics env (metricsWatches (me_kinds env)))
                ''unable to create controller'' (Inr (Some operatorNamespace))
         else Inr None)"

definition registerAll ::
  "('w, 'c, 'rv) main_env \<Rightarrow> flags \<Rightarrow> manager_Options \<Rightarrow> tls_Result \<Rightarrow> 'c HelmRenderer \<Rightarrow>
   'c HelmRenderer \<Rightarrow> string + ('w, 'c, 'rv) operator" where
  "registerAll env fl mgr tlsResult batchGWHelmRenderer asyncHelmRenderer =
     (case NewLLMBatchGatewayReconciler (me_client env) batchGWHelmRenderer (Some asyncHelmRenderer)
             (fl_syncPeriod fl) (fl_reconcileTimeout fl) (me_helm env) (me_unmarshal env) (me_visit env) of
        (R, secretFilter) \<Rightarrow>
          orExit (me_Complete env (SetupWithManager (me_kinds env))) ''unable to create controller''
         (orExit (me_AddHealthzCheck env) ''unable to set up health check''
         (orExit (me_AddReadyzCheck env) ''unable to set up ready check''
           (case registerMetrics env of
              Inl msg \<Rightarrow> Inl msg
            | Inr metricsNamespace \<Rightarrow>
                (case SetupWatcher (me_SetupWatcher env) tlsResult of
                   Inl _ \<Rightarrow> Inl ''unable to set up TLS profile watcher''
                 | Inr watcher \<Rightarrow>
                     Inr \<lparr>op_Manager = mgr, op_Reconciler = R, op_Filter = secretFilter,
                          op_MetricsNamespace = metricsNamespace, op_Watcher = watcher\<rparr>)))))"

definition startOperator ::
  "('w, 'c, 'rv) main_env \<Rightarrow> flags \<Rightarrow> string + ('w, 'c, 'rv) operator" where
  "startOperator env fl =
     orExit (me_GetConfig env) ''unable to get kubeconfig''
    (orExit (me_NewClient env) ''unable to create bootstrap client''
       (case Resolve (me_tls env) (me_fetchProfile env) (me_fetchAdherence env) of
          Inl _ \<Rightarrow> Inl ''unable to resolve cluster TLS profile''
        | Inr tlsResult \<Rightarrow>
            (let mgr = \<lparr>mgr_Metrics = metricsServerOptions (fl_metricsAddr fl) (fl_metricsSecure fl)
                          (fl_metricsCertPath fl) (tr_TLSOpts tlsResult),
                        mgr_HealthProbeBindAddress = fl_probeAddr fl,
                        mgr_LeaderElection = fl_enableLeaderElection fl,
                        mgr_LeaderElectionID = LeaderElectionID\<rparr>
             in orExit (me_NewManager env mgr) ''unable to create manager''
                  (case componentImagesFromEnv (me_Getenv env) of
                     Inl _ \<Rightarrow> Inl ''unable to resolve 3 component images from env variables''
                   | Inr images \<Rightarrow>
                       (case ProfileValuesFromSpec (me_tls env) (tr_Profile tlsResult) of
                          (helmTLSProfile, unsupportedCiphers, Some _) \<Rightarrow>
                            Inl ''unable to convert cluster TLS profile for Batch Gateway''
                        | (helmTLSProfile, unsupportedCiphers, None) \<Rightarrow>
                            (case NewHelmRenderer (me_helm env) (fl_batchGatewayChartPath fl) images helmTLSProfile of
                               Inl _ \<Rightarrow> Inl ''unable to create batch-gateway helm renderer''
                             | Inr batchGWHelmRenderer \<Rightarrow>
                                 (case NewHelmRenderer (me_helm env) (fl_asyncChartPath fl) images helmTLSProfile of
                                    Inl _ \<Rightarrow> Inl ''unable to create async helm renderer''
                                  | Inr asyncHelmRenderer \<Rightarrow>
                                      registerAll env fl mgr tlsResult batchGWHelmRenderer
                                        asyncHelmRenderer)))))))"

text \<open>The exit status: 0 when the manager was started and stopped without an error.\<close>

definition main :: "('w, 'c, 'rv) main_env \<Rightarrow> flags \<Rightarrow> nat" where
  "main env fl =
     (case startOperator env fl of
        Inl _ \<Rightarrow> 1
      | Inr _ \<Rightarrow> (case me_Start env of Some _ \<Rightarrow> 1 | None \<Rightarrow> 0))"

section \<open>Lemmas\<close>

lemma orExit_Inr [simp]: "orExit err msg rest = Inr x \<longleftrightarrow> err = None \<and> rest = Inr x"
  by (simp add: orExit_def split: option.split)

lemma startOperator_Inr:
  assumes "startOperator env fl = Inr op"
  obtains tlsResult images tls skipped h1 h2 mgr where
    "Resolve (me_tls env) (me_fetchProfile env) (me_fetchAdherence env) = Inr tlsResult"
    and "componentImagesFromEnv (me_Getenv env) = Inr images"
    and "ProfileValuesFromSpec (me_tls env) (tr_Profile tlsResult) = (tls, skipped, None)"
    and "NewHelmRenderer (me_helm env) (fl_batchGatewayChartPath fl) images tls = Inr h1"
    and "NewHelmRenderer (me_helm env) (fl_asyncChartPath fl) images tls = Inr h2"
    and "registerAll env fl mgr tlsResult h1 h2 = Inr op"
    and "mgr_Metrics mgr = metricsServerOptions (fl_metricsAddr fl) (fl_metricsSecure fl)
      (fl_metricsCertPath fl) (tr_TLSOpts tlsResult)"
  using assms that
  by (auto simp: startOperator_def Let_def split: sum.splits prod.splits option.splits)

lemma NewHelmRenderer_Inr:
  "NewHelmRenderer lib path images tls = Inr h \<longleftrightarrow>
     (\<exists>c. lib_Load lib path = Inr c \<and> h = \<lparr>hr_chart = c, hr_images = images, hr_tlsProfile = tls\<rparr>)"
  by (auto simp: NewHelmRenderer_def split: sum.split)

lemma registerAll_Inr:
  "registerAll env fl mgr tlsResult h1 h2 = Inr op \<Longrightarrow>
     op_Reconciler op = fst (NewLLMBatchGatewayReconciler (me_client env) h1 (Some h2)
       (fl_syncPeriod fl) (fl_reconcileTimeout fl) (me_helm env) (me_unmarshal env) (me_visit env)) \<and>
     op_Filter op = filter_new \<and> op_Manager op = mgr \<and>
     SetupWatcher (me_SetupWatcher env) tlsResult = Inr (op_Watcher op) \<and>
     registerMetrics env = Inr (op_MetricsNamespace op)"
  by (auto simp: registerAll_def NewLLMBatchGatewayReconciler_def split: sum.splits)

lemma componentImages_Inr:
  "componentImagesFromEnv getenv = Inr images \<longleftrightarrow>
     (\<forall>e \<in> set requiredImages. getenv e \<noteq> '''') \<and>
     images = \<lparr>img_APIServer = getenv envImageAPIServer, img_Processor = getenv envImageProcessor,
       img_GC = getenv envImageGC, img_Async = getenv envImageAsync\<rparr>"
  by (auto simp: componentImagesFromEnv_def Let_def filter_empty_conv)

section \<open>Properties\<close>

text \<open>The images are read exactly when all four variables are set.\<close>

lemma images_all_or_none:
  "if list_all (\<lambda>e. getenv e \<noteq> '''') requiredImages
   then componentImagesFromEnv getenv =
      Inr \<lparr>img_APIServer = getenv envImageAPIServer, img_Processor = getenv envImageProcessor,
           img_GC = getenv envImageGC, img_Async = getenv envImageAsync\<rparr>
   else componentImagesFromEnv getenv =
      Inl (Wrap [''required image environment variables are not set'',
                 join '', '' (filter (\<lambda>e. getenv e = '''') requiredImages)] [])"
  by (auto simp: componentImagesFromEnv_def Let_def list_all_iff filter_empty_conv)

text \<open>
  C37: an operator that starts is complete: both charts were loaded from their flags' paths, both
  renderers carry the same four images, none empty, and the same TLS values, converted without
  error from the resolved profile; the async renderer is there, so the missing-renderer error
  of a reconcile cannot arise, and the secret filter starts empty.
\<close>

theorem started_operator_complete:
  assumes "startOperator env fl = Inr op"
  shows "\<exists>images tls skipped tlsResult c1 c2.
    componentImagesFromEnv (me_Getenv env) = Inr images \<and>
    img_APIServer images \<noteq> '''' \<and> img_Processor images \<noteq> '''' \<and> img_GC images \<noteq> '''' \<and>
    img_Async images \<noteq> '''' \<and>
    Resolve (me_tls env) (me_fetchProfile env) (me_fetchAdherence env) = Inr tlsResult \<and>
    ProfileValuesFromSpec (me_tls env) (tr_Profile tlsResult) = (tls, skipped, None) \<and>
    lib_Load (me_helm env) (fl_batchGatewayChartPath fl) = Inr c1 \<and>
    lib_Load (me_helm env) (fl_asyncChartPath fl) = Inr c2 \<and>
    r_BatchGWHelmRenderer (op_Reconciler op) = \<lparr>hr_chart = c1, hr_images = images, hr_tlsProfile = tls\<rparr> \<and>
    r_AsyncHelmRenderer (op_Reconciler op) = Some \<lparr>hr_chart = c2, hr_images = images, hr_tlsProfile = tls\<rparr> \<and>
    r_SyncPeriod (op_Reconciler op) = fl_syncPeriod fl \<and> op_Filter op = filter_new"
proof -
  obtain tlsResult images tls skipped h1 h2 mgr where s:
    "Resolve (me_tls env) (me_fetchProfile env) (me_fetchAdherence env) = Inr tlsResult"
    "componentImagesFromEnv (me_Getenv env) = Inr images"
    "ProfileValuesFromSpec (me_tls env) (tr_Profile tlsResult) = (tls, skipped, None)"
    "NewHelmRenderer (me_helm env) (fl_batchGatewayChartPath fl) images tls = Inr h1"
    "NewHelmRenderer (me_helm env) (fl_asyncChartPath fl) images tls = Inr h2"
    and r: "registerAll env fl mgr tlsResult h1 h2 = Inr op"
    by (rule startOperator_Inr [OF assms])
  from s(4,5) obtain c1 c2 where "lib_Load (me_helm env) (fl_batchGatewayChartPath fl) = Inr c1"
    "lib_Load (me_helm env) (fl_asyncChartPath fl) = Inr c2"
    "h1 = \<lparr>hr_chart = c1, hr_images = images, hr_tlsProfile = tls\<rparr>"
    "h2 = \<lparr>hr_chart = c2, hr_images = images, hr_tlsProfile = tls\<rparr>"
    by (auto simp: NewHelmRenderer_Inr)
  with s(1-3) registerAll_Inr [OF r] show ?thesis
    by (auto simp: componentImages_Inr requiredImages_def NewLLMBatchGatewayReconciler_def)
qed

text \<open>
  The metrics server asks for authentication exactly when it serves securely, and applying
  its TLS options gives the cluster profile's settings, with the certificate read from the given
  directory when there is one.
\<close>

lemma metrics_server_options:
  "mo_AuthFilter (metricsServerOptions addr secure dir opts) = secure \<and>
   mo_SecureServing (metricsServerOptions addr secure dir opts) = secure \<and>
   mo_CertDir (metricsServerOptions addr secure dir opts) = dir \<and>
   fold (\<lambda>f c. f c) (mo_TLSOpts (metricsServerOptions addr secure dir opts)) c =
     (if dir = '''' then fold (\<lambda>f c. f c) opts c
      else (fold (\<lambda>f c. f c) opts c)\<lparr>conf_Certificate :=
        Some (pathJoin dir ''tls.crt'', pathJoin dir ''tls.key'')\<rparr>)"
  by (simp add: metricsServerOptions_def loadMetricsCertificate_def Let_def)

section \<open>Witnesses\<close>

definition sampleEnv :: "(cluster, unit, unit) main_env" where
  "sampleEnv = \<lparr>me_GetConfig = None, me_NewClient = None, me_tls = sampleTLS,
     me_fetchProfile = Inr \<lparr>prof_Ciphers = [], prof_MinTLSVersion = ''VersionTLS12''\<rparr>,
     me_fetchAdherence = ('''', None),
     me_NewManager = (\<lambda>_. None), me_Getenv = (\<lambda>e. e), me_helm = sampleLib,
     me_client = clusterClient, me_unmarshal = (\<lambda>_. None), me_visit = id, me_kinds = sampleKinds,
     me_Complete = (\<lambda>_. None), me_AddHealthzCheck = None, me_AddReadyzCheck = None,
     me_CompleteMetrics = (\<lambda>_. None), me_SetupWatcher = (\<lambda>_. None), me_Start = None\<rparr>"

theorem started_operator_complete_witness:
  "\<exists>op. startOperator sampleEnv defaultFlags = Inr op \<and> r_AsyncHelmRenderer (op_Reconciler op) \<noteq> None"
proof -
  have "\<exists>op. startOperator sampleEnv defaultFlags = Inr op"
    by (simp add: startOperator_def sampleEnv_def orExit_def Resolve_def Let_def ProfileValuesFromSpec_def
        VersionTLS12_def componentImagesFromEnv_def requiredImages_def envImageAPIServer_def
        envImageProcessor_def envImageGC_def envImageAsync_def NewHelmRenderer_def sampleLib_def
        registerAll_def NewLLMBatchGatewayReconciler_def registerMetrics_def SetupWatcher_def)
  then obtain op where op: "startOperator sampleEnv defaultFlags = Inr op" ..
  from started_operator_complete [OF this] op show ?thesis by auto
qed

end
