(* ===== verification/Flags.thy ===== *)
theory Flags
  imports Startup
begin

text \<open>
  The command line of \<open>cmd/main.go\<close> (lines 104-115): the flags \<open>main\<close> declares and what
  \<open>flag.Parse\<close> of the standard library makes of the arguments, with \<open>strconv.ParseBool\<close> and
  \<open>time.ParseDuration\<close>, whose arithmetic is that of \<open>uint64\<close>. Parameters are the flags that
  libraries declare (klog's and the path of the kubeconfig), and the floating-point product for
  the digits behind the point of a duration. \<open>operatorMain\<close> is the whole program.
\<close>

section \<open>Boolean values\<close>

definition ParseBool :: "string \<Rightarrow> bool option" where
  "ParseBool s =
     (if s \<in> set [''1'', ''t'', ''T'', ''TRUE'', ''true'', ''True''] then Some True
      else if s \<in> set [''0'', ''f'', ''F'', ''FALSE'', ''false'', ''False''] then Some False
      else None)"

section \<open>Durations\<close>

type_synonym uint64 = "64 word"

definition isDigit :: "char \<Rightarrow> bool" where
  "isDigit c \<longleftrightarrow> CHR ''0'' \<le> c \<and> c \<le> CHR ''9''"

definition digit :: "char \<Rightarrow> nat" where
  "digit c = of_char c - 48"

text \<open>\<open>leadingInt\<close>: the number at the front, \<open>None\<close> above \<open>1<<63\<close>.\<close>

fun leadingInt :: "uint64 \<Rightarrow> string \<Rightarrow> (uint64 \<times> string) option" where
  "leadingInt x [] = Some (x, [])"
| "leadingInt x (c # s) =
     (if \<not> isDigit c then Some (x, c # s)
      else if x > 2 ^ 63 div 10 then None
      else let y = x * 10 + of_nat (digit c) in
        if y > 2 ^ 63 then None else leadingInt y s)"

text \<open>
  \<open>leadingFraction\<close>: the digits behind the point, of which those that do not fit are dropped,
  and how many were kept.
\<close>

fun leadingFraction :: "bool \<Rightarrow> uint64 \<Rightarrow> nat \<Rightarrow> string \<Rightarrow> uint64 \<times> nat \<times> string" where
  "leadingFraction overflow x scale [] = (x, scale, [])"
| "leadingFraction overflow x scale (c # s) =
     (if \<not> isDigit c then (x, scale, c # s)
      else if overflow \<or> x > (2 ^ 63 - 1) div 10 then leadingFraction True x scale s
      else let y = x * 10 + of_nat (digit c) in
        if y > 2 ^ 63 then leadingFraction True x scale s else leadingFraction False y (Suc scale) s)"

definition unitMap :: "uint64 smap" where
  "unitMap = [(''ns'', 1), (''us'', 1000), ([CHR 0xC2, CHR 0xB5, CHR ''s''], 1000),
     ([CHR 0xCE, CHR 0xBC, CHR ''s''], 1000), (''ms'', 1000000), (''s'', 1000000000),
     (''m'', 60000000000), (''h'', 3600000000000)]"

text \<open>
  The truncated product of the digits \<open>f\<close> and \<open>unit/scale\<close> in \<open>float64\<close>.
\<close>

type_synonym float_product = "uint64 \<Rightarrow> uint64 \<Rightarrow> nat \<Rightarrow> uint64"

definition isUnitChar :: "char \<Rightarrow> bool" where
  "isUnitChar c \<longleftrightarrow> c \<noteq> CHR ''.'' \<and> \<not> isDigit c"

text \<open>One number with its unit, and what is left of the text.\<close>

definition durationPart :: "float_product \<Rightarrow> string \<Rightarrow> (uint64 \<times> string) option" where
  "durationPart product s =
     (if \<not> (s \<noteq> [] \<and> (hd s = CHR ''.'' \<or> isDigit (hd s))) then None
      else Option.bind (leadingInt 0 s) (\<lambda>(v, s1).
        let pre = length s \<noteq> length s1;
            point = (s1 \<noteq> [] \<and> hd s1 = CHR ''.'');
            (f, scale, s2) = (if point then leadingFraction False 0 0 (tl s1) else (0, 0, s1));
            post = (point \<and> length (tl s1) \<noteq> length s2);
            u = takeWhile isUnitChar s2
        in if \<not> pre \<and> \<not> post \<or> u = [] then None
           else Option.bind (go_get unitMap u) (\<lambda>unit.
             if v > 2 ^ 63 div unit then None
             else let v = v * unit;
                      w = (if f > 0 then v + product f unit scale else v)
               in if f > 0 \<and> w > 2 ^ 63 then None else Some (w, dropWhile isUnitChar s2))))"

lemma leadingInt_shorter: "leadingInt x s = Some (y, r) \<Longrightarrow> length r \<le> length s"
  by (induction x s rule: leadingInt.induct) (auto simp: Let_def split: if_splits)

lemma leadingFraction_shorter: "leadingFraction ov x n s = (y, k, r) \<Longrightarrow> length r \<le> length s"
  by (induction ov x n s arbitrary: y k r rule: leadingFraction.induct) (fastforce simp: Let_def split: if_splits)+

lemma durationPart_shorter:
  assumes "durationPart product s = Some (v, r)"
  shows "length r < length s"
proof -
  obtain w s1 where s1: "leadingInt 0 s = Some (w, s1)"
    using assms by (auto simp: durationPart_def bind_eq_Some_conv split: if_splits)
  define t where "t = (if s1 \<noteq> [] \<and> hd s1 = CHR ''.'' then leadingFraction False 0 0 (tl s1) else (0, 0, s1))"
  obtain f k s2 where s2: "t = (f, k, s2)" by (cases t) auto
  have "length s1 \<le> length s" by (rule leadingInt_shorter [OF s1])
  moreover have "length s2 \<le> length s1"
    using s2 leadingFraction_shorter [of False 0 0 "tl s1" f k s2] by (cases s1) (auto simp: t_def split: if_splits)
  moreover have "takeWhile isUnitChar s2 \<noteq> [] \<and> r = dropWhile isUnitChar s2"
    using assms unfolding durationPart_def s1 Option.bind.bind_lunit prod.case Let_def
    unfolding t_def [symmetric] s2 prod.case
    by (auto simp: bind_eq_Some_conv split: if_splits)
  moreover have "length (dropWhile isUnitChar s2) + length (takeWhile isUnitChar s2) = length s2"
    by (metis add.commute length_append takeWhile_dropWhile_id)
  ultimately show ?thesis by (cases "takeWhile isUnitChar s2") auto
qed

function durationSum :: "float_product \<Rightarrow> uint64 \<Rightarrow> string \<Rightarrow> uint64 option" where
  "durationSum product d s =
     (if s = [] then Some d
      else (case durationPart product s of
              None \<Rightarrow> None
            | Some (v, r) \<Rightarrow> if d + v > 2 ^ 63 then None else durationSum product (d + v) r))"
  by auto
termination by (relation "measure (\<lambda>(_, _, s). length s)") (auto dest: durationPart_shorter)

declare durationSum.simps [simp del]

definition ParseDuration :: "float_product \<Rightarrow> string \<Rightarrow> int64 option" where
  "ParseDuration product s =
     (let neg = (s \<noteq> [] \<and> hd s = CHR ''-'');
          s = (if s \<noteq> [] \<and> hd s \<in> {CHR ''-'', CHR ''+''} then tl s else s)
      in if s = ''0'' then Some 0
         else if s = [] then None
         else Option.bind (durationSum product 0 s) (\<lambda>d.
           if neg then Some (- d) else if d > 2 ^ 63 - 1 then None else Some d))"

section \<open>The flag set\<close>

text \<open>
  A flag is one of \<open>main\<close>'s, with the assignment to its variable, or a library's: whether it
  is a boolean one, and which values it accepts. Their own variables are not part of the model.
\<close>

datatype flag =
    StringFlag "string \<Rightarrow> flags \<Rightarrow> flags"
  | BoolFlag "bool \<Rightarrow> flags \<Rightarrow> flags"
  | DurationFlag "int64 \<Rightarrow> flags \<Rightarrow> flags"
  | LibraryFlag bool "string \<Rightarrow> bool"

record flag_lib =
  lib_product :: float_product
  lib_flags :: "string \<Rightarrow> (bool \<times> (string \<Rightarrow> bool)) option"

definition ownFlags :: "flag smap" where
  "ownFlags =
    [(''batch-gateway-chart-path'', StringFlag (\<lambda>v fl. fl\<lparr>fl_batchGatewayChartPath := v\<rparr>)),
     (''async-chart-path'', StringFlag (\<lambda>v fl. fl\<lparr>fl_asyncChartPath := v\<rparr>)),
     (''metrics-bind-address'', StringFlag (\<lambda>v fl. fl\<lparr>fl_metricsAddr := v\<rparr>)),
     (''metrics-secure'', BoolFlag (\<lambda>v fl. fl\<lparr>fl_metricsSecure := v\<rparr>)),
     (''metrics-cert-path'', StringFlag (\<lambda>v fl. fl\<lparr>fl_metricsCertPath := v\<rparr>)),
     (''health-probe-bind-address'', StringFlag (\<lambda>v fl. fl\<lparr>fl_probeAddr := v\<rparr>)),
     (''leader-elect'', BoolFlag (\<lambda>v fl. fl\<lparr>fl_enableLeaderElection := v\<rparr>)),
     (''sync-period'', DurationFlag (\<lambda>v fl. fl\<lparr>fl_syncPeriod := v\<rparr>)),
     (''reconcile-timeout'', DurationFlag (\<lambda>v fl. fl\<lparr>fl_reconcileTimeout := v\<rparr>))]"

definition formal :: "flag_lib \<Rightarrow> string \<Rightarrow> flag option" where
  "formal lib name = (case go_get ownFlags name of
     Some f \<Rightarrow> Some f
   | None \<Rightarrow> map_option (\<lambda>(b, accepts). LibraryFlag b accepts) (lib_flags lib name))"

fun IsBoolFlag :: "flag \<Rightarrow> bool" where
  "IsBoolFlag (BoolFlag _) = True"
| "IsBoolFlag (LibraryFlag b _) = b"
| "IsBoolFlag _ = False"

text \<open>\<open>Set\<close> of a flag's value.\<close>

fun setFlag :: "flag_lib \<Rightarrow> flag \<Rightarrow> string \<Rightarrow> flags \<Rightarrow> flags option" where
  "setFlag lib (StringFlag assign) v fl = Some (assign v fl)"
| "setFlag lib (BoolFlag assign) v fl = map_option (\<lambda>b. assign b fl) (ParseBool v)"
| "setFlag lib (DurationFlag assign) v fl = map_option (\<lambda>d. assign d fl) (ParseDuration (lib_product lib) v)"
| "setFlag lib (LibraryFlag _ accepts) v fl = (if accepts v then Some fl else None)"

text \<open>
  \<open>flag.Parse\<close>: the exit status that a request for help (0) or an error (2) ends the program
  with, or the flags. Arguments from the first that is no flag, or behind \<open>--\<close>, are left alone.
\<close>

function parseArgs :: "flag_lib \<Rightarrow> string list \<Rightarrow> flags \<Rightarrow> nat + flags" where
  "parseArgs lib [] fl = Inr fl"
| "parseArgs lib (s # args) fl =
     (if length s < 2 \<or> hd s \<noteq> CHR ''-'' \<or> s = ''--'' then Inr fl
      else let name = (if s ! 1 = CHR ''-'' then drop 2 s else drop 1 s)
        in if name = [] \<or> hd name \<in> {CHR ''-'', CHR ''=''} then Inl 2
           else let eq = dropWhile (\<lambda>c. c \<noteq> CHR ''='') name;
                    name = takeWhile (\<lambda>c. c \<noteq> CHR ''='') name;
                    value = (if eq = [] then None else Some (tl eq))
             in case formal lib name of
                  None \<Rightarrow> if name \<in> {''help'', ''h''} then Inl 0 else Inl 2
                | Some f \<Rightarrow>
                    if IsBoolFlag f
                    then (case setFlag lib f (case value of None \<Rightarrow> ''true'' | Some v \<Rightarrow> v) fl of
                            None \<Rightarrow> Inl 2
                          | Some fl \<Rightarrow> parseArgs lib args fl)
                    else (case value of
                            Some v \<Rightarrow> (case setFlag lib f v fl of None \<Rightarrow> Inl 2 | Some fl \<Rightarrow> parseArgs lib args fl)
                          | None \<Rightarrow> (case args of
                              [] \<Rightarrow> Inl 2
                            | v # args \<Rightarrow> (case setFlag lib f v fl of None \<Rightarrow> Inl 2 | Some fl \<Rightarrow> parseArgs lib args fl))))"
  by pat_completeness auto
termination by (relation "measure (\<lambda>(_, args, _). length args)") auto

text \<open>
  Defining a flag whose name a library has defined panics, and a panic exits with 2, whatever
  the arguments are.
\<close>

definition redefined :: "flag_lib \<Rightarrow> bool" where
  "redefined lib \<longleftrightarrow> list_ex (\<lambda>(name, _). lib_flags lib name \<noteq> None) ownFlags"

definition Parse :: "flag_lib \<Rightarrow> string list \<Rightarrow> nat + flags" where
  "Parse lib args = (if redefined lib then Inl 2 else parseArgs lib args defaultFlags)"

text \<open>The whole program: its exit status for an environment and the arguments behind its name.\<close>

definition operatorMain :: "('w, 'c, 'rv) main_env \<Rightarrow> flag_lib \<Rightarrow> string list \<Rightarrow> nat" where
  "operatorMain env lib args =
     (case Parse lib args of Inl status \<Rightarrow> status | Inr fl \<Rightarrow> main env fl)"

section \<open>Printing and parsing durations\<close>

fun decimal :: "nat \<Rightarrow> string" where
  "decimal n = (if n < 10 then [char_of (48 + n)] else decimal (n div 10) @ [char_of (48 + n mod 10)])"

declare decimal.simps [simp del]

definition showDuration :: "int64 \<Rightarrow> string" where
  "showDuration d = (if sint d < 0 then ''-'' else '''') @ decimal (nat \<bar>sint d\<bar>) @ ''ns''"

lemma digit_char:
  assumes "k < 10"
  shows "isDigit (char_of (48 + k))" and "digit (char_of (48 + k)) = k"
proof -
  have "k \<in> set [0, 1, 2, 3, 4, 5, 6, 7, 8, 9]" using assms by auto
  moreover have "\<forall>k \<in> set [0, 1, 2, 3, 4, 5, 6, 7, 8, 9 :: nat]. isDigit (char_of (48 + k)) \<and> digit (char_of (48 + k)) = k"
    unfolding list_all_iff [symmetric] by code_simp
  ultimately have "isDigit (char_of (48 + k)) \<and> digit (char_of (48 + k)) = k" by blast
  then show "isDigit (char_of (48 + k))" and "digit (char_of (48 + k)) = k" by simp_all
qed

lemma decimal_digits: "list_all isDigit (decimal n)" and decimal_nonempty: "decimal n \<noteq> []"
proof -
  show "list_all isDigit (decimal n)"
  proof (induction n rule: decimal.induct)
    case (1 n)
    then show ?case by (subst decimal.simps) (simp add: digit_char(1))
  qed
  show "decimal n \<noteq> []" by (subst decimal.simps) simp
qed

abbreviation digits :: "nat \<Rightarrow> string \<Rightarrow> nat" where
  "digits \<equiv> foldl (\<lambda>x c. x * 10 + digit c)"

lemma decimal_value: "digits 0 (decimal n) = n"
proof (induction n rule: decimal.induct)
  case (1 n)
  then show ?case by (subst decimal.simps) (simp add: digit_char(2))
qed

lemma digits_mono: "x \<le> digits x s"
proof (induction s arbitrary: x)
  case (Cons c s)
  have "x \<le> x * 10 + digit c" by simp
  also have "\<dots> \<le> digits (x * 10 + digit c) s" by (rule Cons)
  finally show ?case by simp
qed simp

lemma small_word:
  assumes "n \<le> 2 ^ 63"
  shows "unat (of_nat n :: uint64) = n"
  using assms by (simp add: unat_of_nat)

lemma leadingInt_digits:
  assumes "list_all isDigit s" and "digits x s \<le> 2 ^ 63" and "r = [] \<or> \<not> isDigit (hd r)"
  shows "leadingInt (of_nat x) (s @ r) = Some (of_nat (digits x s), r)"
  using assms(1,2)
proof (induction s arbitrary: x)
  case Nil
  then show ?case using assms(3) by (cases r) auto
next
  case (Cons c s)
  let ?y = "x * 10 + digit c"
  have bound: "?y \<le> 2 ^ 63" using Cons.prems(2) digits_mono [of ?y s] by simp
  then have "x \<le> 2 ^ 63 div 10" by simp
  then have "\<not> (of_nat x :: uint64) > 2 ^ 63 div 10"
    using small_word [of x] by (simp add: word_less_nat_alt unat_div)
  moreover have y: "(of_nat x :: uint64) * 10 + of_nat (digit c) = of_nat ?y" by simp
  moreover have "\<not> (of_nat ?y :: uint64) > 2 ^ 63"
    using small_word [OF bound] bound by (simp only: word_less_nat_alt) simp
  ultimately show ?case
    using Cons.IH [of ?y] Cons.prems by (simp only: append_Cons leadingInt.simps Let_def y list.pred_inject foldl_Cons) simp
qed

lemma duration_part_nanos:
  assumes "n \<le> 2 ^ 63"
  shows "durationPart product (decimal n @ ''ns'') = Some (of_nat n, [])"
proof -
  obtain c cs where dec: "decimal n = c # cs" using decimal_nonempty by (meson list.exhaust)
  with decimal_digits [of n] have "isDigit c" by simp
  moreover have "leadingInt 0 (decimal n @ ''ns'') = Some (of_nat n, ''ns'')"
    using leadingInt_digits [OF decimal_digits, of 0 n "''ns''"] assms
    by (simp add: decimal_value isDigit_def)
  moreover have "takeWhile isUnitChar ''ns'' = ''ns''" "dropWhile isUnitChar ''ns'' = []"
    by (simp_all add: isUnitChar_def isDigit_def)
  moreover have "\<not> (of_nat n :: uint64) > 2 ^ 63 div 1"
    using small_word [OF assms] assms by (simp add: word_less_nat_alt)
  ultimately show ?thesis
    by (simp add: durationPart_def dec Let_def unitMap_def)
qed

lemma duration_sum_nanos:
  assumes "n \<le> 2 ^ 63"
  shows "durationSum product 0 (decimal n @ ''ns'') = Some (of_nat n)"
proof -
  have "\<not> (of_nat n :: uint64) > 2 ^ 63"
    using small_word [OF assms] assms by (simp add: word_less_nat_alt)
  then show ?thesis
    by (subst durationSum.simps) (simp add: duration_part_nanos [OF assms], subst durationSum.simps, simp)
qed

lemma parse_show_duration: "ParseDuration product (showDuration d) = Some d"
proof -
  define n where "n = nat \<bar>sint d\<bar>"
  have range: "- (2 ^ 63) \<le> sint d" "sint d < 2 ^ 63"
    using sint_greater_eq [of d] sint_less [of d] by simp_all
  then have n: "n \<le> 2 ^ 63" by (simp add: n_def)
  obtain c cs where dec: "decimal n = c # cs" using decimal_nonempty by (meson list.exhaust)
  with decimal_digits [of n] have c: "c \<noteq> CHR ''-''" "c \<noteq> CHR ''+''" by (auto simp: isDigit_def)
  note sum = duration_sum_nanos [OF n, of product, unfolded dec append_Cons]
  have shown: "showDuration d = (if sint d < 0 then ''-'' else '''') @ (c # cs) @ ''ns''"
    unfolding showDuration_def n_def [symmetric] dec ..
  show ?thesis
  proof (cases "sint d < 0")
    case True
    then have "- (of_nat n :: int64) = d"
      by (simp add: n_def)
    with True show ?thesis
      using sum by (simp add: ParseDuration_def shown Let_def)
  next
    case False
    then have "(of_nat n :: int64) = d" by (simp add: n_def)
    moreover have "\<not> (of_nat n :: uint64) > 2 ^ 63 - 1"
    proof -
      have "n < 2 ^ 63" using False range by (simp add: n_def)
      then show ?thesis using small_word [OF n] by (simp add: word_less_nat_alt)
    qed
    ultimately show ?thesis
      using False sum c by (simp add: ParseDuration_def shown Let_def)
  qed
qed

section \<open>Printing and parsing flags\<close>

definition showBool :: "bool \<Rightarrow> string" where
  "showBool b = (if b then ''true'' else ''false'')"

definition assignment :: "string \<Rightarrow> string \<Rightarrow> string" where
  "assignment name v = ''--'' @ name @ ''='' @ v"

definition showFlags :: "flags \<Rightarrow> string list" where
  "showFlags fl =
    [assignment ''batch-gateway-chart-path'' (fl_batchGatewayChartPath fl),
     assignment ''async-chart-path'' (fl_asyncChartPath fl),
     assignment ''metrics-bind-address'' (fl_metricsAddr fl),
     assignment ''metrics-secure'' (showBool (fl_metricsSecure fl)),
     assignment ''metrics-cert-path'' (fl_metricsCertPath fl),
     assignment ''health-probe-bind-address'' (fl_probeAddr fl),
     assignment ''leader-elect'' (showBool (fl_enableLeaderElection fl)),
     assignment ''sync-period'' (showDuration (fl_syncPeriod fl)),
     assignment ''reconcile-timeout'' (showDuration (fl_reconcileTimeout fl))]"

lemma parse_show_bool: "ParseBool (showBool b) = Some b"
  by (simp add: ParseBool_def showBool_def)

lemma parse_assignment:
  assumes "name \<noteq> []" and "hd name \<noteq> CHR ''-''" and "CHR ''='' \<notin> set name" and "formal lib name = Some f"
  shows "parseArgs lib (assignment name v # args) fl =
    (case setFlag lib f v fl of None \<Rightarrow> Inl 2 | Some fl \<Rightarrow> parseArgs lib args fl)"
proof -
  have "takeWhile (\<lambda>c. c \<noteq> CHR ''='') (name @ CHR ''='' # v) = name"
    "dropWhile (\<lambda>c. c \<noteq> CHR ''='') (name @ CHR ''='' # v) = CHR ''='' # v"
    using assms(3) by (auto simp: takeWhile_append dropWhile_append)
  moreover have "hd (name @ CHR ''='' # v) = hd name" "hd name \<noteq> CHR ''=''"
    using assms(1,3) by (auto simp: hd_append dest: hd_in_set)
  ultimately show ?thesis
    using assms by (simp add: assignment_def Let_def)
qed

lemma show_flags_apply:
  "parseArgs lib (showFlags fl @ args) fl' = parseArgs lib args fl"
proof -
  have own: "formal lib ''batch-gateway-chart-path'' = Some (StringFlag (\<lambda>v fl. fl\<lparr>fl_batchGatewayChartPath := v\<rparr>))"
    "formal lib ''async-chart-path'' = Some (StringFlag (\<lambda>v fl. fl\<lparr>fl_asyncChartPath := v\<rparr>))"
    "formal lib ''metrics-bind-address'' = Some (StringFlag (\<lambda>v fl. fl\<lparr>fl_metricsAddr := v\<rparr>))"
    "formal lib ''metrics-secure'' = Some (BoolFlag (\<lambda>v fl. fl\<lparr>fl_metricsSecure := v\<rparr>))"
    "formal lib ''metrics-cert-path'' = Some (StringFlag (\<lambda>v fl. fl\<lparr>fl_metricsCertPath := v\<rparr>))"
    "formal lib ''health-probe-bind-address'' = Some (StringFlag (\<lambda>v fl. fl\<lparr>fl_probeAddr := v\<rparr>))"
    "formal lib ''leader-elect'' = Some (BoolFlag (\<lambda>v fl. fl\<lparr>fl_enableLeaderElection := v\<rparr>))"
    "formal lib ''sync-period'' = Some (DurationFlag (\<lambda>v fl. fl\<lparr>fl_syncPeriod := v\<rparr>))"
    "formal lib ''reconcile-timeout'' = Some (DurationFlag (\<lambda>v fl. fl\<lparr>fl_reconcileTimeout := v\<rparr>))"
    by (simp_all add: formal_def ownFlags_def)
  show ?thesis
    by (cases fl; cases fl')
      (simp add: showFlags_def parse_assignment own parse_show_bool parse_show_duration del: parseArgs.simps)
qed

section \<open>Properties\<close>

text \<open>
  C31: every configuration can be given on the command line and arrives as it was given,
  whatever the paths, addresses and the two durations (over the whole range of a Go duration)
  are, and whatever flags of other names the libraries add; what follows on the command line
  overrides it. If a library has a flag of a name of the operator's own, the program panics
  whatever the command line is.
\<close>

theorem flags_roundtrip:
  "Parse lib (showFlags fl) = (if redefined lib then Inl 2 else Inr fl) \<and>
   Parse lib (showFlags fl @ args) = (if redefined lib then Inl 2 else parseArgs lib args fl) \<and>
   operatorMain env lib (showFlags fl) = (if redefined lib then 2 else main env fl)"
  using show_flags_apply [of lib fl "[]" defaultFlags] show_flags_apply [of lib fl args defaultFlags]
  by (simp add: Parse_def operatorMain_def)

text \<open>
  An unknown flag, a flag without its value or a value that does not parse ends the program with
  status 2 before anything is started, whatever came before on the command line.
\<close>

lemma bad_arguments_stop:
  assumes "formal lib ''bad'' = None"
  shows "operatorMain env lib (showFlags fl @ ''--bad'' # args) = 2"
    and "operatorMain env lib (showFlags fl @ [''--sync-period'']) = 2"
    and "operatorMain env lib (showFlags fl @ ''--sync-period=5'' # args) = 2"
proof -
  have sync: "formal lib ''sync-period'' = Some (DurationFlag (\<lambda>v fl. fl\<lparr>fl_syncPeriod := v\<rparr>))"
    by (simp add: formal_def ownFlags_def)
  have "ParseDuration p ''5'' = None" for p
    by (simp add: ParseDuration_def durationSum.simps durationPart_def isDigit_def digit_def Let_def)
  then show "operatorMain env lib (showFlags fl @ ''--bad'' # args) = 2"
    "operatorMain env lib (showFlags fl @ [''--sync-period'']) = 2"
    "operatorMain env lib (showFlags fl @ ''--sync-period=5'' # args) = 2"
    by (simp_all add: operatorMain_def Parse_def show_flags_apply assms sync Let_def)
qed

text \<open>The two durations are not checked: zero and negative ones are taken.\<close>

lemma zero_periods_accepted:
  "\<not> redefined lib \<Longrightarrow> Parse lib [''--sync-period=0'', ''-reconcile-timeout'', ''-0'']
     = Inr (defaultFlags\<lparr>fl_syncPeriod := 0, fl_reconcileTimeout := 0\<rparr>)"
  by (simp add: Parse_def Let_def formal_def ownFlags_def ParseDuration_def)

text \<open>The arguments of \<open>config/manager/manager.yaml\<close>, and the defaults as Go prints them.\<close>

lemma manifest_arguments:
  "\<not> redefined lib \<Longrightarrow> Parse lib [''--leader-elect'', ''--batch-gateway-chart-path=/charts/batch-gateway'', ''--async-chart-path=/charts/llm-d-async'']
     = Inr (defaultFlags\<lparr>fl_enableLeaderElection := True\<rparr>)"
  by (simp add: Parse_def Let_def formal_def ownFlags_def ParseBool_def defaultFlags_def)

lemma default_periods:
  "ParseDuration product ''5m0s'' = Some (fl_syncPeriod defaultFlags)"
  "ParseDuration product ''30s'' = Some (fl_reconcileTimeout defaultFlags)"
  by (simp_all add: ParseDuration_def durationSum.simps durationPart_def unitMap_def isDigit_def digit_def
      isUnitChar_def Let_def defaultFlags_def)

end
