(* ===== verification/Convergence.thy ===== *)
theory Convergence
  imports Runs
begin

text \<open>
  What a reconcile achieves on a server that nobody else writes to meanwhile: afterwards the
  objects the gateway controls are those rendered for it, and a further reconcile of the same
  spec deletes nothing. The server is described by the set of objects it stores.
\<close>

section \<open>An undisturbed server\<close>

type_synonym object_key = "string \<times> string \<times> string \<times> string"

definition key_of :: "Unstructured \<Rightarrow> object_key" where
  "key_of x = (u_Group x, u_Kind x, u_Namespace x, u_Name x)"

definition of_kind :: "string \<Rightarrow> string \<Rightarrow> string \<Rightarrow> Unstructured \<Rightarrow> bool" where
  "of_kind g k ns x \<longleftrightarrow> u_Group x = g \<and> u_Kind x = k \<and> u_Namespace x = ns"

definition keeps :: "('w \<Rightarrow> Unstructured set) \<Rightarrow> ('w \<Rightarrow> 'a \<times> 'w) \<Rightarrow> bool" where
  "keeps stored f \<longleftrightarrow> (\<forall>w. stored (snd (f w)) = stored w)"

text \<open>
  A list answers all objects of the kind in the namespace; an API that is missing has none. An
  apply stores the object it answers with, which has the identity of the object sent and keeps
  its controllers; when the API is missing it stores nothing. A delete removes at most the object; after
  a success, or when it was not found, the object is not there.
\<close>

definition lists_all :: "'w client \<Rightarrow> ('w \<Rightarrow> Unstructured set) \<Rightarrow> bool" where
  "lists_all K stored \<longleftrightarrow>
     (\<forall>g v k ns w r w'. k_ListObjects K g v (k @ ''List'') ns w = (r, w') \<longrightarrow>
        stored w' = stored w \<and>
        (case r of
           Inr items \<Rightarrow> set items = {x \<in> stored w. of_kind g k ns x}
         | Inl e \<Rightarrow> e \<in> {NotFound, NoMatch} \<longrightarrow> {x \<in> stored w. of_kind g k ns x} = {}))"

definition applies :: "'w client \<Rightarrow> ('w \<Rightarrow> Unstructured set) \<Rightarrow> bool" where
  "applies K stored \<longleftrightarrow>
     (\<forall>obj data w r w'. k_PatchObject K obj data FieldOwner True w = (r, w') \<longrightarrow>
        (case r of
           Inr obj' \<Rightarrow> key_of obj' = key_of obj \<and>
             (\<forall>gw. isControllerOwnedBy (u_OwnerReferences obj) gw \<longrightarrow>
                isControllerOwnedBy (u_OwnerReferences obj') gw) \<and>
             stored w' = insert obj' {x \<in> stored w. key_of x \<noteq> key_of obj}
         | Inl e \<Rightarrow> e \<in> {NotFound, NoMatch} \<longrightarrow> stored w' = stored w))"

definition deletes :: "'w client \<Rightarrow> ('w \<Rightarrow> Unstructured set) \<Rightarrow> bool" where
  "deletes K stored \<longleftrightarrow>
     (\<forall>obj w r w'. k_Delete K obj w = (r, w') \<longrightarrow>
        stored w' \<subseteq> stored w \<and> {x \<in> stored w. key_of x \<noteq> key_of obj} \<subseteq> stored w' \<and>
        (r \<in> {None, Some NotFound} \<longrightarrow> stored w' = {x \<in> stored w. key_of x \<noteq> key_of obj}))"

definition undisturbed_server :: "'w client \<Rightarrow> ('w \<Rightarrow> Unstructured set) \<Rightarrow> bool" where
  "undisturbed_server K stored \<longleftrightarrow>
     lists_all K stored \<and> applies K stored \<and> deletes K stored \<and>
     (\<forall>ns name. keeps stored (k_GetGateway K ns name)) \<and>
     (\<forall>ns name. keeps stored (k_GetSecret K ns name)) \<and>
     (\<forall>ns. keeps stored (k_ListGrants K ns)) \<and>
     (\<forall>ns sel. keeps stored (k_ListDeployments K ns sel)) \<and>
     (\<forall>ns sel. keeps stored (k_ListStatefulSets K ns sel)) \<and>
     (\<forall>sec data owner force. keeps stored (k_PatchSecret K sec data owner force)) \<and>
     (\<forall>ns name data. keeps stored (k_PatchStatus K ns name data))"

abbreviation on_server :: "('w \<Rightarrow> Unstructured set) \<Rightarrow> 'w st \<Rightarrow> Unstructured set" where
  "on_server stored s \<equiv> stored (st_world s)"

section \<open>Steps that store nothing\<close>

lemma keeps_call: "keeps stored f \<Longrightarrow> call f s = (r, t) \<Longrightarrow> on_server stored t = on_server stored s"
  unfolding keeps_def call_def by (drule spec [of _ "st_world s"]) (auto split: prod.splits)

lemma server_call:
  assumes "undisturbed_server K stored"
  shows "on_server stored (snd (call (k_GetGateway K ns name) s)) = on_server stored s"
    and "on_server stored (snd (call (k_GetSecret K ns name) s)) = on_server stored s"
    and "on_server stored (snd (call (k_ListGrants K ns) s)) = on_server stored s"
    and "on_server stored (snd (call (k_ListDeployments K ns sel) s)) = on_server stored s"
    and "on_server stored (snd (call (k_ListStatefulSets K ns sel) s)) = on_server stored s"
    and "on_server stored (snd (call (k_PatchSecret K sec data owner force) s)) = on_server stored s"
    and "on_server stored (snd (call (k_PatchStatus K ns name data) s)) = on_server stored s"
  by (rule keeps_call [OF _ prod.collapse [symmetric]]; use assms in \<open>simp add: undisturbed_server_def\<close>)+

lemma keeps_resolve:
  assumes "undisturbed_server K stored"
  shows "on_server stored (snd (resolveSecret K gw s)) = on_server stored s"
proof -
  note calls = server_call [OF assms]
  have grant: "on_server stored (snd (checkReferenceGrant K gw name ns u)) = on_server stored u" for name ns u
    by (simp add: checkReferenceGrant_def case_prod_beta calls split: sum.split)
  have sync: "on_server stored (snd (syncSecretCopy K gw src name u)) = on_server stored u" for src name u
    by (simp add: syncSecretCopy_def applySecret_def ServerSideApply_def case_prod_beta calls Let_def
        split: sum.split)
  show ?thesis
    by (simp add: resolveSecret_def Let_def case_prod_beta calls grant sync
        split: sum.split option.split)
qed

lemma keeps_patch_Apply:
  assumes "undisturbed_server K stored"
  shows "on_server stored (snd (patch_Apply K gw p s)) = on_server stored s"
  by (simp add: patch_Apply_def case_prod_beta server_call [OF assms] split: sum.split)

lemma keeps_updateStatus:
  assumes "undisturbed_server K stored"
  shows "on_server stored (snd (updateStatus K gw s)) = on_server stored s"
proof -
  have publish: "on_server stored (snd (publishStatus K gw cs u)) = on_server stored u" for cs u
  proof -
    obtain g p x where eq: "publishStatus K gw cs u = patch_Apply K g p x" and x: "x = u \<or> (\<exists>e. x = emit e u)"
      using publish_patches by blast
    have "on_server stored x = on_server stored u" using x by (elim disjE exE) simp_all
    with keeps_patch_Apply [OF assms] show ?thesis by (simp only: eq)
  qed
  show ?thesis
    by (simp add: updateStatus_def case_prod_beta server_call [OF assms] publish split: sum.split)
qed

section \<open>The clean-up\<close>

text \<open>From \<open>S\<close> to \<open>S'\<close> only objects with the key of one in \<open>P\<close> were removed.\<close>

definition prunes :: "(Unstructured \<Rightarrow> bool) \<Rightarrow> Unstructured set \<Rightarrow> Unstructured set \<Rightarrow> bool" where
  "prunes P S S' \<longleftrightarrow> S' \<subseteq> S \<and> (\<forall>x \<in> S. x \<notin> S' \<longrightarrow> (\<exists>y. P y \<and> key_of y = key_of x))"

lemma prunes_refl [simp]: "prunes P S S"
  by (simp add: prunes_def)

lemma prunes_trans [trans]: "prunes P S T \<Longrightarrow> prunes P T U \<Longrightarrow> prunes P S U"
  unfolding prunes_def by blast

lemma prunes_mono: "prunes P S T \<Longrightarrow> (\<And>y. P y \<Longrightarrow> Q y) \<Longrightarrow> prunes Q S T"
  unfolding prunes_def by blast

lemma prunes_subset: "prunes P S T \<Longrightarrow> T \<subseteq> S"
  by (simp add: prunes_def)

text \<open>One deletion, with the error it adds.\<close>

definition deleteErr :: "GroupVersionKind \<Rightarrow> Unstructured \<Rightarrow> api_error option \<Rightarrow> goerr list" where
  "deleteErr gvk item r = (if r \<in> {None, Some NotFound} then []
     else [Wrap [''deleting'', gvk_Kind gvk, u_Name item] [ErrApi (the r)]])"

lemma deleteItems_Cons:
  "deleteItems K gw (desiredKeys objs) gvk (item # items) errs s =
     (if \<not> orphan gw objs gvk item then deleteItems K gw (desiredKeys objs) gvk items errs s
      else case call (k_Delete K item) s of (r, t) \<Rightarrow>
        deleteItems K gw (desiredKeys objs) gvk items (errs @ deleteErr gvk item r) (emit (Deleted item r) t))"
  by (auto simp: orphan_def desiredKeys_iff deleteErr_def Let_def split: prod.split option.split)

lemma delete_step:
  assumes "deletes K stored" and "call (k_Delete K item) s = (r, t)"
  shows "prunes (\<lambda>y. y = item) (on_server stored s) (on_server stored t)"
    and "deleteErr gvk item r = [] \<Longrightarrow> \<forall>x \<in> on_server stored t. key_of x \<noteq> key_of item"
proof -
  have "k_Delete K item (st_world s) = (r, st_world t)"
    using assms(2) by (auto simp: call_def split: prod.splits)
  with assms(1) have "on_server stored t \<subseteq> on_server stored s"
    "{x \<in> on_server stored s. key_of x \<noteq> key_of item} \<subseteq> on_server stored t"
    "r \<in> {None, Some NotFound} \<longrightarrow> on_server stored t = {x \<in> on_server stored s. key_of x \<noteq> key_of item}"
    unfolding deletes_def by blast+
  then show "prunes (\<lambda>y. y = item) (on_server stored s) (on_server stored t)"
    "deleteErr gvk item r = [] \<Longrightarrow> \<forall>x \<in> on_server stored t. key_of x \<noteq> key_of item"
    by (auto simp: prunes_def deleteErr_def split: if_splits)
qed

text \<open>
  Listed objects that the gateway controls and that were not rendered are gone when no error was
  added; nothing else is removed.
\<close>

lemma deleteItems_stored:
  assumes "deletes K stored"
    and "deleteItems K gw (desiredKeys objs) gvk items errs s = (errs', s')"
  shows "prunes (\<lambda>y. y \<in> set items \<and> orphan gw objs gvk y) (on_server stored s) (on_server stored s') \<and>
    (\<exists>more. errs' = errs @ more \<and> (more = [] \<longrightarrow>
       (\<forall>y \<in> set items. orphan gw objs gvk y \<longrightarrow> (\<forall>x \<in> on_server stored s'. key_of x \<noteq> key_of y))))"
  using assms(2)
proof (induction items arbitrary: errs s)
  case Nil
  then show ?case by auto
next
  case (Cons item items)
  show ?case
  proof (cases "orphan gw objs gvk item")
    case False
    with Cons.prems have "deleteItems K gw (desiredKeys objs) gvk items errs s = (errs', s')"
      unfolding deleteItems_Cons by simp
    from Cons.IH [OF this] False show ?thesis by (auto elim!: prunes_mono)
  next
    case True
    obtain r t where c: "call (k_Delete K item) s = (r, t)" by fastforce
    note step = delete_step [OF assms(1) c]
    have rest: "deleteItems K gw (desiredKeys objs) gvk items (errs @ deleteErr gvk item r)
        (emit (Deleted item r) t) = (errs', s')"
      using Cons.prems True c unfolding deleteItems_Cons by simp
    from Cons.IH [OF rest] obtain more
      where ih: "prunes (\<lambda>y. y \<in> set items \<and> orphan gw objs gvk y) (on_server stored t) (on_server stored s')"
        "errs' = errs @ (deleteErr gvk item r @ more)"
        "more = [] \<longrightarrow> (\<forall>y \<in> set items. orphan gw objs gvk y \<longrightarrow>
           (\<forall>x \<in> on_server stored s'. key_of x \<noteq> key_of y))" by auto
    have "prunes (\<lambda>y. y \<in> set (item # items) \<and> orphan gw objs gvk y) (on_server stored s) (on_server stored s')"
      using True by (intro prunes_trans [OF prunes_mono [OF step(1)] prunes_mono [OF ih(1)]]) auto
    moreover have "\<forall>y \<in> set (item # items). orphan gw objs gvk y \<longrightarrow>
        (\<forall>x \<in> on_server stored s'. key_of x \<noteq> key_of y)" if "deleteErr gvk item r @ more = []"
      using that step(2) ih(3) prunes_subset [OF ih(1)] by auto
    ultimately show ?thesis using ih(2) by blast
  qed
qed

text \<open>An object on the server that the clean-up of a kind removes.\<close>

definition stale :: "LLMBatchGateway \<Rightarrow> Unstructured list \<Rightarrow> GroupVersionKind \<Rightarrow> Unstructured \<Rightarrow> bool" where
  "stale gw objs gvk x \<longleftrightarrow>
     of_kind (gvk_Group gvk) (gvk_Kind gvk) (gw_Namespace gw) x \<and> orphan gw objs gvk x"

text \<open>The clean-up of one kind.\<close>

lemma cleanKind_stored:
  assumes "deletes K stored" and "lists_all K stored"
    and "deleteKinds K gw (desiredKeys objs) (gvk # gvks) errs s = (errs', s')"
  obtains more t where "prunes (\<lambda>y. y \<in> on_server stored s \<and> stale gw objs gvk y)
      (on_server stored s) (on_server stored t)"
    and "deleteKinds K gw (desiredKeys objs) gvks (errs @ more) t = (errs', s')"
    and "more = [] \<Longrightarrow> \<forall>x \<in> on_server stored t. \<not> stale gw objs gvk x"
proof -
  let ?of = "of_kind (gvk_Group gvk) (gvk_Kind gvk) (gw_Namespace gw)"
  obtain r u where c: "call (k_ListObjects K (gvk_Group gvk) (gvk_Version gvk)
      (gvk_Kind gvk @ ''List'') (gw_Namespace gw)) s = (r, u)" by fastforce
  then have "k_ListObjects K (gvk_Group gvk) (gvk_Version gvk) (gvk_Kind gvk @ ''List'')
      (gw_Namespace gw) (st_world s) = (r, st_world u)"
    by (auto simp: call_def split: prod.splits)
  then have list: "on_server stored u = on_server stored s"
    "\<And>items. r = Inr items \<Longrightarrow> set items = {x \<in> on_server stored s. ?of x}"
    "\<And>e. r = Inl e \<Longrightarrow> e \<in> {NotFound, NoMatch} \<Longrightarrow> {x \<in> on_server stored s. ?of x} = {}"
    using assms(2) unfolding lists_all_def by (fastforce split: sum.splits)+
  show thesis
  proof (cases r)
    case (Inl e)
    let ?more = "if e \<in> {NotFound, NoMatch} then [] else [Wrap [''listing'', gvk_Kind gvk] [ErrApi e]]"
    have "deleteKinds K gw (desiredKeys objs) gvks (errs @ ?more) u = (errs', s')"
      using assms(3) c Inl by (auto split: if_splits)
    then show thesis
      by (rule that [rotated]) (use list(1) list(3) [OF Inl] in \<open>auto simp: stale_def split: if_splits\<close>)
  next
    case (Inr items)
    obtain errs1 t where d: "deleteItems K gw (desiredKeys objs) gvk items errs u = (errs1, t)"
      by fastforce
    from deleteItems_stored [OF assms(1) d] obtain more where one:
      "prunes (\<lambda>y. y \<in> set items \<and> orphan gw objs gvk y) (on_server stored s) (on_server stored t)"
      "errs1 = errs @ more" "more = [] \<longrightarrow> (\<forall>y \<in> set items. orphan gw objs gvk y \<longrightarrow>
         (\<forall>x \<in> on_server stored t. key_of x \<noteq> key_of y))"
      unfolding list(1) by blast
    show thesis
    proof (rule that)
      show "prunes (\<lambda>y. y \<in> on_server stored s \<and> stale gw objs gvk y)
          (on_server stored s) (on_server stored t)"
        by (rule prunes_mono [OF one(1)]) (use list(2) [OF Inr] in \<open>auto simp: stale_def\<close>)
      show "deleteKinds K gw (desiredKeys objs) gvks (errs @ more) t = (errs', s')"
        using assms(3) c Inr d one(2) by simp
      show "more = [] \<Longrightarrow> \<forall>x \<in> on_server stored t. \<not> stale gw objs gvk x"
        using one(3) list(2) [OF Inr] prunes_subset [OF one(1)] unfolding stale_def by blast
    qed
  qed
qed

lemma deleteKinds_stored:
  assumes "deletes K stored" and "lists_all K stored"
    and "deleteKinds K gw (desiredKeys objs) gvks errs s = (errs', s')"
  shows "prunes (\<lambda>y. y \<in> on_server stored s \<and> (\<exists>gvk \<in> set gvks. stale gw objs gvk y))
      (on_server stored s) (on_server stored s') \<and>
    (\<exists>more. errs' = errs @ more \<and> (more = [] \<longrightarrow>
       (\<forall>x \<in> on_server stored s'. \<forall>gvk \<in> set gvks. \<not> stale gw objs gvk x)))"
  using assms(3)
proof (induction gvks arbitrary: errs s)
  case Nil
  then show ?case by auto
next
  case (Cons gvk gvks)
  obtain more1 t where one: "prunes (\<lambda>y. y \<in> on_server stored s \<and> stale gw objs gvk y)
      (on_server stored s) (on_server stored t)"
    and rest: "deleteKinds K gw (desiredKeys objs) gvks (errs @ more1) t = (errs', s')"
    and none: "more1 = [] \<Longrightarrow> \<forall>x \<in> on_server stored t. \<not> stale gw objs gvk x"
    using cleanKind_stored [OF assms(1,2) Cons.prems] by metis
  from Cons.IH [OF rest] obtain more
    where ih: "prunes (\<lambda>y. y \<in> on_server stored t \<and> (\<exists>gvk \<in> set gvks. stale gw objs gvk y))
        (on_server stored t) (on_server stored s')"
      "errs' = errs @ (more1 @ more)"
      "more = [] \<longrightarrow> (\<forall>x \<in> on_server stored s'. \<forall>gvk \<in> set gvks. \<not> stale gw objs gvk x)" by auto
  have "prunes (\<lambda>y. y \<in> on_server stored s \<and> (\<exists>g \<in> set (gvk # gvks). stale gw objs g y))
      (on_server stored s) (on_server stored s')"
    by (rule prunes_trans [OF prunes_mono [OF one] prunes_mono [OF ih(1)]])
      (use prunes_subset [OF one] in auto)
  moreover have "\<forall>x \<in> on_server stored s'. \<forall>g \<in> set (gvk # gvks). \<not> stale gw objs g x" if "more1 @ more = []"
    using that none ih(3) prunes_subset [OF ih(1)] by auto
  ultimately show ?case using ih(2) by blast
qed

section \<open>The applies\<close>

text \<open>The key under which a rendered object is stored.\<close>

definition target :: "LLMBatchGateway \<Rightarrow> Unstructured \<Rightarrow> object_key" where
  "target gw obj = (u_Group obj, u_Kind obj, gw_Namespace gw, u_Name obj)"

definition controlled :: "LLMBatchGateway \<Rightarrow> Unstructured \<Rightarrow> bool" where
  "controlled gw x \<longleftrightarrow> isControllerOwnedBy (u_OwnerReferences x) gw"

text \<open>
  From \<open>S\<close> to \<open>S'\<close> objects were only stored under keys of \<open>T\<close>, and what the gateway
  controlled is still there, under its control.
\<close>

definition extends_by :: "LLMBatchGateway \<Rightarrow> object_key set \<Rightarrow> Unstructured set \<Rightarrow> Unstructured set \<Rightarrow> bool" where
  "extends_by gw T S S' \<longleftrightarrow>
     (\<forall>x. key_of x \<notin> T \<longrightarrow> (x \<in> S' \<longleftrightarrow> x \<in> S)) \<and>
     (\<forall>x \<in> S. controlled gw x \<longrightarrow> (\<exists>y \<in> S'. key_of y = key_of x \<and> controlled gw y))"

lemma extends_by_refl [simp]: "extends_by gw T S S"
  by (auto simp: extends_by_def)

lemma extends_by_trans:
  "extends_by gw T S S' \<Longrightarrow> extends_by gw T' S' S'' \<Longrightarrow> extends_by gw (T \<union> T') S S''"
  unfolding extends_by_def by (metis UnI1 UnI2)

text \<open>One object: stored under the gateway's control, or its API is missing.\<close>

lemma apply_step:
  assumes "applies K stored" and "applyObject K obj s = (r, t)" and "controlled gw obj"
    and "\<And>e. r = Inl e \<Longrightarrow> isNotFound e \<or> isNoMatch e"
  shows "extends_by gw {key_of obj} (on_server stored s) (on_server stored t)"
    and "(\<exists>x \<in> on_server stored t. key_of x = key_of obj \<and> controlled gw x) \<or>
      (\<exists>a \<in> {NotFound, NoMatch}. Applied obj (Some a) \<in> set (new_log s t))"
proof -
  obtain data where m: "k_MarshalObject K obj = Inr data"
    using assms(2,4) by (fastforce simp: applyObject_def ServerSideApply_def split: sum.splits prod.splits)
  obtain a u where c: "call (k_PatchObject K obj data FieldOwner True) s = (a, u)" by fastforce
  have r: "r = (case a of Inl e \<Rightarrow> Inl (ErrApi e) | Inr obj' \<Rightarrow> Inr obj')"
    "t = emit (Applied obj (error_of a)) u"
    using assms(2) m c by (auto simp: applyObject_def ServerSideApply_def)
  have p: "k_PatchObject K obj data FieldOwner True (st_world s) = (a, st_world u)"
    using c by (auto simp: call_def split: prod.splits)
  have log: "new_log s t = [Applied obj (error_of a)]"
    using call_eq [OF c] r(2) by (simp add: new_log_def)
  show "extends_by gw {key_of obj} (on_server stored s) (on_server stored t)"
  proof (cases a)
    case (Inl e')
    with r assms(4) have "e' \<in> {NotFound, NoMatch}" by auto
    with assms(1) p Inl have "on_server stored u = on_server stored s"
      unfolding applies_def by fastforce
    with r(2) show ?thesis by simp
  next
    case (Inr obj')
    with assms(1) p have "key_of obj' = key_of obj" "isControllerOwnedBy (u_OwnerReferences obj) gw \<longrightarrow>
        isControllerOwnedBy (u_OwnerReferences obj') gw"
      "on_server stored u = insert obj' {x \<in> on_server stored s. key_of x \<noteq> key_of obj}"
      unfolding applies_def by fastforce+
    with r(2) assms(3) show ?thesis by (auto simp: extends_by_def controlled_def)
  qed
  show "(\<exists>x \<in> on_server stored t. key_of x = key_of obj \<and> controlled gw x) \<or>
      (\<exists>a \<in> {NotFound, NoMatch}. Applied obj (Some a) \<in> set (new_log s t))"
  proof (cases a)
    case (Inl e')
    with r(1) assms(4) have "e' \<in> {NotFound, NoMatch}" by auto
    with Inl show ?thesis by (auto simp: log error_of_def)
  next
    case (Inr obj')
    with assms(1) p have "key_of obj' = key_of obj" "isControllerOwnedBy (u_OwnerReferences obj) gw \<longrightarrow>
        isControllerOwnedBy (u_OwnerReferences obj') gw" "obj' \<in> on_server stored u"
      unfolding applies_def by fastforce+
    with r(2) assms(3) show ?thesis by (auto simp: controlled_def)
  qed
qed

definition present :: "LLMBatchGateway \<Rightarrow> Unstructured set \<Rightarrow> object_key \<Rightarrow> bool" where
  "present gw S key \<longleftrightarrow> (\<exists>x \<in> S. key_of x = key \<and> controlled gw x)"

definition api_missing :: "effect list \<Rightarrow> object_key \<Rightarrow> bool" where
  "api_missing es key \<longleftrightarrow>
     (\<exists>out. key_of out = key \<and> (\<exists>a \<in> {NotFound, NoMatch}. Applied out (Some a) \<in> set es))"

lemma applyObjects_stored:
  assumes "applies K stored" and "owner_lib K" and "applyObjects K gw objs s = (Inr objs', s')"
  shows "extends_by gw (target gw ` set objs) (on_server stored s) (on_server stored s') \<and>
    (\<forall>obj \<in> set objs. present gw (on_server stored s') (target gw obj) \<or>
       api_missing (new_log s s') (target gw obj))"
  using assms(3)
proof (induction objs arbitrary: objs' s)
  case Nil
  then show ?case by simp
next
  case (Cons obj objs)
  obtain refs where refs: "k_SetControllerReference K gw (gw_Namespace gw) (u_OwnerReferences obj) = Inr refs"
    using Cons.prems by (auto simp: Let_def split: sum.splits)
  define out where "out = obj\<lparr>u_Namespace := gw_Namespace gw, u_OwnerReferences := refs\<rparr>"
  have out: "key_of out = target gw obj" "controlled gw out"
    using assms(2) refs by (auto simp: out_def key_of_def target_def controlled_def owner_lib_def)
  obtain a t where ap: "applyObject K out s = (a, t)" by fastforce
  obtain os where rest: "applyObjects K gw objs t = (Inr os, s')"
    and soft: "\<And>e. a = Inl e \<Longrightarrow> isNotFound e \<or> isNoMatch e"
    using Cons.prems refs ap
    by (fastforce simp: Let_def out_def [symmetric] split: sum.splits if_splits prod.splits)
  note step = apply_step [OF assms(1) ap out(2) soft]
  have log: "set (new_log s s') = set (new_log s t) \<union> set (new_log t s')"
    using applyObject_log [OF ap] applyObjects_log [OF rest] by (auto simp: new_log_def)
  from Cons.IH [OF rest] have ih:
    "extends_by gw (target gw ` set objs) (on_server stored t) (on_server stored s')"
    "\<forall>obj \<in> set objs. present gw (on_server stored s') (target gw obj) \<or>
       api_missing (new_log t s') (target gw obj)" by auto
  have "extends_by gw (target gw ` set (obj # objs)) (on_server stored s) (on_server stored s')"
    using extends_by_trans [OF step(1) ih(1)] out(1) by (simp add: insert_is_Un [symmetric])
  moreover have "present gw (on_server stored s') (target gw obj) \<or> api_missing (new_log s s') (target gw obj)"
    using step(2) ih(1) out(1) unfolding present_def api_missing_def extends_by_def log by (metis UnI1)
  moreover have "\<forall>obj \<in> set objs. present gw (on_server stored s') (target gw obj) \<or>
       api_missing (new_log s s') (target gw obj)"
    using ih(2) unfolding api_missing_def log by blast
  ultimately show ?case by simp
qed

section \<open>Rendering depends on the spec\<close>

text \<open>The same resource, up to what the server and the status patches change.\<close>

definition same_resource :: "LLMBatchGateway \<Rightarrow> LLMBatchGateway \<Rightarrow> bool" where
  "same_resource gw gw' \<longleftrightarrow> gw_Name gw' = gw_Name gw \<and> gw_Namespace gw' = gw_Namespace gw \<and>
     gw_UID gw' = gw_UID gw \<and> gw_Spec gw' = gw_Spec gw"

lemma batch_values_spec:
  assumes "gw_Spec gw' = gw_Spec gw"
  shows "specToBatchHelmValues gw' n i t = specToBatchHelmValues gw n i t"
  unfolding specToBatchHelmValues_def globalValues_def apiserverValues_def processorValues_def
    gcValues_def procConfigValues_def asyncDispatchValues_def monitoringEnabled_def assms ..

lemma async_queues_spec:
  assumes "gw_Spec gw' = gw_Spec gw"
  shows "redisQueues gw' = redisQueues gw" "sqlQueues gw' = sqlQueues gw"
    "sqlResultQueueName gw' = sqlResultQueueName gw"
  unfolding redisQueues_def [abs_def] sqlQueues_def [abs_def] sqlResultQueueName_def
    defaultAsyncQueues_def sortedModelGateways_def sortedModelNames_def modelGateway_def [abs_def] assms
  by (rule refl)+

lemma async_values_spec:
  assumes "gw_Spec gw' = gw_Spec gw"
  shows "specToAsyncHelmValues u gw' n i = specToAsyncHelmValues u gw n i"
  unfolding specToAsyncHelmValues_def apBaseValues_def apTailValues_def setTransport_def
    redisTransportConfig_def sqlTransportConfig_def redisTracing_def monitoringEnabled_def
    async_queues_spec [OF assms] assms ..

lemma renders_same:
  assumes "same_resource gw gw'"
  shows "renders R gw' n objs \<longleftrightarrow> renders R gw n objs"
proof -
  have eqs: "gw_Spec gw' = gw_Spec gw" "gw_Name gw' = gw_Name gw" "gw_Namespace gw' = gw_Namespace gw"
    using assms by (simp_all add: same_resource_def)
  show ?thesis
    unfolding renders_def RenderBatchChart_def RenderAsyncChart_def renderChart_def
      batch_values_spec [OF eqs(1)] async_values_spec [OF eqs(1)] eqs ..
qed

lemma renders_unique: "renders R gw n objs \<Longrightarrow> renders R gw n objs' \<Longrightarrow> objs = objs'"
  by (auto simp: renders_def)

lemma resolved_name:
  assumes "fst (resolveSecret K gw s) = Inr n"
  shows "n = (if secretNamespace gw = gw_Namespace gw then secretName gw else localSecretName gw)"
  using assms
  by (auto simp: resolveSecret_def Let_def case_prod_beta split: sum.splits option.splits if_splits)

lemma canApply_same:
  assumes "same_resource gw gw'" and "canApply R gw s objs" and "canApply R gw' t objs'"
  shows "objs' = objs"
proof -
  obtain n n' where n: "fst (resolveSecret (r_Client R) gw s) = Inr n" "renders R gw n objs"
    and n': "fst (resolveSecret (r_Client R) gw' t) = Inr n'" "renders R gw' n' objs'"
    using assms(2,3) by (auto simp: canApply_def)
  have "n' = n"
    using resolved_name [OF n(1)] resolved_name [OF n'(1)] assms(1)
    by (simp add: same_resource_def secretNamespace_def localSecretName_def Let_def)
  with n(2) n'(2) show ?thesis
    using renders_same [OF assms(1)] renders_unique by metis
qed

section \<open>A whole reconcile\<close>

definition managed :: "Unstructured \<Rightarrow> bool" where
  "managed x \<longleftrightarrow> list_ex (\<lambda>gvk. gvk_Group gvk = u_Group x \<and> gvk_Kind gvk = u_Kind x) managedGVKs"

lemma stale_iff:
  "(\<exists>gvk \<in> set managedGVKs. stale gw objs gvk x) \<longleftrightarrow>
     managed x \<and> u_Namespace x = gw_Namespace gw \<and> controlled gw x \<and>
     \<not> hasKey objs (u_Group x) (u_Kind x) (u_Name x)"
  unfolding managed_def stale_def of_kind_def orphan_def controlled_def list_ex_iff by metis

lemma target_iff:
  "key_of x \<in> target gw ` set objs \<longleftrightarrow>
     u_Namespace x = gw_Namespace gw \<and> hasKey objs (u_Group x) (u_Kind x) (u_Name x)"
  by (auto simp: key_of_def target_def hasKey_def image_iff) metis

lemma cleanUp_stored:
  assumes "deletes K stored" and "lists_all K stored"
    and "deleteOrphanedResources K gw objs s = (err, s')"
  shows "prunes (\<lambda>y. y \<in> on_server stored s \<and> managed y \<and> u_Namespace y = gw_Namespace gw \<and> controlled gw y \<and>
      key_of y \<notin> target gw ` set objs) (on_server stored s) (on_server stored s')"
    and "err = None \<Longrightarrow> x \<in> on_server stored s' \<Longrightarrow> managed x \<Longrightarrow>
      u_Namespace x = gw_Namespace gw \<Longrightarrow> controlled gw x \<Longrightarrow> key_of x \<in> target gw ` set objs"
proof -
  obtain errs where d: "deleteKinds K gw (desiredKeys objs) managedGVKs [] s = (errs, s')"
    and err: "err = errorsJoin errs"
    using assms(3) by (auto simp: deleteOrphanedResources_def split: prod.splits)
  note k = deleteKinds_stored [OF assms(1,2) d, unfolded stale_iff]
  show "prunes (\<lambda>y. y \<in> on_server stored s \<and> managed y \<and> u_Namespace y = gw_Namespace gw \<and> controlled gw y \<and>
      key_of y \<notin> target gw ` set objs) (on_server stored s) (on_server stored s')"
    by (rule prunes_mono [OF k [THEN conjunct1]]) (auto simp: target_iff)
  have "errs = [] \<Longrightarrow> \<forall>x \<in> on_server stored s'. \<not> (\<exists>gvk \<in> set managedGVKs. stale gw objs gvk x)"
    using deleteKinds_stored [OF assms(1,2) d] by auto
  then show "err = None \<Longrightarrow> x \<in> on_server stored s' \<Longrightarrow> managed x \<Longrightarrow>
      u_Namespace x = gw_Namespace gw \<Longrightarrow> controlled gw x \<Longrightarrow> key_of x \<in> target gw ` set objs"
    using err unfolding stale_iff by (auto simp: errorsJoin_def target_iff split: if_splits)
qed

text \<open>A successful second half, with the states between its three phases.\<close>

lemma reconcileObjects_phases:
  assumes "reconcileObjects R gw objs s = ((res, None), s')"
  obtains objs' t u where "applyObjects (r_Client R) gw objs s = (Inr objs', t)"
    and "deleteOrphanedResources (r_Client R) gw objs' t = (None, u)"
    and "updateStatus (r_Client R) gw u = (None, s')"
  using assms by (auto simp: reconcileObjects_def split: prod.splits sum.splits option.splits)

lemma same_targets:
  assumes "map identity objs' = map identity objs"
  shows "target gw ` set objs' = target gw ` set objs"
proof -
  have "target gw x = (case identity x of (g, k, n) \<Rightarrow> (g, k, gw_Namespace gw, n))" for x
    by (simp add: target_def identity_def)
  then have "target gw ` set xs = (\<lambda>(g, k, n). (g, k, gw_Namespace gw, n)) ` set (map identity xs)" for xs
    by (force simp: image_image)
  with assms show ?thesis by metis
qed

lemma applies_echo: "applies K stored \<Longrightarrow> echoes_identity K"
  unfolding echoes_identity_def
proof (intro allI impI)
  fix obj data w obj' w'
  assume laws: "applies K stored" and "k_PatchObject K obj data FieldOwner True w = (Inr obj', w')"
  then have "key_of obj' = key_of obj" unfolding applies_def by fastforce
  then show "u_Group obj' = u_Group obj \<and> u_Kind obj' = u_Kind obj \<and> u_Name obj' = u_Name obj"
    by (simp add: key_of_def)
qed

lemma new_log_within:
  assumes "st_log t = st_log s @ a" and "st_log u = st_log t @ b" and "st_log v = st_log u @ c"
  shows "set (new_log t u) \<subseteq> set (new_log s v)"
  using assms by (auto simp: new_log_def)

lemma api_missing_mono: "api_missing es k \<Longrightarrow> set es \<subseteq> set es' \<Longrightarrow> api_missing es' k"
  unfolding api_missing_def by blast

text \<open>The second half of a reconcile as a change of the stored objects.\<close>

lemma reconcileObjects_stored:
  assumes server: "undisturbed_server (r_Client R) stored" and "owner_lib (r_Client R)"
    and "reconcileObjects R gw objs s = ((res, None), s')"
  shows "\<forall>obj \<in> set objs. present gw (on_server stored s') (target gw obj) \<or>
      api_missing (new_log s s') (target gw obj)"
    and "\<forall>x \<in> on_server stored s'. managed x \<and> u_Namespace x = gw_Namespace gw \<and> controlled gw x \<longrightarrow>
      key_of x \<in> target gw ` set objs"
    and "\<forall>x \<in> on_server stored s. key_of x \<notin> target gw ` set objs \<and>
      (\<forall>y \<in> on_server stored s. key_of y = key_of x \<longrightarrow> \<not> controlled gw y) \<longrightarrow> x \<in> on_server stored s'"
proof -
  let ?K = "r_Client R"
  have laws: "applies ?K stored" "deletes ?K stored" "lists_all ?K stored"
    using server by (simp_all add: undisturbed_server_def)
  obtain objs' t u where a: "applyObjects ?K gw objs s = (Inr objs', t)"
    and d: "deleteOrphanedResources ?K gw objs' t = (None, u)"
    and p: "updateStatus ?K gw u = (None, s')"
    by (rule reconcileObjects_phases [OF assms(3)])
  note applied = applyObjects_stored [OF laws(1) assms(2) a]
  note cleaned = cleanUp_stored [OF laws(2,3) d,
      unfolded same_targets [OF applyObjects_identity [OF applies_echo [OF laws(1)] a]]]
  have s': "on_server stored s' = on_server stored u"
    using keeps_updateStatus [OF server, of gw u] p by simp
  have log: "set (new_log s t) \<subseteq> set (new_log s s')"
  proof -
    obtain es where "st_log t = st_log s @ es" using applyObjects_log [OF a] by blast
    moreover obtain ds where "st_log u = st_log t @ ds"
      using deleteOrphaned_log [OF d] by (auto simp: logs_def)
    moreover obtain rs where "st_log s' = st_log u @ rs"
      using updateStatus_frame [OF p] by (auto simp: logs_def)
    ultimately show ?thesis by (auto simp: new_log_def)
  qed
  show "\<forall>obj \<in> set objs. present gw (on_server stored s') (target gw obj) \<or>
      api_missing (new_log s s') (target gw obj)"
  proof
    fix obj assume obj: "obj \<in> set objs"
    have "x \<in> on_server stored u" if "x \<in> on_server stored t" "key_of x = target gw obj" for x
      using that cleaned(1) obj unfolding prunes_def by force
    then have "present gw (on_server stored u) (target gw obj)" if "present gw (on_server stored t) (target gw obj)"
      using that unfolding present_def by blast
    with applied obj s' api_missing_mono [OF _ log, of "target gw obj"]
    show "present gw (on_server stored s') (target gw obj) \<or> api_missing (new_log s s') (target gw obj)"
      by auto
  qed
  show "\<forall>x \<in> on_server stored s'. managed x \<and> u_Namespace x = gw_Namespace gw \<and> controlled gw x \<longrightarrow>
      key_of x \<in> target gw ` set objs"
    using cleaned(2) s' by simp
  show "\<forall>x \<in> on_server stored s. key_of x \<notin> target gw ` set objs \<and>
      (\<forall>y \<in> on_server stored s. key_of y = key_of x \<longrightarrow> \<not> controlled gw y) \<longrightarrow> x \<in> on_server stored s'"
  proof (intro ballI impI)
    fix x assume x: "x \<in> on_server stored s" and free: "key_of x \<notin> target gw ` set objs \<and>
        (\<forall>y \<in> on_server stored s. key_of y = key_of x \<longrightarrow> \<not> controlled gw y)"
    have same: "y \<in> on_server stored t \<longleftrightarrow> y \<in> on_server stored s" if "key_of y = key_of x" for y
      using applied that free unfolding extends_by_def by simp
    show "x \<in> on_server stored s'"
    proof (rule ccontr)
      assume "x \<notin> on_server stored s'"
      then obtain y where "y \<in> on_server stored t" "controlled gw y" "key_of y = key_of x"
        using cleaned(1) x same s' unfolding prunes_def by blast
      with same free show False by blast
    qed
  qed
qed

text \<open>What the clean-up deletes was on the server when it started.\<close>

lemma listAnswers_stored:
  assumes "deletes K stored" and "lists_all K stored"
  shows "(gvk, Inr items) \<in> set (listAnswers K gw objs gvks s) \<Longrightarrow>
    set items \<subseteq> {x \<in> on_server stored s. of_kind (gvk_Group gvk) (gvk_Kind gvk) (gw_Namespace gw) x}"
proof (induction gvks arbitrary: s)
  case Nil
  then show ?case by simp
next
  case (Cons g gvks)
  obtain r t where c: "call (k_ListObjects K (gvk_Group g) (gvk_Version g)
      (gvk_Kind g @ ''List'') (gw_Namespace gw)) s = (r, t)" by fastforce
  then have l: "k_ListObjects K (gvk_Group g) (gvk_Version g) (gvk_Kind g @ ''List'')
      (gw_Namespace gw) (st_world s) = (r, st_world t)"
    by (auto simp: call_def split: prod.splits)
  have same: "on_server stored t = on_server stored s"
    using assms(2) l unfolding lists_all_def by blast
  define u where "u = (case r of Inl _ \<Rightarrow> t
    | Inr items \<Rightarrow> snd (deleteItems K gw (desiredKeys objs) g items [] t))"
  have "on_server stored u \<subseteq> on_server stored s"
    using deleteItems_stored [OF assms(1), of gw objs g _ "[]" t] same
    by (auto simp: u_def prunes_def split: sum.split) (metis prod.collapse subset_iff)
  moreover have "set items \<subseteq> {x \<in> on_server stored s.
      of_kind (gvk_Group gvk) (gvk_Kind gvk) (gw_Namespace gw) x}" if "(gvk, Inr items) = (g, r)"
    using that assms(2) l unfolding lists_all_def by fastforce
  moreover have "(gvk, Inr items) = (g, r) \<or> (gvk, Inr items) \<in> set (listAnswers K gw objs gvks u)"
    using Cons.prems c by (simp add: u_def)
  ultimately show ?case using Cons.IH [of u] by blast
qed

lemma deleted_was_stored:
  assumes "deletes K stored" and "lists_all K stored"
    and "deleteOrphanedResources K gw objs s = (r, s')" and "deletions (new_log s s') \<noteq> []"
  obtains x where "x \<in> on_server stored s" and "managed x" and "u_Namespace x = gw_Namespace gw"
    and "controlled gw x" and "key_of x \<notin> target gw ` set objs"
proof -
  have "concat (map (orphansIn gw objs) (listAnswers K gw objs managedGVKs s)) \<noteq> []"
    using deleteOrphaned_log [OF assms(3)] assms(4) by (metis Nil_is_map_conv)
  then obtain x where "x \<in> set (concat (map (orphansIn gw objs) (listAnswers K gw objs managedGVKs s)))"
    using last_in_set by blast
  then obtain gvk items where x: "(gvk, Inr items) \<in> set (listAnswers K gw objs managedGVKs s)"
    "x \<in> set items" "orphan gw objs gvk x"
    by (auto simp: orphansIn_iff)
  have "gvk \<in> set managedGVKs" using listAnswers_kinds [OF x(1)] by blast
  moreover have "x \<in> on_server stored s" "stale gw objs gvk x"
    using listAnswers_stored [OF assms(1,2) x(1)] x(2,3) by (auto simp: stale_def)
  ultimately show thesis
    using that [of x] stale_iff [of gw objs x] by (auto simp: target_iff)
qed

text \<open>A reconcile that completes, as a change of the stored objects.\<close>

lemma reconcile_stored:
  assumes "undisturbed_server (r_Client R) stored" and "owner_lib (r_Client R)"
    and "k_GetGateway (r_Client R) ns name (st_world s) = (Inr gw, w)"
    and "Reconcile R ns name s = ((res, None), s')" and "res \<noteq> noResult"
  shows "\<exists>objs. canApply R gw (s\<lparr>st_world := w\<rparr>) objs \<and>
    (\<forall>obj \<in> set objs. present gw (on_server stored s') (target gw obj) \<or>
      api_missing (new_log s s') (target gw obj)) \<and>
    (\<forall>x \<in> on_server stored s'. managed x \<and> u_Namespace x = gw_Namespace gw \<and> controlled gw x \<longrightarrow>
      key_of x \<in> target gw ` set objs) \<and>
    (\<forall>x \<in> on_server stored s. key_of x \<notin> target gw ` set objs \<and>
      (\<forall>y \<in> on_server stored s. key_of y = key_of x \<longrightarrow> \<not> controlled gw y) \<longrightarrow> x \<in> on_server stored s')"
proof -
  obtain objs sec t u where o: "canApply R gw (s\<lparr>st_world := w\<rparr>) objs" "st_log t = st_log s @ sec"
    "reconcileObjects R gw objs t = ((res, None), u)" "st_log s' = st_log u @ counted None"
    "t = trackSecret gw (snd (resolveSecret (r_Client R) gw (s\<lparr>st_world := w\<rparr>)))"
    "st_world s' = st_world u"
    by (rule Reconcile_objects [OF assms(3,4)]) (use assms(5) in auto)
  have "on_server stored (s\<lparr>st_world := w\<rparr>) = on_server stored s"
    using server_call(1) [OF assms(1), of ns name s] assms(3) by (simp add: call_def)
  then have start: "on_server stored t = on_server stored s"
    unfolding o(5) by (simp add: keeps_resolve [OF assms(1)])
  obtain es p where "st_log u = st_log t @ es @ [StatusPatched p None]"
    using reconcileObjects_success [OF o(3)] by blast
  with o(2,4) have log: "set (new_log t u) \<subseteq> set (new_log s s')" by (auto simp: new_log_def)
  note second = reconcileObjects_stored [OF assms(1,2) o(3), folded o(6), unfolded start]
  show ?thesis
    by (rule exI [of _ objs], intro conjI, rule o(1))
      (use second api_missing_mono [OF _ log] in blast)+
qed

text \<open>A reconcile that deletes something, with the states around its clean-up.\<close>

lemma reconcile_deleting:
  assumes "undisturbed_server (r_Client R) stored"
    and "k_GetGateway (r_Client R) ns name (st_world s) = (Inr gw, w)"
    and "Reconcile R ns name s = ((res, err), s')" and "deletions (new_log s s') \<noteq> []"
  obtains objs t objs' u r v where "canApply R gw (s\<lparr>st_world := w\<rparr>) objs"
    and "on_server stored t = on_server stored s"
    and "applyObjects (r_Client R) gw objs t = (Inr objs', u)"
    and "deleteOrphanedResources (r_Client R) gw objs' u = (r, v)" and "deletions (new_log u v) \<noteq> []"
proof -
  obtain x a where "Deleted x a \<in> set (new_log s s')"
    using assms(4) by (metis deleted_iff last_in_set surj_pair)
  then obtain objs sec t u0 where o: "canApply R gw (s\<lparr>st_world := w\<rparr>) objs" "st_log t = st_log s @ sec"
    "list_all isSecretApply sec" "reconcileObjects R gw objs t = ((res, err), u0)"
    "st_log s' = st_log u0 @ counted err"
    "t = trackSecret gw (snd (resolveSecret (r_Client R) gw (s\<lparr>st_world := w\<rparr>)))"
    using Reconcile_objects [OF assms(2,3)] by metis
  obtain app n del rep where p: "st_log u0 = st_log t @ app @ del @ rep" "list_all isReport rep"
    "list_all (\<lambda>e. application e \<noteq> [] \<or> isEvent e) app"
    "del \<noteq> [] \<longrightarrow> (\<exists>objs' u v. applyObjects (r_Client R) gw objs t = (Inr objs', u) \<and>
       del = new_log u v \<and> v = snd (deleteOrphanedResources (r_Client R) gw objs' u))"
    using reconcileObjects_log [OF o(4)] by blast
  have "new_log s s' = sec @ app @ del @ rep @ counted err" using o(2,5) p(1) by simp
  moreover have "deletions sec = []" "deletions rep = []"
    using o(3) p(2) by (auto intro!: deletions_none simp: list_all_iff not_deletion)
  moreover have "deletions (counted err) = []"
    by (cases err) (simp_all add: deletions_def)
  moreover have "deletions app = []"
    by (rule deletions_none) (use p(3) not_deletion(3,4) in \<open>auto simp: list_all_iff\<close>)
  ultimately have del: "deletions del \<noteq> []" using assms(4) by simp
  then have "del \<noteq> []" by (auto simp: deletions_def)
  with p(4) obtain objs' u v where "applyObjects (r_Client R) gw objs t = (Inr objs', u)"
    "del = new_log u v" "v = snd (deleteOrphanedResources (r_Client R) gw objs' u)" by blast
  moreover have "on_server stored t = on_server stored s"
    using server_call(1) [OF assms(1), of ns name s] assms(2)
    by (simp add: o(6) keeps_resolve [OF assms(1)] call_def)
  ultimately show thesis
    using that [OF o(1)] del by (metis prod.collapse)
qed

section \<open>Properties\<close>

text \<open>
  C2: on a server that nobody else writes to meanwhile, a reconcile that completes makes the
  stored objects those of the spec: every rendered object is there under the gateway's control,
  or its API is missing; no other managed object of the namespace is under the gateway's
  control; and no object is touched whose key was neither rendered nor the gateway's.
\<close>

theorem reconcile_converges:
  assumes "undisturbed_server (r_Client R) stored" and "owner_lib (r_Client R)"
    and "k_GetGateway (r_Client R) ns name (st_world s) = (Inr gw, w)"
    and "Reconcile R ns name s = ((res, None), s')" and "res \<noteq> noResult"
  shows "\<exists>objs. canApply R gw (s\<lparr>st_world := w\<rparr>) objs \<and>
    (\<forall>obj \<in> set objs. present gw (on_server stored s') (target gw obj) \<or>
      api_missing (new_log s s') (target gw obj)) \<and>
    (\<forall>x \<in> on_server stored s'. managed x \<and> u_Namespace x = gw_Namespace gw \<and> controlled gw x \<longrightarrow>
      key_of x \<in> target gw ` set objs) \<and>
    (\<forall>x \<in> on_server stored s. key_of x \<notin> target gw ` set objs \<and>
      (\<forall>y \<in> on_server stored s. key_of y = key_of x \<longrightarrow> \<not> controlled gw y) \<longrightarrow> x \<in> on_server stored s')"
  using assms by (rule reconcile_stored)

text \<open>
  C14: a further reconcile of the same spec, by the same operator on the objects the first one
  left, deletes nothing, whether or not it completes: the clean-up of a spec comes to an end
  with its first completed reconcile, and the operator never fights its own objects.
\<close>

theorem second_reconcile_deletes_nothing:
  assumes "undisturbed_server (r_Client R) stored" and "owner_lib (r_Client R)"
    and "k_GetGateway (r_Client R) ns name (st_world s) = (Inr gw, w)"
    and "Reconcile R ns name s = ((res, None), s')" and "res \<noteq> noResult"
    and "k_GetGateway (r_Client R) ns name (st_world t) = (Inr gw', w')"
    and "same_resource gw gw'" and "on_server stored t = on_server stored s'"
  shows "deletions (new_log t (snd (Reconcile R ns name t))) = []"
proof (rule ccontr)
  let ?K = "r_Client R"
  have laws: "applies ?K stored" "deletes ?K stored" "lists_all ?K stored"
    using assms(1) by (simp_all add: undisturbed_server_def)
  have own: "controlled gw' x = controlled gw x" for x
    using assms(7) by (simp add: same_resource_def controlled_def isControllerOwnedBy_def)
  assume del: "deletions (new_log t (snd (Reconcile R ns name t))) \<noteq> []"
  obtain res2 err2 t' where second: "Reconcile R ns name t = ((res2, err2), t')" by (metis prod.collapse)
  obtain objs where objs: "canApply R gw (s\<lparr>st_world := w\<rparr>) objs"
    "\<forall>x \<in> on_server stored s'. managed x \<and> u_Namespace x = gw_Namespace gw \<and> controlled gw x \<longrightarrow>
      key_of x \<in> target gw ` set objs"
    using reconcile_stored [OF assms(1-5)] by blast
  obtain objs2 t1 objs' t2 r t3 where two: "canApply R gw' (t\<lparr>st_world := w'\<rparr>) objs2"
    "on_server stored t1 = on_server stored t"
    "applyObjects ?K gw' objs2 t1 = (Inr objs', t2)"
    "deleteOrphanedResources ?K gw' objs' t2 = (r, t3)" "deletions (new_log t2 t3) \<noteq> []"
    using reconcile_deleting [OF assms(1,6) second] del [unfolded second snd_conv] by metis
  have objs2: "objs2 = objs" by (rule canApply_same [OF assms(7) objs(1) two(1)])
  have targets: "target gw' ` set objs' = target gw ` set objs"
    using same_targets [OF applyObjects_identity [OF applies_echo [OF laws(1)] two(3)], of gw'] assms(7)
    by (simp add: objs2 target_def same_resource_def)
  obtain x where x: "x \<in> on_server stored t2" "managed x" "u_Namespace x = gw_Namespace gw"
    "controlled gw x" "key_of x \<notin> target gw ` set objs"
    by (rule deleted_was_stored [OF laws(2,3) two(4,5)])
      (use own targets assms(7) in \<open>auto simp: same_resource_def\<close>)
  have "extends_by gw' (target gw' ` set objs2) (on_server stored t1) (on_server stored t2)"
    using applyObjects_stored [OF laws(1) assms(2) two(3)] by blast
  then have "x \<in> on_server stored t1"
    using x(1,5) objs2 assms(7) unfolding extends_by_def by (auto simp: target_def same_resource_def)
  with objs(2) x two(2) assms(8) show False by simp
qed

section \<open>The sample server\<close>

definition cluster_objects :: "cluster \<Rightarrow> Unstructured set" where
  "cluster_objects w = set (cl_objects w)"

lemma sameObject_key: "sameObject x y \<longleftrightarrow> key_of x = key_of y"
  by (simp add: sameObject_def key_of_def)

lemma cluster_undisturbed: "undisturbed_server clusterClient cluster_objects"
  unfolding undisturbed_server_def
  by (auto simp: lists_all_def applies_def deletes_def keeps_def clusterClient_def cluster_objects_def
      sameObject_key of_kind_def)

lemma run_eq:
  obtains s' where "Reconcile sampleReconciler ''apps'' ''gw'' runState = ((\<lparr>ctrl_RequeueAfter = 300\<rparr>, None), s')"
  using run_results(1) by (metis prod.collapse)

lemma sample_renders:
  "canApply sampleReconciler redisGateway s objs \<Longrightarrow>
     objs = [sampleObject ''d'', labelAsyncComponent (sampleObject ''d'')]"
  by (auto simp: canApply_def renders_def sample_batch_render sample_async_render)

lemma old_not_rendered:
  "key_of oldObject \<notin> target redisGateway ` set [sampleObject ''d'', labelAsyncComponent (sampleObject ''d'')]"
  by (simp add: key_of_def target_def oldObject_def sampleObject_def labelAsyncComponent_def Let_def)

lemma old_stale:
  "managed oldObject \<and> u_Namespace oldObject = gw_Namespace redisGateway \<and> controlled redisGateway oldObject"
  by (simp add: managed_def managedGVKs_def oldObject_def sampleObject_def controlled_def
      isControllerOwnedBy_def controllerRef_def)

theorem reconcile_converges_witness:
  "oldObject \<in> cluster_objects (st_world runState) \<and>
   oldObject \<notin> cluster_objects (st_world (snd (Reconcile sampleReconciler ''apps'' ''gw'' runState)))"
proof -
  obtain s' where run: "Reconcile sampleReconciler ''apps'' ''gw'' runState = ((\<lparr>ctrl_RequeueAfter = 300\<rparr>, None), s')"
    by (rule run_eq)
  have server: "undisturbed_server (r_Client sampleReconciler) cluster_objects"
    and owner: "owner_lib (r_Client sampleReconciler)"
    by (simp_all add: cluster_undisturbed)
  have "\<lparr>ctrl_RequeueAfter = 300\<rparr> \<noteq> noResult" by (simp add: noResult_def)
  from reconcile_converges [OF server owner cluster_get_run run this]
  obtain objs where "canApply sampleReconciler redisGateway (runState\<lparr>st_world := st_world runState\<rparr>) objs"
    and only: "oldObject \<in> cluster_objects (st_world s') \<Longrightarrow> key_of oldObject \<in> target redisGateway ` set objs"
    using old_stale by blast
  then have "oldObject \<notin> cluster_objects (st_world s')"
    using sample_renders old_not_rendered by metis
  moreover have "oldObject \<in> cluster_objects (st_world runState)"
    by (simp add: cluster_objects_def runState_def sampleCluster_def)
  ultimately show ?thesis by (simp add: run)
qed

theorem second_reconcile_deletes_nothing_witness:
  "deletions (new_log (snd (Reconcile sampleReconciler ''apps'' ''gw'' runState))
     (snd (Reconcile sampleReconciler ''apps'' ''gw'' (snd (Reconcile sampleReconciler ''apps'' ''gw'' runState))))) = []"
proof -
  obtain s' where run: "Reconcile sampleReconciler ''apps'' ''gw'' runState = ((\<lparr>ctrl_RequeueAfter = 300\<rparr>, None), s')"
    by (rule run_eq)
  have server: "undisturbed_server (r_Client sampleReconciler) cluster_objects"
    and owner: "owner_lib (r_Client sampleReconciler)"
    by (simp_all add: cluster_undisturbed)
  have ne: "\<lparr>ctrl_RequeueAfter = 300\<rparr> \<noteq> noResult" by (simp add: noResult_def)
  have "cl_gateways (st_world (snd (Reconcile sampleReconciler ''apps'' ''gw'' runState))) = [redisGateway]"
    unfolding run_objects by code_simp
  then have again: "k_GetGateway (r_Client sampleReconciler) ''apps'' ''gw'' (st_world s') = (Inr redisGateway, st_world s')"
    by (simp add: run clusterClient_def found_def)
  have same: "same_resource redisGateway redisGateway" by (simp add: same_resource_def)
  show ?thesis
    using second_reconcile_deletes_nothing [OF server owner cluster_get_run run ne again same refl]
    by (simp add: run)
qed

end
