(* ===== verification/Lifecycle.thy ===== *)
theory Lifecycle
  imports Monitoring Watches Convergence
begin

text \<open>
  The operator over its whole life, as a labelled transition system: reconciles in any order,
  Secret and ReferenceGrant events, metrics reconciles, writes of others to the server, and
  restarts, which lose the watch filter. The scheduling is left open: every interleaving of
  these steps is a run. One reconcile is one step, since the controller has a single worker.
\<close>

section \<open>Steps\<close>

datatype op_event =
    Reconciled nsname "nsname option"
  | SecretSeen secret_event "nsname list"
  | GrantSeen nsname "nsname list"
  | MetricsReconciled
  | OutsideWrite
  | Restarted

fun event_object :: "secret_event \<Rightarrow> nsname" where
  "event_object (CreateEvent obj) = obj"
| "event_object (UpdateEvent _ obj) = obj"
| "event_object (DeleteEvent obj) = obj"
| "event_object (GenericEvent obj) = obj"

text \<open>The reference a reconcile makes the filter learn.\<close>

definition learnedRef ::
  "('w, 'c, 'rv) LLMBatchGatewayReconciler \<Rightarrow> string \<Rightarrow> string \<Rightarrow> 'w st \<Rightarrow> nsname option" where
  "learnedRef R ns name s =
     (case k_GetGateway (r_Client R) ns name (st_world s) of
        (Inl _, _) \<Rightarrow> None
      | (Inr gw, w) \<Rightarrow>
          (if validateSpec (r_visit R) gw = None \<and> secretNamespace gw \<noteq> gw_Namespace gw
           then (case fst (resolveSecret (r_Client R) gw (s\<lparr>st_world := w\<rparr>)) of
                   Inl _ \<Rightarrow> None
                 | Inr _ \<Rightarrow> Some (secretNamespace gw, secretName gw))
           else None))"

text \<open>
  \<open>opns\<close> is the operator's own namespace. A Secret event that the filter drops never reaches
  the map function; the requests of an event are part of its label.
\<close>

inductive op_step ::
  "('w, 'c, 'rv) LLMBatchGatewayReconciler \<Rightarrow> string \<Rightarrow> 'w st \<Rightarrow> op_event \<Rightarrow> 'w st \<Rightarrow> bool"
  for R opns where
  step_reconcile: "op_step R opns s (Reconciled (ns, name) (learnedRef R ns name s))
    (snd (Reconcile R ns name s))"
| step_secret: "filter_passes (st_filter s) ev \<Longrightarrow>
    enqueueForSecret (r_Client R) (event_object ev) s = (reqs, s') \<Longrightarrow>
    op_step R opns s (SecretSeen ev reqs) s'"
| step_secret_dropped: "\<not> filter_passes (st_filter s) ev \<Longrightarrow> op_step R opns s (SecretSeen ev []) s"
| step_grant: "enqueueForReferenceGrant (r_Client R) obj s = (reqs, s') \<Longrightarrow>
    op_step R opns s (GrantSeen obj reqs) s'"
| step_metrics: "op_step R opns s MetricsReconciled (snd (metricsReconcile (r_Client R) opns s))"
| step_outside: "op_step R opns s OutsideWrite (s\<lparr>st_world := w\<rparr>)"
| step_restart: "op_step R opns s Restarted (s\<lparr>st_filter := filter_new\<rparr>)"

inductive_cases op_step_secretE: "op_step R opns s (SecretSeen ev reqs) s'"

inductive op_run ::
  "('w, 'c, 'rv) LLMBatchGatewayReconciler \<Rightarrow> string \<Rightarrow> 'w st \<Rightarrow> op_event list \<Rightarrow> 'w st \<Rightarrow> bool"
  for R opns s where
  run_nil: "op_run R opns s [] s"
| run_step: "op_run R opns s evs t \<Longrightarrow> op_step R opns t ev u \<Longrightarrow> op_run R opns s (evs @ [ev]) u"

section \<open>The filter as a set of references\<close>

text \<open>The abstract filter: the references learned since the last restart.\<close>

fun learn :: "op_event \<Rightarrow> nsname set \<Rightarrow> nsname set" where
  "learn (Reconciled _ (Some ref)) S = insert ref S"
| "learn Restarted S = {}"
| "learn _ S = S"

definition learned :: "op_event list \<Rightarrow> nsname set" where
  "learned evs = fold learn evs {}"

lemma learned_simps [simp]:
  "learned [] = {}" "learned (evs @ [ev]) = learn ev (learned evs)"
  by (simp_all add: learned_def)

text \<open>The filter of the code holds this set, for the names a stored Secret can have.\<close>

definition filter_is :: "secretWatchFilter \<Rightarrow> nsname set \<Rightarrow> bool" where
  "filter_is f S \<longleftrightarrow> (\<forall>a b. object_name a b \<longrightarrow> (filter_matches f a b \<longleftrightarrow> (a, b) \<in> S))"

lemma filter_is_new [simp]: "filter_is filter_new {}"
  by (simp add: filter_is_def new_matches_nothing)

lemma enqueue_filter:
  "enqueueForSecret K obj s = (reqs, t) \<Longrightarrow> st_filter t = st_filter s \<and> st_log t = st_log s"
  "enqueueForReferenceGrant K obj s = (reqs, t) \<Longrightarrow> st_filter t = st_filter s \<and> st_log t = st_log s"
  by (auto simp: enqueueForSecret_def enqueueForReferenceGrant_def split: prod.splits sum.splits
      dest!: call_eq)

lemma metrics_filter: "st_filter (snd (metricsReconcile K ns s)) = st_filter s"
  using applySteps_log [of K "operatorSteps ns" s] by (metis metricsReconcile_steps prod.collapse)

lemma learned_filter:
  assumes "filter_is (st_filter s) S"
  shows "filter_is (st_filter (snd (Reconcile R ns name s))) (learn (Reconciled x (learnedRef R ns name s)) S)"
proof (cases "k_GetGateway (r_Client R) ns name (st_world s)")
  case (Pair r w)
  show ?thesis
  proof (cases r)
    case (Inl e)
    obtain res err s' where eq: "Reconcile R ns name s = ((res, err), s')" by (metis prod.collapse)
    from Pair Inl Reconcile_absent [OF _ eq] assms show ?thesis
      by (simp add: learnedRef_def eq)
  next
    case (Inr gw)
    note after = filter_after [OF Pair [unfolded Inr]]
    from assms show ?thesis
      unfolding filter_is_def by (auto simp: after learnedRef_def Pair Inr split: sum.splits)
  qed
qed

lemma step_filter:
  "op_step R opns s ev t \<Longrightarrow> filter_is (st_filter s) S \<Longrightarrow>
     filter_is (st_filter t) (learn ev S)"
proof (induction rule: op_step.induct)
  case (step_reconcile s ns name)
  then show ?case by (rule learned_filter)
qed (simp_all add: enqueue_filter metrics_filter)

lemma run_filter:
  "op_run R opns s evs t \<Longrightarrow> st_filter s = filter_new \<Longrightarrow>
     filter_is (st_filter t) (learned evs)"
  by (induction rule: op_run.induct) (simp_all add: step_filter)

lemma filter_passes_object: "filter_passes f ev \<longleftrightarrow> filter_matches f (fst (event_object ev)) (snd (event_object ev))"
  by (cases "(f, ev)" rule: filter_passes.cases) simp_all

text \<open>
  One reconcile is one step above; the filter's mutex makes its methods atomic, but not the
  reconcile. In between, after \<open>resolveSecret\<close> has written the copy and before the filter learns
  the reference, an event for a Secret that the filter did not know is dropped: a rotation that
  falls there makes no request, and the copy is renewed only by the next periodic reconcile.
\<close>

lemma rotation_during_first_resolve_dropped:
  assumes "resolveSecret (r_Client R) gw s = (Inr n, t)"
    and "event_object ev = (secretNamespace gw, secretName gw)"
    and "\<not> filter_matches (st_filter s) (secretNamespace gw) (secretName gw)"
    and "op_step R opns (t\<lparr>st_world := w\<rparr>) (SecretSeen ev reqs) u"
  shows "reqs = [] \<and> u = t\<lparr>st_world := w\<rparr>"
proof -
  have "st_filter t = st_filter s"
    using resolve_filter [of "r_Client R" gw s] assms(1) by simp
  with assms(2,3) have "\<not> filter_passes (st_filter (t\<lparr>st_world := w\<rparr>)) ev"
    by (simp add: filter_passes_object)
  with assms(4) show ?thesis by (auto elim: op_step_secretE)
qed

text \<open>The requests an event makes that has passed the filter.\<close>

lemma enqueue_requests:
  "fst (enqueueForSecret K obj s) = (case fst (k_ListGateways K (st_world s)) of
     Inl _ \<Rightarrow> []
   | Inr gws \<Rightarrow> map (\<lambda>gw. (gw_Namespace gw, gw_Name gw))
       (filter (\<lambda>gw. spec_SecretRef (gw_Spec gw) = \<lparr>ref_Name = snd obj, ref_Namespace = fst obj\<rparr>) gws))"
proof -
  have ref: "ref_Namespace r = a \<and> ref_Name r = b \<longleftrightarrow> r = \<lparr>ref_Name = b, ref_Namespace = a\<rparr>" for r a b
    by (cases r) auto
  have fn: "requestFor = (\<lambda>gw. (gw_Namespace gw, gw_Name gw))"
    by (rule ext) (simp add: requestFor_def)
  show ?thesis
    by (cases "k_ListGateways K (st_world s)")
      (simp add: enqueueForSecret_def call_def secretRequests_eq ref fn split: sum.split)
qed

section \<open>What the operator writes\<close>

text \<open>
  Why an entry of the log is there, judged in the state \<open>s\<close> before the step \<open>ev\<close> that made it.
  A reconcile acts for the gateway the server answers with in that state, and everything it
  reads of the reference's namespace it reads from the server then: the grants that authorise a
  copy, its source and the copy there was before.
\<close>

definition reconciles ::
  "('w, 'c, 'rv) LLMBatchGatewayReconciler \<Rightarrow> 'w st \<Rightarrow> op_event \<Rightarrow> LLMBatchGateway \<Rightarrow> 'w \<Rightarrow> bool" where
  "reconciles R s ev gw w \<longleftrightarrow>
     (\<exists>ns name ref. ev = Reconciled (ns, name) ref \<and> k_GetGateway (r_Client R) ns name (st_world s) = (Inr gw, w))"

fun justified ::
  "('w, 'c, 'rv) LLMBatchGatewayReconciler \<Rightarrow> string \<Rightarrow> 'w st \<Rightarrow> op_event \<Rightarrow> effect \<Rightarrow> bool" where
  "justified R opns s ev (Applied x a) =
     (\<exists>gw w objs obj. reconciles R s ev gw w \<and> canApply R gw (s\<lparr>st_world := w\<rparr>) objs \<and>
        obj \<in> set objs \<and> sent (r_Client R) gw obj x \<and> u_Namespace x = gw_Namespace gw \<and> controlled gw x)"
| "justified R opns s ev (Deleted x a) =
     (\<exists>gw w objs. reconciles R s ev gw w \<and> canApply R gw (s\<lparr>st_world := w\<rparr>) objs \<and>
        u_Namespace x = gw_Namespace gw \<and> controlled gw x \<and> managed x)"
| "justified R opns s ev (AppliedSecret c a) =
     (\<exists>gw w existing grants src refs. reconciles R s ev gw w \<and> validateSpec (r_visit R) gw = None \<and>
        secretNamespace gw \<noteq> gw_Namespace gw \<and>
        secretAnswers (r_Client R) gw w = (existing, grants, Inr src) \<and> authorised gw grants \<and>
        checkSecretRefImmutable existing (wantedRef gw) = None \<and>
        k_SetControllerReference (r_Client R) gw (gw_Namespace gw) [] = Inr refs \<and>
        c = secretCopy gw src (localSecretName gw) refs)"
| "justified R opns s ev (AppliedOperator obj a) = (ev = MetricsReconciled \<and> obj \<in> set (operatorObjects opns))"
| "justified R opns s ev (StatusPatched p a) = (\<exists>gw w. reconciles R s ev gw w)"
| "justified R opns s ev (Event t r m) = True"
| "justified R opns s ev (ErrorCounted l) =
     (if ev = MetricsReconciled then l \<in> {''ServiceApplyFailed'', ''ServiceMonitorApplyFailed'', ''PrometheusRuleApplyFailed''}
      else l = ''Other'')"

lemma metrics_justified: "logs (justified R opns s MetricsReconciled) s (snd (metricsReconcile K opns s))"
proof -
  let ?J = "justified R opns s MetricsReconciled"
  obtain r t where eq: "metricsReconcile K opns s = (r, t)" by fastforce
  have objs: "snd st \<in> set (operatorObjects opns)"
    "fst st \<in> {''Service'', ''ServiceMonitor'', ''PrometheusRule''}" if "st \<in> set (operatorSteps opns)" for st
    using that by (auto simp: operatorSteps_def operatorObjects_def)
  have steps: "list_all ?J (map (\<lambda>st. AppliedOperator (snd st) None) (take n (operatorSteps opns)))" for n
    using objs(1) by (auto simp: list_all_iff dest: in_set_takeD)
  note log = applySteps_log [OF eq [unfolded metricsReconcile_steps]]
  show ?thesis
  proof (cases "r = None")
    case True
    with log steps [of 3] eq show ?thesis by (auto simp: logs_def operatorSteps_def operatorObjects_def)
  next
    case False
    with log [THEN conjunct2] have "\<exists>n < length (operatorSteps opns). \<exists>tried err.
       (tried = [] \<or> (\<exists>a. tried = [AppliedOperator (snd (operatorSteps opns ! n)) (Some a)])) \<and>
       st_log t = st_log s @ map (\<lambda>st. AppliedOperator (snd st) None) (take n (operatorSteps opns)) @ tried @
         [ErrorCounted (fst (operatorSteps opns ! n) @ ''ApplyFailed''),
          Event EventWarning ''ReconcileFailed'' (MsgError [''Failed to reconcile'', fst (operatorSteps opns ! n)] err)]"
      by (simp only: if_False)
    then obtain n tried err where n: "n < length (operatorSteps opns)"
      "tried = [] \<or> (\<exists>a. tried = [AppliedOperator (snd (operatorSteps opns ! n)) (Some a)])"
      "st_log t = st_log s @ map (\<lambda>st. AppliedOperator (snd st) None) (take n (operatorSteps opns)) @ tried @
         [ErrorCounted (fst (operatorSteps opns ! n) @ ''ApplyFailed''),
          Event EventWarning ''ReconcileFailed'' (MsgError [''Failed to reconcile'', fst (operatorSteps opns ! n)] err)]"
      by blast
    have "list_all ?J tried" "?J (ErrorCounted (fst (operatorSteps opns ! n) @ ''ApplyFailed''))"
      using n(2) objs [OF nth_mem [OF n(1)]] by auto
    with steps show ?thesis unfolding eq snd_conv by (intro logs_split [OF n(3)]) simp
  qed
qed

text \<open>The parts of a reconcile of \<open>gw\<close>, which the server answered with in \<open>s\<close>.\<close>

lemma report_justified: "reconciles R s ev gw w \<Longrightarrow> isReport e \<Longrightarrow> justified R opns s ev e"
  by (cases e) (auto simp: isReport_def isEvent_def)

lemma counted_justified:
  assumes "\<And>e. err = Some e \<Longrightarrow> plain e" and "ev \<noteq> MetricsReconciled"
  shows "list_all (justified R opns s ev) (counted err)"
  using assms by (cases err) (simp_all add: plain_errorReason)

lemma secret_justified:
  assumes "reconciles R s ev gw w" and "validateSpec (r_visit R) gw = None"
    and "st_log (snd (resolveSecret (r_Client R) gw (s\<lparr>st_world := w\<rparr>))) = st_log s @ sec"
  shows "list_all (justified R opns s ev) sec"
proof (cases "secretNamespace gw = gw_Namespace gw")
  case True
  with assms(3) show ?thesis by (simp add: resolve_same_namespace)
next
  case False
  obtain existing grants src where ans: "secretAnswers (r_Client R) gw w = (existing, grants, src)"
    by (rule prod_cases3)
  obtain r t where eq: "resolveSecret (r_Client R) gw (s\<lparr>st_world := w\<rparr>) = (r, t)" by fastforce
  have "secretAnswers (r_Client R) gw (st_world (s\<lparr>st_world := w\<rparr>)) = (existing, grants, src)" by (simp add: ans)
  from resolve_log [OF False this eq] assms(3) eq consider "sec = []"
    | x refs a where "checkSecretRefImmutable existing (wantedRef gw) = None" "authorised gw grants" "src = Inr x"
      "k_SetControllerReference (r_Client R) gw (gw_Namespace gw) [] = Inr refs"
      "sec = [AppliedSecret (secretCopy gw x (localSecretName gw) refs) a]" by auto
  then show ?thesis
  proof cases
    case 2
    with assms(1,2) False ans
    have "justified R opns s ev (AppliedSecret (secretCopy gw x (localSecretName gw) refs) a)"
      unfolding justified.simps by blast
    with 2(5) show ?thesis by simp
  qed simp
qed

lemma objects_justified:
  assumes "owner_lib (r_Client R)" and "lists_what_is_asked (r_Client R)"
    and "reconciles R s ev gw w" and "canApply R gw (s\<lparr>st_world := w\<rparr>) objs"
    and "reconcileObjects R gw objs t = ((res, err), t')"
  shows "logs (justified R opns s ev) t t'"
proof -
  let ?ok = "justified R opns s ev"
  obtain app n del rep where p: "st_log t' = st_log t @ app @ del @ rep"
    "list_all2 (sent (r_Client R) gw) (take n objs) (map fst (applications app))"
    "list_all (\<lambda>e. application e \<noteq> [] \<or> isEvent e) app" "list_all isReport rep"
    "del \<noteq> [] \<longrightarrow> (\<exists>objs' v u. applyObjects (r_Client R) gw objs t = (Inr objs', v) \<and>
         del = new_log v u \<and> u = snd (deleteOrphanedResources (r_Client R) gw objs' v))"
    "list_all (\<lambda>e. deletion e \<noteq> []) del"
    using reconcileObjects_log [OF assms(5)] by blast
  have "?ok e" if "e \<in> set app" for e
  proof (cases e)
    case (Applied x a)
    then have "x \<in> set (map fst (applications app))" using that by (force simp: applied_iff)
    with p(2) obtain obj where obj: "obj \<in> set (take n objs)" "sent (r_Client R) gw obj x"
      by (metis in_set_conv_nth list_all2_conv_all_nth)
    then have "u_Namespace x = gw_Namespace gw" "controlled gw x"
      using assms(1) by (auto simp: sent_def owner_lib_def controlled_def)
    with obj assms(3,4) show ?thesis unfolding Applied justified.simps by (blast dest: in_set_takeD)
  qed (use that p(3) in \<open>auto simp: list_all_iff isEvent_def\<close>)
  moreover have "?ok e" if e: "e \<in> set del" for e
  proof (cases e)
    case (Deleted x a)
    obtain objs' v where d: "Deleted x a \<in> set (new_log v (snd (deleteOrphanedResources (r_Client R) gw objs' v)))"
      using e p(5) Deleted by fastforce
    have "managed x"
      using deletion_safe [OF assms(2) d] by (auto simp: managed_def list_ex_iff)
    with deletion_safe [OF assms(2) d] assms(3,4) show ?thesis
      unfolding Deleted justified.simps controlled_def by blast
  qed (use e p(6) in \<open>auto simp: list_all_iff\<close>)
  ultimately show ?thesis
    by (intro logs_split [OF p(1)]) (use p(4) report_justified [OF assms(3)] in \<open>auto simp: list_all_iff\<close>)
qed

lemma gateway_justified:
  assumes "owner_lib (r_Client R)" and "lists_what_is_asked (r_Client R)"
    and "reconciles R s ev gw w" and "reconcileGateway R gw (s\<lparr>st_world := w\<rparr>) = ((res, err), s')"
  shows "logs (justified R opns s ev) s s'"
proof -
  note report = report_justified [OF assms(3)]
  show ?thesis
    using assms(4)
  proof (cases rule: reconcileGateway_cases)
    case (refused v)
    then have "logs isReport s s'" by (simp add: logs_def)
    then show ?thesis by (blast intro: logs_mono report)
  next
    case (unresolved e sec rep)
    have "list_all (justified R opns s ev) sec"
      by (rule secret_justified [OF assms(3) unresolved(1)]) (use unresolved(8) in simp)
    then show ?thesis
      by (intro logs_split [where es = "sec @ rep"])
        (use unresolved(3,5) report in \<open>auto simp: list_all_iff\<close>)
  next
    case (unrendered n e sec rep)
    have "list_all (justified R opns s ev) sec"
      by (rule secret_justified [OF assms(3) unrendered(1)]) (use unrendered(9) in simp)
    then show ?thesis
      by (intro logs_split [where es = "sec @ rep"])
        (use unrendered(3,5) report in \<open>auto simp: list_all_iff\<close>)
  next
    case (applied n sec t objs)
    have "list_all (justified R opns s ev) sec"
      by (rule secret_justified [OF assms(3) applied(1)]) (use applied(9) in simp)
    then have "logs (justified R opns s ev) s t"
      by (intro logs_split [where es = sec]) (use applied(4) in simp_all)
    also have "canApply R gw (s\<lparr>st_world := w\<rparr>) objs"
      using applied(1-3) by (auto simp: canApply_def)
    from objects_justified [OF assms(1-3) this applied(6)] have "logs (justified R opns s ev) t s'" .
    finally show ?thesis .
  qed
qed

lemma reconcile_justified:
  assumes "owner_lib (r_Client R)" and "lists_what_is_asked (r_Client R)"
  shows "logs (justified R opns s (Reconciled (ns, name) ref)) s (snd (Reconcile R ns name s))"
proof -
  let ?J = "justified R opns s (Reconciled (ns, name) ref)"
  obtain res err s' where eq: "Reconcile R ns name s = ((res, err), s')" by (metis prod.collapse)
  then have counted: "list_all ?J (counted err)"
    by (intro counted_justified) (simp_all add: plain_Reconcile)
  show ?thesis
  proof (cases "k_GetGateway (r_Client R) ns name (st_world s)")
    case (Pair r w)
    show ?thesis
    proof (cases r)
      case (Inl e)
      with Pair Reconcile_absent [OF _ eq] have "st_log s' = st_log s @ counted err" by simp
      then show ?thesis unfolding eq snd_conv by (rule logs_split) (rule counted)
    next
      case (Inr gw)
      then have rec: "reconciles R s (Reconciled (ns, name) ref) gw w" using Pair by (simp add: reconciles_def)
      obtain u where u: "reconcileGateway R gw (s\<lparr>st_world := w\<rparr>) = ((res, err), u)"
        "st_log s' = st_log u @ counted err"
        using Pair Inr Reconcile_existing [OF _ eq] by blast
      have "logs ?J s u" by (rule gateway_justified [OF assms rec u(1)])
      also have "logs ?J u s'" by (rule logs_split [OF u(2) counted])
      finally show ?thesis by (simp add: eq)
    qed
  qed
qed

lemma step_justified:
  "op_step R opns s ev t \<Longrightarrow> owner_lib (r_Client R) \<Longrightarrow> lists_what_is_asked (r_Client R) \<Longrightarrow>
     logs (justified R opns s ev) s t"
  by (induction rule: op_step.induct)
    (auto simp: reconcile_justified metrics_justified dest: enqueue_filter intro: logs_same)

text \<open>The step of a run that made an entry of the log, with the states around it.\<close>

definition made_by ::
  "('w, 'c, 'rv) LLMBatchGatewayReconciler \<Rightarrow> string \<Rightarrow> 'w st \<Rightarrow> op_event list \<Rightarrow> effect \<Rightarrow> 'w st \<Rightarrow> op_event \<Rightarrow> bool" where
  "made_by R opns s evs e u ev \<longleftrightarrow>
     (\<exists>before after v. evs = before @ ev # after \<and> op_run R opns s before u \<and> op_step R opns u ev v \<and>
        e \<in> set (new_log u v))"

lemma run_justified:
  assumes "op_run R opns s evs t" and "owner_lib (r_Client R)" and "lists_what_is_asked (r_Client R)"
  shows "\<exists>es. st_log t = st_log s @ es \<and>
    (\<forall>e \<in> set es. \<exists>u ev. made_by R opns s evs e u ev \<and> justified R opns u ev e)"
  using assms(1)
proof (induction rule: op_run.induct)
  case run_nil
  show ?case by simp
next
  case (run_step evs t ev u)
  then obtain es where es: "st_log t = st_log s @ es"
    "\<forall>e \<in> set es. \<exists>v ev'. made_by R opns s evs e v ev' \<and> justified R opns v ev' e" by blast
  obtain ds where ds: "st_log u = st_log t @ ds" "list_all (justified R opns t ev) ds" "new_log t u = ds"
    using step_justified [OF run_step(2) assms(2,3)] by (auto simp: logs_def new_log_def)
  have old: "made_by R opns s (evs @ [ev]) e v ev'" if "made_by R opns s evs e v ev'" for e v ev'
    using that unfolding made_by_def by fastforce
  have new: "made_by R opns s (evs @ [ev]) e t ev" if "e \<in> set ds" for e
    using that run_step(1,2) ds(3) unfolding made_by_def by blast
  have "\<exists>v ev'. made_by R opns s (evs @ [ev]) e v ev' \<and> justified R opns v ev' e" if "e \<in> set (es @ ds)" for e
    using that es(2) old new ds(2) unfolding set_append list_all_iff by blast
  then show ?case using es(1) ds(1) by (metis append_assoc)
qed

section \<open>Properties\<close>

text \<open>
  C3: over the whole life of the operator, in whatever order reconciles, events, writes of
  others and restarts come, every entry of its log was made by a step of the run that the state
  before it justifies. An applied object was sent from one that the charts rendered for the
  gateway the server answered with, whose spec is accepted, lies in its namespace and is under
  its control. A deleted object is of a managed kind and under such a gateway's control. A
  written Secret is the copy of the Secret then read, and the grants then read in its namespace
  authorise the gateway to use it. The only other objects are the operator's own three.
\<close>

theorem every_write_justified:
  assumes "op_run R opns (startState w) evs s"
    and "owner_lib (r_Client R)" and "lists_what_is_asked (r_Client R)" and "e \<in> set (st_log s)"
  shows "\<exists>u ev. made_by R opns (startState w) evs e u ev \<and> justified R opns u ev e"
  using run_justified [OF assms(1-3)] assms(4) by auto

text \<open>
  C8: the watch filter refines the set of references learned since the last restart, in every
  run and whatever strings the references are: an event about a stored Secret, whose namespace
  and name have no slash, passes exactly when that Secret was referenced, from another
  namespace, by a gateway that a reconcile since the restart accepted and whose Secret it
  resolved.
\<close>

theorem filter_refines_learned_references:
  assumes "op_run R opns (startState w) evs s"
    and "object_name (fst (event_object ev)) (snd (event_object ev))"
  shows "filter_passes (st_filter s) ev \<longleftrightarrow> event_object ev \<in> learned evs"
  using run_filter [OF assms(1)] assms(2)
  by (simp add: filter_is_def filter_passes_object)

text \<open>
  C19: what becomes of a rotation, exactly. An event about a stored Secret that no reconcile
  has learned since the last restart makes no request. One about a learned Secret makes, when
  the gateways can be listed, the requests for the listed gateways that refer to it and for no
  other, in their order, and none when the list fails. So a rotation waits for the periodic
  reconcile in the last case and in the first, which includes the time in which a reference is
  resolved but not yet learned.
\<close>

theorem rotation_reaches_gateways:
  assumes "op_run R opns (startState w) evs s"
    and "object_name (fst (event_object ev)) (snd (event_object ev))"
    and "op_step R opns s (SecretSeen ev reqs) s'"
  shows "reqs = (if event_object ev \<notin> learned evs then []
     else case fst (k_ListGateways (r_Client R) (st_world s)) of
       Inl _ \<Rightarrow> []
     | Inr gws \<Rightarrow> map (\<lambda>gw. (gw_Namespace gw, gw_Name gw))
         (filter (\<lambda>gw. spec_SecretRef (gw_Spec gw) =
           \<lparr>ref_Name = snd (event_object ev), ref_Namespace = fst (event_object ev)\<rparr>) gws))"
proof -
  have passes: "filter_passes (st_filter s) ev \<longleftrightarrow> event_object ev \<in> learned evs"
    using run_filter [OF assms(1)] assms(2) by (simp add: filter_is_def filter_passes_object)
  have "reqs = (if filter_passes (st_filter s) ev
      then fst (enqueueForSecret (r_Client R) (event_object ev) s) else [])"
    using assms(3) by (elim op_step_secretE) simp_all
  then show ?thesis by (simp add: passes enqueue_requests)
qed

section \<open>Witnesses\<close>

lemma sample_learned: "learnedRef sampleReconciler ''apps'' ''gw'' (sqlState []) = Some (''vault'', ''creds'')"
proof -
  have w: "st_world (sqlState []) = sampleCluster [sqlGateway] [vaultSecret] []"
    by (simp add: sqlState_def)
  show ?thesis
    using sample_resolve [OF w] cluster_get_sql [of "[]"] by (simp add: learnedRef_def sample_resolution(1))
qed

lemma sample_run:
  "op_run sampleReconciler ''operator'' (startState (sampleCluster [sqlGateway] [vaultSecret] []))
     [Reconciled (''apps'', ''gw'') (Some (''vault'', ''creds''))]
     (snd (Reconcile sampleReconciler ''apps'' ''gw'' (sqlState [])))"
proof -
  have "op_step sampleReconciler ''operator'' (sqlState []) (Reconciled (''apps'', ''gw'') (Some (''vault'', ''creds'')))
      (snd (Reconcile sampleReconciler ''apps'' ''gw'' (sqlState [])))"
    using step_reconcile [of sampleReconciler "''operator''" "sqlState []" "''apps''" "''gw''"]
    by (simp only: sample_learned)
  from run_step [OF run_nil this] show ?thesis by (simp add: sqlState_def)
qed

text \<open>The copy of the sample's Secret is written because the grants read then authorise it.\<close>

lemma reconcile_keeps_resolve_log:
  assumes "reconcileGateway R gw s = ((res, err), s')" and "validateSpec (r_visit R) gw = None"
  shows "\<exists>es. st_log s' = st_log (snd (resolveSecret (r_Client R) gw s)) @ es"
  using assms(1)
proof (cases rule: reconcileGateway_cases)
  case (applied n sec t objs)
  then show ?thesis using reconcileObjects_log [OF applied(6)] by auto
qed (use assms(2) in auto)

lemma sample_secret_written:
  "AppliedSecret (secretCopy sqlGateway vaultSecret ''gw-credentials'' [controllerRef sqlGateway]) None
     \<in> set (st_log (snd (Reconcile sampleReconciler ''apps'' ''gw'' (sqlState []))))"
proof -
  let ?s = "sqlState []\<lparr>st_world := st_world (sqlState [])\<rparr>"
  have w: "st_world ?s = sampleCluster [sqlGateway] [vaultSecret] []" by (simp add: sqlState_def)
  obtain sec where sec: "st_log (snd (resolveSecret clusterClient sqlGateway ?s)) = st_log ?s @ sec"
    "AppliedSecret (secretCopy sqlGateway vaultSecret ''gw-credentials'' [controllerRef sqlGateway]) None \<in> set sec"
    using sample_resolve [OF w] resolve_logs [OF prod.collapse [symmetric], of clusterClient sqlGateway ?s]
    by (auto simp: logs_def)
  obtain res err s' where eq: "Reconcile sampleReconciler ''apps'' ''gw'' (sqlState []) = ((res, err), s')"
    by (metis prod.collapse)
  obtain u where u: "reconcileGateway sampleReconciler sqlGateway ?s = ((res, err), u)"
    "st_log s' = st_log u @ counted err"
    using Reconcile_existing [OF cluster_get_sql eq] by blast
  show ?thesis
    using reconcile_keeps_resolve_log [OF u(1)] u(2) sec by (auto simp: eq)
qed

theorem every_write_justified_witness:
  "\<exists>u ev. made_by sampleReconciler ''operator'' (startState (sampleCluster [sqlGateway] [vaultSecret] []))
       [Reconciled (''apps'', ''gw'') (Some (''vault'', ''creds''))]
       (AppliedSecret (secretCopy sqlGateway vaultSecret ''gw-credentials'' [controllerRef sqlGateway]) None) u ev \<and>
     justified sampleReconciler ''operator'' u ev
       (AppliedSecret (secretCopy sqlGateway vaultSecret ''gw-credentials'' [controllerRef sqlGateway]) None)"
  by (rule every_write_justified [OF sample_run _ _ sample_secret_written]) simp_all

theorem filter_refines_learned_references_witness:
  "filter_passes (st_filter (snd (Reconcile sampleReconciler ''apps'' ''gw'' (sqlState []))))
     (CreateEvent (''vault'', ''creds''))"
  using filter_refines_learned_references [OF sample_run, of "CreateEvent (''vault'', ''creds'')"]
  by (simp add: object_name_def learned_def)

text \<open>After the reconcile the server's data changes, and the Secret's event arrives.\<close>

definition rotatedState :: "cluster st" where
  "rotatedState = (snd (Reconcile sampleReconciler ''apps'' ''gw'' (sqlState [])))
     \<lparr>st_world := sampleCluster [sqlGateway] [] []\<rparr>"

lemma rotated_run:
  "op_run sampleReconciler ''operator'' (startState (sampleCluster [sqlGateway] [vaultSecret] []))
     [Reconciled (''apps'', ''gw'') (Some (''vault'', ''creds'')), OutsideWrite] rotatedState"
  using run_step [OF sample_run step_outside] by (simp add: rotatedState_def)

lemma rotated_list: "k_ListGateways clusterClient (st_world rotatedState)
    = (Inr [sqlGateway], sampleCluster [sqlGateway] [] [])"
  by (simp add: rotatedState_def clusterClient_def) (simp add: sampleCluster_def)

lemma rotated_passes: "filter_passes (st_filter rotatedState) (CreateEvent (''vault'', ''creds''))"
  using run_filter [OF rotated_run] by (simp add: filter_is_def object_name_def learned_def)

theorem rotation_reaches_gateways_witness:
  "fst (enqueueForSecret clusterClient (''vault'', ''creds'') rotatedState) = [(''apps'', ''gw'')]"
proof -
  let ?ev = "CreateEvent (''vault'', ''creds'')"
  obtain reqs t where eq: "enqueueForSecret clusterClient (''vault'', ''creds'') rotatedState = (reqs, t)"
    by (metis prod.collapse)
  have step: "op_step sampleReconciler ''operator'' rotatedState (SecretSeen ?ev reqs) t"
    by (rule step_secret [OF rotated_passes]) (simp add: eq)
  have "object_name (fst (event_object ?ev)) (snd (event_object ?ev))" by (simp add: object_name_def)
  from rotation_reaches_gateways [OF rotated_run this step] show ?thesis
    by (simp add: eq rotated_list learned_def sample_refs)
qed

end
