(* ===== verification/Permissions.thy ===== *)
theory Permissions
  imports Lifecycle
begin

text \<open>
  The rights of the operator: the \<open>+kubebuilder:rbac\<close> markers of
  \<open>llmbatchgateway_controller.go\<close> (lines 111-123) and \<open>cmd/main.go\<close> (lines 72-76), from
  which its ClusterRole is generated, and the client behind an API server that enforces them.
  Roles are unions of rules; a request names an API group, a resource and a verb. The resource
  name of a kind is given by the API server and is a parameter here, \<open>documented_names\<close> its
  documented part.
\<close>

section \<open>The role\<close>

record PolicyRule =
  rule_Groups :: "string list"
  rule_Resources :: "string list"
  rule_Verbs :: "string list"

definition readVerbs :: "string list" where
  "readVerbs = [''get'', ''list'', ''watch'']"

definition allVerbs :: "string list" where
  "allVerbs = readVerbs @ [''create'', ''update'', ''patch'', ''delete'']"

definition rbacRule :: "string \<Rightarrow> string list \<Rightarrow> string list \<Rightarrow> PolicyRule" where
  "rbacRule g rs vs = \<lparr>rule_Groups = [g], rule_Resources = rs, rule_Verbs = vs\<rparr>"

definition controllerRules :: "PolicyRule list" where
  "controllerRules =
    [rbacRule ''batch.llm-d.ai'' [''llmbatchgateways''] (readVerbs @ [''update'', ''patch'']),
     rbacRule ''batch.llm-d.ai'' [''llmbatchgateways/status''] [''get'', ''update'', ''patch''],
     rbacRule ''batch.llm-d.ai'' [''llmbatchgateways/finalizers''] [''update''],
     rbacRule ''apps'' [''deployments'', ''statefulsets''] allVerbs,
     rbacRule ''rbac.authorization.k8s.io'' [''roles'', ''rolebindings''] allVerbs,
     rbacRule '''' [''pods''] readVerbs,
     rbacRule '''' [''services'', ''configmaps'', ''serviceaccounts''] allVerbs,
     rbacRule '''' [''secrets''] (readVerbs @ [''create'', ''patch'']),
     rbacRule ''gateway.networking.k8s.io'' [''referencegrants''] readVerbs,
     rbacRule ''cert-manager.io'' [''certificates''] allVerbs,
     rbacRule ''gateway.networking.k8s.io'' [''httproutes''] allVerbs,
     rbacRule ''monitoring.coreos.com'' [''servicemonitors'', ''podmonitors'', ''prometheusrules''] allVerbs,
     rbacRule '''' [''events''] [''create'', ''patch'']]"

definition mainRules :: "PolicyRule list" where
  "mainRules =
    [rbacRule '''' [''services''] [''get'', ''create'', ''update'', ''patch''],
     rbacRule ''monitoring.coreos.com'' [''servicemonitors'', ''prometheusrules'']
       [''get'', ''create'', ''update'', ''patch''],
     rbacRule ''authentication.k8s.io'' [''tokenreviews''] [''create''],
     rbacRule ''authorization.k8s.io'' [''subjectaccessreviews''] [''create''],
     rbacRule ''config.openshift.io'' [''apiservers''] readVerbs]"

definition operatorRules :: "PolicyRule list" where
  "operatorRules = controllerRules @ mainRules"

definition ruleAllows :: "PolicyRule list \<Rightarrow> string \<Rightarrow> string \<Rightarrow> string \<Rightarrow> bool" where
  "ruleAllows rules g r v \<longleftrightarrow>
     list_ex (\<lambda>p. g \<in> set (rule_Groups p) \<and> r \<in> set (rule_Resources p) \<and> v \<in> set (rule_Verbs p)) rules"

section \<open>An API server that enforces a role\<close>

type_synonym authorizer = "string \<Rightarrow> string \<Rightarrow> string \<Rightarrow> bool"

type_synonym naming = "string \<Rightarrow> string \<Rightarrow> string"

definition may :: "authorizer \<Rightarrow> naming \<Rightarrow> string \<Rightarrow> string \<Rightarrow> string list \<Rightarrow> bool" where
  "may allows N g k verbs \<longleftrightarrow> list_all (allows g (N g k)) verbs"

text \<open>
  What the parts of an apply need: the patch itself, the creation of an object that is not
  there, and, since the owner reference blocks the deletion of the gateway, the gateway's
  finalizers.
\<close>

definition mayApply :: "authorizer \<Rightarrow> naming \<Rightarrow> string \<Rightarrow> string \<Rightarrow> bool" where
  "mayApply allows N g k \<longleftrightarrow> may allows N g k [''patch'', ''create''] \<and>
     allows GroupVersion_Group (N GroupVersion_Group ''LLMBatchGateway'' @ ''/finalizers'') ''update''"

fun operatorKind :: "operator_object \<Rightarrow> string \<times> string" where
  "operatorKind (OpService _) = ('''', ''Service'')"
| "operatorKind (OpServiceMonitor _) = (''monitoring.coreos.com'', ''ServiceMonitor'')"
| "operatorKind (OpPrometheusRule _) = (''monitoring.coreos.com'', ''PrometheusRule'')"

definition forbidden :: api_error where
  "forbidden = OtherAPI ''Forbidden''"

definition gate :: "bool \<Rightarrow> ('w \<Rightarrow> (api_error + 'a) \<times> 'w) \<Rightarrow> 'w \<Rightarrow> (api_error + 'a) \<times> 'w" where
  "gate ok f = (if ok then f else (\<lambda>w. (Inl forbidden, w)))"

definition gate' :: "bool \<Rightarrow> ('w \<Rightarrow> api_error option \<times> 'w) \<Rightarrow> 'w \<Rightarrow> api_error option \<times> 'w" where
  "gate' ok f = (if ok then f else (\<lambda>w. (Some forbidden, w)))"

text \<open>
  The client with every call that reaches the server put behind the role. Typed reads are
  served from a cache that gets, lists and watches; lists of unstructured objects go to the
  server, their kind being the item's kind and \<open>List\<close>.
\<close>

definition guarded :: "authorizer \<Rightarrow> naming \<Rightarrow> 'w client \<Rightarrow> 'w client" where
  "guarded allows N K =
     (let reads = (\<lambda>g k. may allows N g k readVerbs); G = GroupVersion_Group
      in K\<lparr>k_GetGateway := (\<lambda>ns name. gate (reads G ''LLMBatchGateway'') (k_GetGateway K ns name)),
           k_GetSecret := (\<lambda>ns name. gate (reads '''' ''Secret'') (k_GetSecret K ns name)),
           k_ListGrants := (\<lambda>ns. gate (reads ''gateway.networking.k8s.io'' ''ReferenceGrant'')
             (k_ListGrants K ns)),
           k_ListGateways := gate (reads G ''LLMBatchGateway'') (k_ListGateways K),
           k_ListObjects := (\<lambda>g v kl ns. gate (may allows N g (take (length kl - 4) kl) [''list''])
             (k_ListObjects K g v kl ns)),
           k_ListDeployments := (\<lambda>ns ls. gate (reads ''apps'' ''Deployment'') (k_ListDeployments K ns ls)),
           k_ListStatefulSets := (\<lambda>ns ls. gate (reads ''apps'' ''StatefulSet'') (k_ListStatefulSets K ns ls)),
           k_PatchObject := (\<lambda>x d fo force. gate (mayApply allows N (u_Group x) (u_Kind x)) (k_PatchObject K x d fo force)),
           k_PatchSecret := (\<lambda>x d fo force. gate (mayApply allows N '''' ''Secret'') (k_PatchSecret K x d fo force)),
           k_PatchOperator := (\<lambda>x d fo force. gate (may allows N (fst (operatorKind x)) (snd (operatorKind x))
             [''patch'', ''create'']) (k_PatchOperator K x d fo force)),
           k_Delete := (\<lambda>x. gate' (may allows N (u_Group x) (u_Kind x) [''delete'']) (k_Delete K x)),
           k_PatchStatus := (\<lambda>ns name d. gate' (allows G (N G ''LLMBatchGateway'' @ ''/status'') ''patch'')
             (k_PatchStatus K ns name d))\<rparr>)"

text \<open>The names the API documents for the kinds the operator handles.\<close>

definition apiNames :: "(string \<times> string \<times> string) list" where
  "apiNames =
    [(''batch.llm-d.ai'', ''LLMBatchGateway'', ''llmbatchgateways''),
     ('''', ''Secret'', ''secrets''), ('''', ''Service'', ''services''),
     ('''', ''ConfigMap'', ''configmaps''), ('''', ''ServiceAccount'', ''serviceaccounts''),
     (''apps'', ''Deployment'', ''deployments''), (''apps'', ''StatefulSet'', ''statefulsets''),
     (''rbac.authorization.k8s.io'', ''Role'', ''roles''),
     (''rbac.authorization.k8s.io'', ''RoleBinding'', ''rolebindings''),
     (''cert-manager.io'', ''Certificate'', ''certificates''),
     (''gateway.networking.k8s.io'', ''HTTPRoute'', ''httproutes''),
     (''gateway.networking.k8s.io'', ''ReferenceGrant'', ''referencegrants''),
     (''monitoring.coreos.com'', ''ServiceMonitor'', ''servicemonitors''),
     (''monitoring.coreos.com'', ''PodMonitor'', ''podmonitors''),
     (''monitoring.coreos.com'', ''PrometheusRule'', ''prometheusrules'')]"

definition documented_names :: "naming \<Rightarrow> bool" where
  "documented_names N \<longleftrightarrow> list_all (\<lambda>(g, k, r). N g k = r) apiNames"

text \<open>What the comment at \<open>managedGVKs\<close> asks of the charts.\<close>

definition charts_managed :: "('w, 'c, 'rv) LLMBatchGatewayReconciler \<Rightarrow> bool" where
  "charts_managed R \<longleftrightarrow> (\<forall>gw localName objs. renders R gw localName objs \<longrightarrow> list_all managed objs)"

section \<open>Enough rights\<close>

text \<open>An authorizer that grants what the operator asks for.\<close>

locale enough_rights =
  fixes allows :: authorizer and N :: naming
  assumes kinds: "gvk \<in> set managedGVKs \<Longrightarrow>
      may allows N (gvk_Group gvk) (gvk_Kind gvk) [''list'', ''patch'', ''create'', ''delete'']"
    and reads: "(g, k) \<in> {(GroupVersion_Group, ''LLMBatchGateway''), ('''', ''Secret''), (''apps'', ''Deployment''),
        (''apps'', ''StatefulSet''), (''gateway.networking.k8s.io'', ''ReferenceGrant'')} \<Longrightarrow> may allows N g k readVerbs"
    and secrets: "mayApply allows N '''' ''Secret''"
    and status: "allows GroupVersion_Group (N GroupVersion_Group ''LLMBatchGateway'' @ ''/status'') ''patch''"
begin

lemma managed_rights:
  assumes "managed x"
  shows "mayApply allows N (u_Group x) (u_Kind x)" and "may allows N (u_Group x) (u_Kind x) [''delete'']"
proof -
  obtain gvk where gvk: "gvk \<in> set managedGVKs" "gvk_Group gvk = u_Group x" "gvk_Kind gvk = u_Kind x"
    using assms by (auto simp: managed_def list_ex_iff)
  from kinds [OF gvk(1)] secrets
  show "mayApply allows N (u_Group x) (u_Kind x)" "may allows N (u_Group x) (u_Kind x) [''delete'']"
    by (simp_all add: gvk(2,3) may_def mayApply_def)
qed

lemma guarded_same:
  "k_GetGateway (guarded allows N K) = k_GetGateway K"
  "k_GetSecret (guarded allows N K) = k_GetSecret K"
  "k_ListGrants (guarded allows N K) = k_ListGrants K"
  "k_ListGateways (guarded allows N K) = k_ListGateways K"
  "k_ListDeployments (guarded allows N K) = k_ListDeployments K"
  "k_ListStatefulSets (guarded allows N K) = k_ListStatefulSets K"
  "k_PatchSecret (guarded allows N K) = k_PatchSecret K"
  "k_PatchStatus (guarded allows N K) = k_PatchStatus K"
  by (simp_all add: guarded_def Let_def gate_def gate'_def reads secrets status)

lemma guarded_operator: "k_PatchOperator (guarded allows N K) = k_PatchOperator K"
proof (intro ext)
  fix x d fo force w
  have "managedGVKs \<noteq> [] \<and> may allows N (fst (operatorKind x)) (snd (operatorKind x)) [''patch'', ''create'']"
    using kinds [of "\<lparr>gvk_Group = '''', gvk_Version = ''v1'', gvk_Kind = ''Service''\<rparr>"]
      kinds [of "\<lparr>gvk_Group = ''monitoring.coreos.com'', gvk_Version = ''v1'', gvk_Kind = ''ServiceMonitor''\<rparr>"]
      kinds [of "\<lparr>gvk_Group = ''monitoring.coreos.com'', gvk_Version = ''v1'', gvk_Kind = ''PrometheusRule''\<rparr>"]
    by (cases x) (simp_all add: managedGVKs_def may_def)
  then show "k_PatchOperator (guarded allows N K) x d fo force w = k_PatchOperator K x d fo force w"
    by (simp add: guarded_def Let_def gate_def)
qed

lemma guarded_local:
  "k_MarshalObject (guarded allows N K) = k_MarshalObject K"
  "k_MarshalSecret (guarded allows N K) = k_MarshalSecret K"
  "k_MarshalOperator (guarded allows N K) = k_MarshalOperator K"
  "k_MarshalPatch (guarded allows N K) = k_MarshalPatch K"
  "k_SetControllerReference (guarded allows N K) = k_SetControllerReference K"
  "k_SetStatusCondition (guarded allows N K) = k_SetStatusCondition K"
  "k_FindStatusCondition (guarded allows N K) = k_FindStatusCondition K"
  by (simp_all add: guarded_def Let_def)

lemmas guarded_calls = guarded_same guarded_operator guarded_local

lemma guarded_kinds:
  "managed x \<Longrightarrow> k_PatchObject (guarded allows N K) x = k_PatchObject K x"
  "managed x \<Longrightarrow> k_Delete (guarded allows N K) x = k_Delete K x"
  "gvk \<in> set managedGVKs \<Longrightarrow> k_ListObjects (guarded allows N K) (gvk_Group gvk) v (gvk_Kind gvk @ ''List'')
     = k_ListObjects K (gvk_Group gvk) v (gvk_Kind gvk @ ''List'')"
proof -
  show "managed x \<Longrightarrow> k_PatchObject (guarded allows N K) x = k_PatchObject K x"
    "managed x \<Longrightarrow> k_Delete (guarded allows N K) x = k_Delete K x"
    by (simp_all add: guarded_def Let_def gate_def gate'_def managed_rights)
  show "gvk \<in> set managedGVKs \<Longrightarrow> k_ListObjects (guarded allows N K) (gvk_Group gvk) v (gvk_Kind gvk @ ''List'')
     = k_ListObjects K (gvk_Group gvk) v (gvk_Kind gvk @ ''List'')"
    using kinds [of gvk] by (simp add: guarded_def Let_def gate_def may_def)
qed

text \<open>So nothing the operator does depends on whether the role is enforced.\<close>

lemma same_apply:
  "managed x \<Longrightarrow> applyObject (guarded allows N K) x s = applyObject K x s"
  unfolding applyObject_def ServerSideApply_def by (simp add: guarded_kinds guarded_local split: sum.split)

lemma same_applyObjects:
  "list_all managed objs \<Longrightarrow> applyObjects (guarded allows N K) gw objs s = applyObjects K gw objs s"
proof (induction objs arbitrary: s)
  case Nil
  then show ?case by simp
next
  case (Cons obj objs)
  have "managed (obj\<lparr>u_Namespace := ns, u_OwnerReferences := refs\<rparr>)" for ns refs
    using Cons.prems by (simp add: managed_def)
  then show ?case
    using Cons by (simp add: guarded_local same_apply Let_def split: sum.split prod.split)
qed

lemma same_deleteItems:
  "list_all managed items \<Longrightarrow>
     deleteItems (guarded allows N K) gw desired gvk items errs s = deleteItems K gw desired gvk items errs s"
  by (induction items arbitrary: errs s)
    (simp_all add: guarded_kinds Let_def split: prod.split option.split)

lemma listed_managed:
  assumes "lists_what_is_asked K" and "gvk \<in> set managedGVKs"
    and "call (k_ListObjects K (gvk_Group gvk) v (gvk_Kind gvk @ ''List'') ns) s = (Inr items, t)"
  shows "list_all managed items"
proof -
  have "fst (k_ListObjects K (gvk_Group gvk) v (gvk_Kind gvk @ ''List'') ns (st_world s)) = Inr items"
    using assms(3) by (auto simp: call_def split: prod.splits)
  with assms(1) have "list_all (\<lambda>item. u_Group item = gvk_Group gvk \<and> u_Kind item = gvk_Kind gvk \<and>
      u_Namespace item = ns) items"
    unfolding lists_what_is_asked_def by blast
  then show ?thesis
    using assms(2) by (auto simp: list_all_iff managed_def list_ex_iff)
qed

lemma same_deleteKinds:
  assumes "lists_what_is_asked K" and "set gvks \<subseteq> set managedGVKs"
  shows "deleteKinds (guarded allows N K) gw desired gvks errs s = deleteKinds K gw desired gvks errs s"
  using assms(2)
proof (induction gvks arbitrary: errs s)
  case Nil
  then show ?case by simp
next
  case (Cons gvk gvks)
  obtain r t where eq: "call (k_ListObjects K (gvk_Group gvk) (gvk_Version gvk) (gvk_Kind gvk @ ''List'')
      (gw_Namespace gw)) s = (r, t)" by fastforce
  have IH: "deleteKinds (guarded allows N K) gw desired gvks errs s = deleteKinds K gw desired gvks errs s" for errs s
    using Cons by simp
  have same: "k_ListObjects (guarded allows N K) (gvk_Group gvk) (gvk_Version gvk) (gvk_Kind gvk @ ''List'')
      = k_ListObjects K (gvk_Group gvk) (gvk_Version gvk) (gvk_Kind gvk @ ''List'')"
    using Cons.prems by (simp add: guarded_kinds)
  show ?case
  proof (cases r)
    case (Inl e)
    then show ?thesis by (simp add: same eq IH)
  next
    case (Inr items)
    then have "list_all managed items" using listed_managed [OF assms(1)] eq Cons.prems by auto
    then show ?thesis by (simp add: same eq Inr same_deleteItems IH split: prod.split)
  qed
qed

lemma same_steps:
  "lists_what_is_asked K \<Longrightarrow>
     deleteOrphanedResources (guarded allows N K) gw objs s = deleteOrphanedResources K gw objs s"
  "resolveSecret (guarded allows N K) gw s = resolveSecret K gw s"
  "recordFailure (guarded allows N K) gw failure s = recordFailure K gw failure s"
  "failRender (guarded allows N K) gw chart err s = failRender K gw chart err s"
  "updateStatus (guarded allows N K) gw s = updateStatus K gw s"
  "enqueueForSecret (guarded allows N K) obj s = enqueueForSecret K obj s"
  "enqueueForReferenceGrant (guarded allows N K) obj s = enqueueForReferenceGrant K obj s"
  "metricsReconcile (guarded allows N K) ns s = metricsReconcile K ns s"
proof -
  have p: "patch_Apply (guarded allows N K) gw p s = patch_Apply K gw p s" for gw p s
    unfolding patch_Apply_def guarded_calls ..
  have c: "setCondition (guarded allows N K) gw c = setCondition K gw c"
    "setComponentAvailableCondition (guarded allows N K) gw cc rs = setComponentAvailableCondition K gw cc rs"
    for gw c cc rs
    unfolding setCondition_def setComponentAvailableCondition_def guarded_calls by (rule refl)+
  have m: "markFailed (guarded allows N K) failure gw = markFailed K failure gw" for failure gw
    unfolding markFailed_def c ..
  show "lists_what_is_asked K \<Longrightarrow>
     deleteOrphanedResources (guarded allows N K) gw objs s = deleteOrphanedResources K gw objs s"
    by (simp add: deleteOrphanedResources_def same_deleteKinds)
  show "resolveSecret (guarded allows N K) gw s = resolveSecret K gw s"
    unfolding resolveSecret_def checkReferenceGrant_def syncSecretCopy_def applySecret_def guarded_calls ..
  show rec: "recordFailure (guarded allows N K) gw failure s = recordFailure K gw failure s" for gw failure s
    unfolding recordFailure_def m p ..
  show "failRender (guarded allows N K) gw chart err s = failRender K gw chart err s"
    unfolding failRender_def rec ..
  show "updateStatus (guarded allows N K) gw s = updateStatus K gw s"
    unfolding updateStatus_def publishStatus_def guarded_calls p c ..
  show "enqueueForSecret (guarded allows N K) obj s = enqueueForSecret K obj s"
    "enqueueForReferenceGrant (guarded allows N K) obj s = enqueueForReferenceGrant K obj s"
    unfolding enqueueForSecret_def enqueueForReferenceGrant_def guarded_calls by (rule refl)+
  show "metricsReconcile (guarded allows N K) ns s = metricsReconcile K ns s"
    unfolding metricsReconcile_def reconcileMetricsService_def reconcileServiceMonitor_def
      reconcilePrometheusRule_def applyOperator_def guarded_calls ..
qed

lemma same_reconcileObjects:
  assumes "lists_what_is_asked (r_Client R)" and "list_all managed objs"
  shows "reconcileObjects (R\<lparr>r_Client := guarded allows N (r_Client R)\<rparr>) gw objs s = reconcileObjects R gw objs s"
  unfolding reconcileObjects_def
  by (simp add: same_applyObjects [OF assms(2)] same_steps(1) [OF assms(1)] same_steps(5)
      split: prod.split sum.split option.split)

lemma same_renderAll:
  "renderAll (R\<lparr>r_Client := guarded allows N (r_Client R)\<rparr>) gw localName s = renderAll R gw localName s"
  by (simp add: renderAll_def same_steps(4) split: sum.split option.split)

lemma same_reconcileGateway:
  assumes "lists_what_is_asked (r_Client R)" and "charts_managed R"
  shows "reconcileGateway (R\<lparr>r_Client := guarded allows N (r_Client R)\<rparr>) gw s = reconcileGateway R gw s"
proof -
  have objects: "reconcileObjects (R\<lparr>r_Client := guarded allows N (r_Client R)\<rparr>) gw objs t = reconcileObjects R gw objs t"
    if "renderAll R gw localName u = (Inr objs, t)" for localName u objs t
    using same_reconcileObjects [OF assms(1)] assms(2) renderAll_renders [OF that]
    by (auto simp: charts_managed_def)
  show ?thesis
    unfolding reconcileGateway_def same_renderAll
    by (auto simp: same_steps objects split: option.split sum.split prod.split)
qed

lemma same_Reconcile:
  assumes "lists_what_is_asked (r_Client R)" and "charts_managed R"
  shows "Reconcile (R\<lparr>r_Client := guarded allows N (r_Client R)\<rparr>) ns name s = Reconcile R ns name s"
proof -
  have "reconcile (R\<lparr>r_Client := guarded allows N (r_Client R)\<rparr>) ns name s = reconcile R ns name s"
    by (simp add: reconcile_def guarded_same same_reconcileGateway [OF assms] split: prod.split sum.split)
  then show ?thesis by (simp add: Reconcile_def)
qed

lemma same_learnedRef:
  "learnedRef (R\<lparr>r_Client := guarded allows N (r_Client R)\<rparr>) ns name s = learnedRef R ns name s"
  by (simp add: learnedRef_def guarded_same same_steps(2) split: prod.split sum.split)

lemma same_step:
  assumes "lists_what_is_asked (r_Client R)" and "charts_managed R"
  shows "op_step (R\<lparr>r_Client := guarded allows N (r_Client R)\<rparr>) opns s ev t \<longleftrightarrow> op_step R opns s ev t"
  by (simp add: op_step.simps same_Reconcile [OF assms] same_learnedRef same_steps(6,7,8))

lemma same_run:
  assumes "lists_what_is_asked (r_Client R)" and "charts_managed R"
  shows "op_run (R\<lparr>r_Client := guarded allows N (r_Client R)\<rparr>) opns s evs t \<longleftrightarrow> op_run R opns s evs t"
    (is "?lhs \<longleftrightarrow> ?rhs")
proof
  show "?lhs \<Longrightarrow> ?rhs"
    by (induction rule: op_run.induct) (auto simp: same_step [OF assms] intro: op_run.intros)
  show "?rhs \<Longrightarrow> ?lhs"
    by (induction rule: op_run.induct) (auto simp: same_step [OF assms] intro: op_run.intros)
qed

end

section \<open>The rights of the operator\<close>

text \<open>Whether the role grants verbs on a kind, by its documented name.\<close>

definition grants :: "string list \<Rightarrow> string \<times> string \<Rightarrow> bool" where
  "grants verbs gk \<longleftrightarrow>
     list_ex (\<lambda>(g, k, r). (g, k) = gk \<and> list_all (ruleAllows operatorRules g r) verbs) apiNames"

lemma grants_may:
  assumes "documented_names N" and "grants verbs (g, k)"
  shows "may (ruleAllows operatorRules) N g k verbs"
proof -
  from assms(2) obtain r where r: "(g, k, r) \<in> set apiNames" "list_all (ruleAllows operatorRules g r) verbs"
    unfolding grants_def list_ex_iff by auto
  from assms(1) r(1) have "N g k = r" unfolding documented_names_def list_all_iff by auto
  with r(2) show ?thesis by (simp add: may_def)
qed

lemma grants_kinds:
  "list_all (grants [''list'', ''patch'', ''create'', ''delete''])
     (map (\<lambda>gvk. (gvk_Group gvk, gvk_Kind gvk)) managedGVKs)"
  by code_simp

lemma grants_reads:
  "list_all (grants readVerbs) [(GroupVersion_Group, ''LLMBatchGateway''), ('''', ''Secret''),
     (''apps'', ''Deployment''), (''apps'', ''StatefulSet''),
     (''gateway.networking.k8s.io'', ''ReferenceGrant'')]"
  by code_simp

lemma grants_writes:
  "grants [''patch'', ''create''] ('''', ''Secret'')"
  "ruleAllows operatorRules GroupVersion_Group ''llmbatchgateways/finalizers'' ''update''"
  "ruleAllows operatorRules GroupVersion_Group ''llmbatchgateways/status'' ''patch''"
  by code_simp+

lemma documented_gateways: "documented_names N \<Longrightarrow> N GroupVersion_Group ''LLMBatchGateway'' = ''llmbatchgateways''"
  by (simp add: documented_names_def apiNames_def GroupVersion_Group_def)

lemma role_enough:
  assumes "documented_names N"
  shows "enough_rights (ruleAllows operatorRules) N"
proof
  note may = grants_may [OF assms]
  show "may (ruleAllows operatorRules) N (gvk_Group gvk) (gvk_Kind gvk) [''list'', ''patch'', ''create'', ''delete'']"
    if "gvk \<in> set managedGVKs" for gvk
    using that grants_kinds by (intro may) (auto simp: list_all_iff)
  show "may (ruleAllows operatorRules) N g k readVerbs"
    if "(g, k) \<in> {(GroupVersion_Group, ''LLMBatchGateway''), ('''', ''Secret''), (''apps'', ''Deployment''),
        (''apps'', ''StatefulSet''), (''gateway.networking.k8s.io'', ''ReferenceGrant'')}" for g k
    using that grants_reads by (intro may) (auto simp only: list.pred_inject insert_iff empty_iff prod.inject)
  show "mayApply (ruleAllows operatorRules) N '''' ''Secret''"
    using may [OF grants_writes(1)] grants_writes(2) documented_gateways [OF assms] by (simp add: mayApply_def)
  show "ruleAllows operatorRules GroupVersion_Group (N GroupVersion_Group ''LLMBatchGateway'' @ ''/status'') ''patch''"
    using grants_writes(3) documented_gateways [OF assms] by simp
qed

text \<open>A naming: the kind in lower case, with an s.\<close>

definition lowerPlural :: naming where
  "lowerPlural g k = map (\<lambda>c. if CHR ''A'' \<le> c \<and> c \<le> CHR ''Z'' then char_of (of_char c + (32 :: nat)) else c) k @ ''s''"

lemma lowerPlural_documented: "documented_names lowerPlural"
  by code_simp

interpretation operator_role: enough_rights "ruleAllows operatorRules" lowerPlural
  by (rule role_enough [OF lowerPlural_documented])

section \<open>Properties\<close>

text \<open>
  C9: the generated role is enough. Whatever happens to the operator, an API server that
  refuses every call the role does not grant behaves towards it as one that refuses none: every
  run of the one is a run of the other. This needs the charts to keep to the managed kinds, and
  lists to hold what they were asked for.
\<close>

theorem role_suffices:
  assumes "documented_names N" and "charts_managed R" and "lists_what_is_asked (r_Client R)"
  shows "op_run (R\<lparr>r_Client := guarded (ruleAllows operatorRules) N (r_Client R)\<rparr>) opns s evs t \<longleftrightarrow>
    op_run R opns s evs t"
  by (rule enough_rights.same_run [OF role_enough [OF assms(1)] assms(3,2)])

text \<open>
  The role is not wider where it matters: it has no wildcard, Secrets cannot be deleted or
  overwritten by an update, and cluster-wide roles, and the verbs that lift the API server's check
  of role escalation, are out of reach.
\<close>

lemma role_is_bounded:
  "list_all (\<lambda>p. list_all (\<lambda>xs. ''*'' \<notin> set xs) [rule_Groups p, rule_Resources p, rule_Verbs p]) operatorRules"
  "ruleAllows operatorRules '''' ''secrets'' v \<longleftrightarrow> v \<in> {''get'', ''list'', ''watch'', ''create'', ''patch''}"
  "\<not> ruleAllows operatorRules ''rbac.authorization.k8s.io'' ''clusterroles'' v"
  "\<not> ruleAllows operatorRules g r ''escalate''" "\<not> ruleAllows operatorRules g r ''bind''"
  by (auto simp: ruleAllows_def operatorRules_def controllerRules_def mainRules_def rbacRule_def
      allVerbs_def readVerbs_def)

section \<open>Witnesses\<close>

lemma sample_charts_managed: "charts_managed sampleReconciler"
proof -
  have "managed (sampleObject n)" "managed (labelAsyncComponent (sampleObject n))" for n
    by (simp_all add: managed_def managedGVKs_def sampleObject_def labelAsyncComponent_def)
  moreover have "RenderAsyncChart sampleLib unmarshal sampleRenderer gw n = Inr [labelAsyncComponent (sampleObject ''d'')]"
    for unmarshal gw n
    by (simp add: RenderAsyncChart_def renderChart_def sampleLib_def Let_def baseName_def)
  ultimately show ?thesis
    by (auto simp: charts_managed_def renders_def sample_batch_render)
qed

theorem role_suffices_witness:
  "op_run (sampleReconciler\<lparr>r_Client := guarded (ruleAllows operatorRules) lowerPlural clusterClient\<rparr>)
     ''operator'' runState
     [Reconciled (''apps'', ''gw'') (learnedRef sampleReconciler ''apps'' ''gw'' runState)]
     (snd (Reconcile sampleReconciler ''apps'' ''gw'' runState))"
proof -
  have lists: "lists_what_is_asked (r_Client sampleReconciler)" by simp
  have "op_run sampleReconciler ''operator'' runState
      ([] @ [Reconciled (''apps'', ''gw'') (learnedRef sampleReconciler ''apps'' ''gw'' runState)])
      (snd (Reconcile sampleReconciler ''apps'' ''gw'' runState))"
    by (rule run_step [OF run_nil step_reconcile])
  then show ?thesis
    using role_suffices [OF lowerPlural_documented sample_charts_managed lists, of "''operator''" runState]
    by simp
qed

end
