(* ===== verification/Stability.thy ===== *)
theory Stability
  imports Lifecycle
begin

text \<open>
  What happens to a gateway's objects after a completed reconcile while its spec stays as it is:
  in whatever order the operator reconciles it and gateways of other namespaces, sees events and
  is restarted, and however these reconciles end, the gateway keeps every object it has, gains
  none but rendered ones, and none is deleted. The objects are described by their keys.
\<close>

section \<open>The keys a gateway holds\<close>

definition held :: "LLMBatchGateway \<Rightarrow> Unstructured set \<Rightarrow> object_key set" where
  "held gw S = {k. present gw S k \<and> fst (snd (snd k)) = gw_Namespace gw}"

lemma held_iff:
  "k \<in> held gw S \<longleftrightarrow> (\<exists>x \<in> S. key_of x = k \<and> u_Namespace x = gw_Namespace gw \<and> controlled gw x)"
  by (auto simp: held_def present_def key_of_def)

definition managed_key :: "object_key \<Rightarrow> bool" where
  "managed_key k \<longleftrightarrow> list_ex (\<lambda>gvk. gvk_Group gvk = fst k \<and> gvk_Kind gvk = fst (snd k)) managedGVKs"

lemma managed_key_of: "managed_key (key_of x) \<longleftrightarrow> managed x"
  by (simp add: managed_key_def managed_def key_of_def)

section \<open>A steady server\<close>

text \<open>
  Besides the laws of \<open>undisturbed_server\<close>: an apply that fails, in whatever way, has stored
  either nothing or what it would have stored had it succeeded; lists of gateways change
  nothing; the operator's own objects are under no gateway's control; and a gateway that is
  asked for by namespace is in that namespace.
\<close>

definition applies_or_not :: "'w client \<Rightarrow> ('w \<Rightarrow> Unstructured set) \<Rightarrow> bool" where
  "applies_or_not K stored \<longleftrightarrow>
     (\<forall>obj data w r w'. k_PatchObject K obj data FieldOwner True w = (r, w') \<longrightarrow>
        stored w' = stored w \<or>
        (\<exists>obj'. key_of obj' = key_of obj \<and>
           (\<forall>gw. isControllerOwnedBy (u_OwnerReferences obj) gw \<longrightarrow> isControllerOwnedBy (u_OwnerReferences obj') gw) \<and>
           stored w' = insert obj' {x \<in> stored w. key_of x \<noteq> key_of obj}))"

definition steady_server :: "'w client \<Rightarrow> ('w \<Rightarrow> Unstructured set) \<Rightarrow> bool" where
  "steady_server K stored \<longleftrightarrow> undisturbed_server K stored \<and> applies_or_not K stored \<and>
     keeps stored (k_ListGateways K) \<and>
     (\<forall>gw x d owner force w. held gw (stored (snd (k_PatchOperator K x d owner force w))) = held gw (stored w)) \<and>
     (\<forall>ns name w gw w'. k_GetGateway K ns name w = (Inr gw, w') \<longrightarrow> gw_Namespace gw = ns)"

lemma steady_laws:
  assumes "steady_server K stored"
  shows "undisturbed_server K stored" and "applies_or_not K stored"
    and "deletes K stored" and "lists_all K stored" and "applies K stored"
  using assms by (simp_all add: steady_server_def undisturbed_server_def)

section \<open>What a reconcile can do\<close>

text \<open>
  Under a key of \<open>T\<close> objects were stored, and then none of them deleted: the two ways in which
  the stored objects change in a reconcile, however it ends.
\<close>

definition moves :: "LLMBatchGateway \<Rightarrow> object_key set \<Rightarrow> Unstructured set \<Rightarrow> Unstructured set \<Rightarrow> bool" where
  "moves gw T S S' \<longleftrightarrow> (\<exists>M. extends_by gw T S M \<and>
     prunes (\<lambda>y. y \<in> M \<and> managed y \<and> u_Namespace y = gw_Namespace gw \<and> controlled gw y \<and> key_of y \<notin> T) M S')"

lemma moves_refl [simp]: "moves gw T S S"
  unfolding moves_def using extends_by_refl prunes_refl by blast

lemma apply_any:
  assumes "applies_or_not K stored" and "applyObject K obj s = (r, t)" and "controlled gw obj"
  shows "extends_by gw {key_of obj} (on_server stored s) (on_server stored t)"
proof (cases "k_MarshalObject K obj")
  case (Inl e)
  with assms(2) have "t = s" by (auto simp: applyObject_def ServerSideApply_def)
  then show ?thesis by simp
next
  case (Inr data)
  obtain a u where c: "call (k_PatchObject K obj data FieldOwner True) s = (a, u)" by fastforce
  have t: "t = emit (Applied obj (error_of a)) u"
    using assms(2) Inr c by (auto simp: applyObject_def ServerSideApply_def)
  have p: "k_PatchObject K obj data FieldOwner True (st_world s) = (a, st_world u)"
    using c by (auto simp: call_def split: prod.splits)
  from assms(1) p consider "on_server stored u = on_server stored s"
    | obj' where "key_of obj' = key_of obj" "isControllerOwnedBy (u_OwnerReferences obj) gw \<longrightarrow>
        isControllerOwnedBy (u_OwnerReferences obj') gw"
      "on_server stored u = insert obj' {x \<in> on_server stored s. key_of x \<noteq> key_of obj}"
    unfolding applies_or_not_def by meson
  then show ?thesis
  proof cases
    case 1
    with t show ?thesis by simp
  next
    case 2
    with t assms(3) show ?thesis by (auto simp: extends_by_def controlled_def)
  qed
qed

lemma applyObjects_any:
  assumes "applies_or_not K stored" and "owner_lib K"
  shows "applyObjects K gw objs s = (r, s') \<Longrightarrow>
    extends_by gw (target gw ` set objs) (on_server stored s) (on_server stored s')"
proof (induction objs arbitrary: r s s')
  case Nil
  then show ?case by simp
next
  case (Cons obj objs)
  show ?case
  proof (cases "k_SetControllerReference K gw (gw_Namespace gw) (u_OwnerReferences obj)")
    case (Inl e)
    with Cons.prems have "s' = s" by simp
    then show ?thesis by simp
  next
    case (Inr refs)
    define out where "out = obj\<lparr>u_Namespace := gw_Namespace gw, u_OwnerReferences := refs\<rparr>"
    have out: "key_of out = target gw obj" "controlled gw out"
      using assms(2) Inr by (auto simp: out_def key_of_def target_def controlled_def owner_lib_def)
    obtain a t where ap: "applyObject K out s = (a, t)" by fastforce
    note step = apply_any [OF assms(1) ap out(2), unfolded out(1)]
    obtain r' u where rest: "applyObjects K gw objs t = (r', u)" by fastforce
    have "s' = u \<or> on_server stored s' = on_server stored t"
      using Cons.prems Inr ap rest by (auto simp: out_def [symmetric] split: sum.splits if_splits)
    then show ?thesis
    proof
      assume "s' = u"
      with extends_by_trans [OF step Cons.IH [OF rest]] show ?thesis by simp
    next
      assume "on_server stored s' = on_server stored t"
      with step show ?thesis by (auto simp: extends_by_def)
    qed
  qed
qed

lemma reconcileObjects_any:
  assumes "steady_server (r_Client R) stored" and "owner_lib (r_Client R)"
    and "reconcileObjects R gw objs s = (r, s')"
  shows "moves gw (target gw ` set objs) (on_server stored s) (on_server stored s')"
proof -
  let ?K = "r_Client R"
  note laws = steady_laws [OF assms(1)]
  obtain a t where a: "applyObjects ?K gw objs s = (a, t)" by fastforce
  note ext = applyObjects_any [OF laws(2) assms(2) a]
  show ?thesis
  proof (cases a)
    case (Inl e)
    with a assms(3) have "s' = t" by (simp add: reconcileObjects_def)
    with ext show ?thesis unfolding moves_def using prunes_refl by blast
  next
    case (Inr objs')
    note targets = same_targets [OF applyObjects_identity [OF applies_echo [OF laws(5)] a [unfolded Inr]], of gw]
    obtain err u where d: "deleteOrphanedResources ?K gw objs' t = (err, u)" by fastforce
    have "on_server stored s' = on_server stored u"
      using assms(3) a Inr d keeps_updateStatus [OF laws(1), of gw u]
      by (auto simp: reconcileObjects_def split: option.splits prod.splits)
    with ext cleanUp_stored(1) [OF laws(3,4) d, unfolded targets] show ?thesis
      unfolding moves_def by auto
  qed
qed

lemma keeps_failures:
  assumes "undisturbed_server K stored"
  shows "on_server stored (snd (recordFailure K gw f s)) = on_server stored s"
    and "on_server stored (snd (failRender K gw chart e s)) = on_server stored s"
  using keeps_patch_Apply [OF assms]
  by (simp_all add: recordFailure_def failRender_def Let_def case_prod_beta split: option.split)

lemma keeps_renderAll:
  assumes "undisturbed_server (r_Client R) stored"
  shows "on_server stored (snd (renderAll R gw n s)) = on_server stored s"
  using keeps_failures(2) [OF assms]
  by (simp add: renderAll_def case_prod_beta split: sum.split option.split)

lemma Reconcile_any:
  assumes "steady_server (r_Client R) stored" and "owner_lib (r_Client R)"
    and "k_GetGateway (r_Client R) ns name (st_world s) = (Inr gw, w)"
    and "Reconcile R ns name s = (r, s')"
  shows "on_server stored s' = on_server stored s \<or>
    (\<exists>objs. canApply R gw (s\<lparr>st_world := w\<rparr>) objs \<and>
       moves gw (target gw ` set objs) (on_server stored s) (on_server stored s'))"
proof -
  let ?K = "r_Client R" and ?s = "s\<lparr>st_world := w\<rparr>"
  note server = steady_laws(1) [OF assms(1)]
  obtain res err where r: "r = (res, err)" by fastforce
  obtain u where u: "reconcileGateway R gw ?s = ((res, err), u)" "st_world s' = st_world u"
    using Reconcile_existing [OF assms(3) assms(4) [unfolded r]] by blast
  have start: "on_server stored ?s = on_server stored s"
    using server_call(1) [OF server, of ns name s] assms(3) by (simp add: call_def)
  obtain x t where res: "resolveSecret ?K gw ?s = (x, t)" by fastforce
  have t: "on_server stored t = on_server stored s"
    using keeps_resolve [OF server, of gw ?s] res start by simp
  show ?thesis
  proof (cases "validateSpec (r_visit R) gw")
    case (Some v)
    with u(1) have "\<exists>f. u = snd (recordFailure ?K gw f ?s)"
      by (auto simp: reconcileGateway_def case_prod_beta)
    then show ?thesis using keeps_failures(1) [OF server] start u(2) by auto
  next
    case None
    show ?thesis
    proof (cases x)
      case (Inl e)
      with u(1) None res have "u = t \<or> (\<exists>f. u = snd (recordFailure ?K gw f t))"
        by (auto simp: reconcileGateway_def case_prod_beta split: option.splits)
      then show ?thesis using keeps_failures(1) [OF server] t u(2) by auto
    next
      case (Inr n)
      obtain y v where ren: "renderAll R gw n (trackSecret gw t) = (y, v)" by fastforce
      have v: "on_server stored v = on_server stored s"
        using keeps_renderAll [OF server, of gw n "trackSecret gw t"] ren t by simp
      show ?thesis
      proof (cases y)
        case (Inl z)
        with u None res Inr ren v show ?thesis by (auto simp: reconcileGateway_def)
      next
        case objs: (Inr objs)
        with u(1) None res Inr ren have "reconcileObjects R gw objs v = ((res, err), u)"
          by (auto simp: reconcileGateway_def)
        from reconcileObjects_any [OF assms(1,2) this] v u(2) renderAll_renders [OF ren [unfolded objs]] None res Inr
        show ?thesis by (auto simp: canApply_def)
      qed
    qed
  qed
qed

section \<open>Effect on the held keys\<close>

lemma moves_own:
  assumes "moves gw T S S'" and "\<And>k. k \<in> held gw S \<Longrightarrow> managed_key k \<Longrightarrow> k \<in> T"
  shows "held gw S \<subseteq> held gw S'" and "\<And>k. k \<in> held gw S' \<Longrightarrow> managed_key k \<Longrightarrow> k \<in> T"
proof -
  from assms(1) obtain M where ext: "extends_by gw T S M"
    and prune: "prunes (\<lambda>y. y \<in> M \<and> managed y \<and> u_Namespace y = gw_Namespace gw \<and> controlled gw y \<and> key_of y \<notin> T) M S'"
    unfolding moves_def by blast
  have in_T: "key_of y \<in> T" if "y \<in> M" "managed y" "u_Namespace y = gw_Namespace gw" "controlled gw y" for y
  proof (rule ccontr)
    assume "key_of y \<notin> T"
    with ext that(1) have "y \<in> S" by (auto simp: extends_by_def)
    with that have "key_of y \<in> held gw S" unfolding held_iff by blast
    with assms(2) \<open>key_of y \<notin> T\<close> that(2) managed_key_of show False by blast
  qed
  then have same: "S' = M" using prune unfolding prunes_def by blast
  show "held gw S \<subseteq> held gw S'"
    using ext unfolding same extends_by_def held_def present_def by blast
  show "k \<in> held gw S' \<Longrightarrow> managed_key k \<Longrightarrow> k \<in> T" for k
    using in_T unfolding same held_iff by (auto simp: managed_key_of)
qed

lemma moves_elsewhere:
  assumes "moves gw' T S S'" and "gw_Namespace gw' \<noteq> gw_Namespace gw"
    and "\<forall>k \<in> T. fst (snd (snd k)) = gw_Namespace gw'"
  shows "held gw S' = held gw S"
proof -
  from assms(1) obtain M where ext: "extends_by gw' T S M"
    and prune: "prunes (\<lambda>y. y \<in> M \<and> managed y \<and> u_Namespace y = gw_Namespace gw' \<and> controlled gw' y \<and> key_of y \<notin> T) M S'"
    unfolding moves_def by blast
  have "x \<in> S' \<longleftrightarrow> x \<in> S" if "u_Namespace x = gw_Namespace gw" for x
  proof -
    have other: "u_Namespace y = gw_Namespace gw" if "key_of y = key_of x" for y
      using that \<open>u_Namespace x = gw_Namespace gw\<close> by (simp add: key_of_def)
    have "key_of x \<notin> T" using assms(2,3) that by (auto simp: key_of_def)
    with ext have "x \<in> M \<longleftrightarrow> x \<in> S" by (simp add: extends_by_def)
    moreover have "x \<in> S' \<longleftrightarrow> x \<in> M"
      using prune other assms(2) unfolding prunes_def by (metis subsetD)
    ultimately show ?thesis by simp
  qed
  then show ?thesis unfolding set_eq_iff held_iff by blast
qed

section \<open>Quiet runs\<close>

text \<open>
  Nobody but the operator touches what matters: whoever writes to the server leaves the keys the
  gateway holds as they are, a reconcile of the gateway reads the spec unchanged, and gateways
  of the same namespace are not reconciled meanwhile.
\<close>

fun quiet :: "('w, 'c, 'rv) LLMBatchGatewayReconciler \<Rightarrow> ('w \<Rightarrow> Unstructured set) \<Rightarrow> string \<Rightarrow> LLMBatchGateway \<Rightarrow>
    'w st \<Rightarrow> op_event \<Rightarrow> 'w st \<Rightarrow> bool" where
  "quiet R stored name gw s (Reconciled (ns', name') _) s' \<longleftrightarrow>
     (ns' = gw_Namespace gw \<longrightarrow> name' = name \<and>
        (case fst (k_GetGateway (r_Client R) ns' name' (st_world s)) of
           Inl _ \<Rightarrow> True
         | Inr gw' \<Rightarrow> same_resource gw gw'))"
| "quiet R stored name gw s OutsideWrite s' \<longleftrightarrow> held gw (on_server stored s') = held gw (on_server stored s)"
| "quiet R stored name gw s _ s' \<longleftrightarrow> True"

inductive quiet_run ::
  "('w, 'c, 'rv) LLMBatchGatewayReconciler \<Rightarrow> string \<Rightarrow> ('w \<Rightarrow> Unstructured set) \<Rightarrow> string \<Rightarrow> LLMBatchGateway \<Rightarrow>
   'w st \<Rightarrow> op_event list \<Rightarrow> 'w st \<Rightarrow> bool"
  for R opns stored name gw s where
  quiet_nil: "quiet_run R opns stored name gw s [] s"
| quiet_step: "quiet_run R opns stored name gw s evs t \<Longrightarrow> op_step R opns t ev u \<Longrightarrow>
    quiet R stored name gw t ev u \<Longrightarrow> quiet_run R opns stored name gw s (evs @ [ev]) u"

lemma quiet_run_is_run: "quiet_run R opns stored name gw s evs t \<Longrightarrow> op_run R opns s evs t"
  by (induction rule: quiet_run.induct) (auto intro: op_run.intros)

lemma absent_stored:
  assumes "undisturbed_server (r_Client R) stored"
    and "k_GetGateway (r_Client R) ns name (st_world s) = (Inl e, w)"
  shows "on_server stored (snd (Reconcile R ns name s)) = on_server stored s"
  using server_call(1) [OF assms(1), of ns name s] assms(2)
  by (auto simp: Reconcile_def reconcile_def call_def split: prod.splits option.splits)

lemma events_stored:
  assumes "keeps stored (k_ListGateways K)"
  shows "enqueueForSecret K obj s = (reqs, s') \<Longrightarrow> on_server stored s' = on_server stored s"
    and "enqueueForReferenceGrant K obj s = (reqs, s') \<Longrightarrow> on_server stored s' = on_server stored s"
  using keeps_call [OF assms]
  by (auto simp: enqueueForSecret_def enqueueForReferenceGrant_def split: prod.splits sum.splits)

lemma metrics_held:
  assumes "steady_server K stored"
  shows "held gw (on_server stored (snd (metricsReconcile K ns s))) = held gw (on_server stored s)"
proof -
  have ap: "held gw (on_server stored (snd (applyOperator K x u))) = held gw (on_server stored u)" for x u
    using assms
    by (simp add: applyOperator_def ServerSideApply_def call_def case_prod_beta steady_server_def split: sum.split)
  have "held gw (on_server stored (snd (applySteps K steps u))) = held gw (on_server stored u)" for steps u
  proof (induction steps arbitrary: u)
    case (Cons step steps)
    obtain kind x where step: "step = (kind, x)" by fastforce
    obtain r v where r: "applyOperator K x u = (r, v)" by fastforce
    with ap [of x u] have "held gw (on_server stored v) = held gw (on_server stored u)" by simp
    with Cons.IH [of v] show ?case by (simp add: step r stepFailed_def split: sum.split)
  qed simp
  then show ?thesis by (simp add: metricsReconcile_steps)
qed

text \<open>What stays true: the keys held before, and no managed ones but those of \<open>T\<close>.\<close>

definition stays :: "LLMBatchGateway \<Rightarrow> object_key set \<Rightarrow> object_key set \<Rightarrow> Unstructured set \<Rightarrow> bool" where
  "stays gw T H S \<longleftrightarrow> H \<subseteq> held gw S \<and> (\<forall>k \<in> held gw S. managed_key k \<longrightarrow> k \<in> T)"

lemma stays_held: "held gw S' = held gw S \<Longrightarrow> stays gw T H S' \<longleftrightarrow> stays gw T H S"
  by (simp add: stays_def)

lemma same_resource_views:
  assumes "same_resource gw gw'"
  shows "target gw' = target gw" and "held gw' = held gw" and "gw_Namespace gw' = gw_Namespace gw"
  using assms
  by (auto simp: same_resource_def target_def [abs_def] held_def [abs_def] present_def controlled_def
      isControllerOwnedBy_def)

lemma own_stays:
  assumes "steady_server (r_Client R) stored" and "owner_lib (r_Client R)"
    and "canApply R gw s0 objs" and "k_GetGateway (r_Client R) ns name (st_world s) = (Inr gw', w)"
    and "same_resource gw gw'" and "stays gw (target gw ` set objs) H (on_server stored s)"
  shows "stays gw (target gw ` set objs) H (on_server stored (snd (Reconcile R ns name s)))"
proof -
  note same = same_resource_views [OF assms(5)]
  obtain r s' where run: "Reconcile R ns name s = (r, s')" by fastforce
  from Reconcile_any [OF assms(1,2,4) run] consider "on_server stored s' = on_server stored s"
    | objs' where "canApply R gw' (s\<lparr>st_world := w\<rparr>) objs'"
      "moves gw' (target gw' ` set objs') (on_server stored s) (on_server stored s')" by blast
  then show ?thesis
  proof cases
    case 1
    with assms(6) run show ?thesis by simp
  next
    case 2
    have "moves gw' (target gw ` set objs) (on_server stored s) (on_server stored s')"
      using 2(2) canApply_same [OF assms(5,3) 2(1)] by (simp add: same(1))
    from moves_own [OF this] assms(6) show ?thesis by (auto simp: stays_def run same(2))
  qed
qed

lemma other_stays:
  assumes "steady_server (r_Client R) stored" and "owner_lib (r_Client R)" and "ns \<noteq> gw_Namespace gw"
  shows "held gw (on_server stored (snd (Reconcile R ns name s))) = held gw (on_server stored s)"
proof (cases "k_GetGateway (r_Client R) ns name (st_world s)")
  case (Pair r w)
  show ?thesis
  proof (cases r)
    case (Inl e)
    with absent_stored [OF steady_laws(1) [OF assms(1)]] Pair show ?thesis by simp
  next
    case (Inr gw')
    with Pair assms(1) have ns: "gw_Namespace gw' = ns" unfolding steady_server_def by blast
    obtain x s' where run: "Reconcile R ns name s = (x, s')" by fastforce
    from Reconcile_any [OF assms(1,2) Pair [unfolded Inr] run]
    show ?thesis
    proof (elim disjE exE conjE)
      fix objs
      assume moves: "moves gw' (target gw' ` set objs) (on_server stored s) (on_server stored s')"
      show ?thesis
        unfolding run snd_conv by (rule moves_elsewhere [OF moves]) (use ns assms(3) in \<open>auto simp: target_def\<close>)
    qed (simp add: run)
  qed
qed

lemma step_stays:
  assumes "op_step R opns s ev t" and "steady_server (r_Client R) stored" and "owner_lib (r_Client R)"
    and "canApply R gw s0 objs" and "quiet R stored name gw s ev t"
    and "stays gw (target gw ` set objs) H (on_server stored s)"
  shows "stays gw (target gw ` set objs) H (on_server stored t)"
  using assms(1,5,6)
proof (cases rule: op_step.cases)
  case (step_reconcile ns name')
  show ?thesis
  proof (cases "ns = gw_Namespace gw")
    case True
    obtain r w where get: "k_GetGateway (r_Client R) ns name' (st_world s) = (r, w)" by fastforce
    show ?thesis
    proof (cases r)
      case (Inl e)
      with absent_stored [OF steady_laws(1) [OF assms(2)]] get assms(6) show ?thesis by (simp add: step_reconcile)
    next
      case (Inr gw')
      have "fst (k_GetGateway (r_Client R) ns name' (st_world s)) = Inr gw'" by (simp add: get Inr)
      with assms(5) True step_reconcile(1) have "same_resource gw gw'" by auto
      from own_stays [OF assms(2-4) get [unfolded Inr] this assms(6)] show ?thesis by (simp add: step_reconcile)
    qed
  next
    case False
    show ?thesis
      unfolding step_reconcile(2) stays_held [OF other_stays [OF assms(2,3) False]] by (rule assms(6))
  qed
next
  case (step_metrics)
  show ?thesis
    unfolding step_metrics(2) stays_held [OF metrics_held [OF assms(2)]] by (rule assms(6))
next
  case (step_secret ev reqs)
  have lists: "keeps stored (k_ListGateways (r_Client R))" using assms(2) by (simp only: steady_server_def)
  show ?thesis unfolding events_stored(1) [OF lists step_secret(3)] by (rule assms(6))
next
  case (step_grant obj reqs)
  have lists: "keeps stored (k_ListGateways (r_Client R))" using assms(2) by (simp only: steady_server_def)
  show ?thesis unfolding events_stored(2) [OF lists step_grant(2)] by (rule assms(6))
next
  case (step_outside w)
  have "held gw (on_server stored t) = held gw (on_server stored s)"
    using assms(5) unfolding step_outside(1) by simp
  from stays_held [OF this] assms(6) show ?thesis by blast
next
  case (step_secret_dropped ev)
  show ?thesis unfolding step_secret_dropped(2) by (rule assms(6))
next
  case step_restart
  show ?thesis unfolding step_restart(2) using assms(6) by simp
qed

lemma run_stays:
  assumes "quiet_run R opns stored name gw s evs t" and "steady_server (r_Client R) stored" and "owner_lib (r_Client R)"
    and "canApply R gw s0 objs" and "stays gw (target gw ` set objs) H (on_server stored s)"
  shows "stays gw (target gw ` set objs) H (on_server stored t)"
  using assms(1)
proof (induction rule: quiet_run.induct)
  case quiet_nil
  show ?case by (rule assms(5))
next
  case (quiet_step evs t ev u)
  show ?case by (rule step_stays [OF quiet_step(2) assms(2-4) quiet_step(3,4)])
qed

text \<open>A reconcile from a state in which nothing strays deletes nothing.\<close>

lemma no_deletions:
  assumes "steady_server (r_Client R) stored" and "owner_lib (r_Client R)"
    and "canApply R gw s0 objs" and "k_GetGateway (r_Client R) ns name (st_world s) = (Inr gw', w)"
    and "same_resource gw gw'" and "stays gw (target gw ` set objs) H (on_server stored s)"
  shows "deletions (new_log s (snd (Reconcile R ns name s))) = []"
proof (rule ccontr)
  let ?K = "r_Client R"
  note laws = steady_laws [OF assms(1)] and same = same_resource_views [OF assms(5)]
  assume del: "deletions (new_log s (snd (Reconcile R ns name s))) \<noteq> []"
  obtain res err s' where run: "Reconcile R ns name s = ((res, err), s')" by (metis prod.collapse)
  obtain objs2 t objs' u r v where two: "canApply R gw' (s\<lparr>st_world := w\<rparr>) objs2"
    "on_server stored t = on_server stored s" "applyObjects ?K gw' objs2 t = (Inr objs', u)"
    "deleteOrphanedResources ?K gw' objs' u = (r, v)" "deletions (new_log u v) \<noteq> []"
    using reconcile_deleting [OF laws(1) assms(4) run] del [unfolded run snd_conv] by metis
  have objs2: "objs2 = objs" by (rule canApply_same [OF assms(5,3) two(1)])
  note targets = same_targets [OF applyObjects_identity [OF applies_echo [OF laws(5)] two(3)], of gw',
      unfolded objs2 same(1)]
  obtain x where x: "x \<in> on_server stored u" "managed x" "u_Namespace x = gw_Namespace gw'"
    "controlled gw' x" "key_of x \<notin> target gw ` set objs"
    by (rule deleted_was_stored [OF laws(3,4) two(4,5)]) (simp add: same(1) targets)
  have "extends_by gw' (target gw ` set objs) (on_server stored t) (on_server stored u)"
    using applyObjects_any [OF laws(2) assms(2) two(3)] by (simp add: objs2 same(1))
  with x(1,5) have "x \<in> on_server stored s" by (simp add: extends_by_def two(2))
  with x(3,4) have "key_of x \<in> held gw (on_server stored s)"
    unfolding same(2) [symmetric] held_iff by blast
  with assms(6) x(2,5) show False by (auto simp: stays_def managed_key_of)
qed

section \<open>Properties\<close>

text \<open>
  C15: convergence is stable. After a completed reconcile, for as long as the spec is unchanged
  and nobody else changes which objects the gateway controls, the gateway keeps every object it
  has and gains no managed ones but rendered ones, through any sequence of its own reconciles,
  which may fail at any point, reconciles of gateways in other namespaces, events, metrics
  reconciles and restarts; and a reconcile that follows deletes nothing.
\<close>

theorem convergence_is_stable:
  assumes "steady_server (r_Client R) stored" and "owner_lib (r_Client R)"
    and "k_GetGateway (r_Client R) ns name (st_world s) = (Inr gw, w)"
    and "Reconcile R ns name s = ((res, None), s')" and "res \<noteq> noResult"
    and "quiet_run R opns stored name gw s' evs t"
  shows "\<exists>objs. canApply R gw (s\<lparr>st_world := w\<rparr>) objs \<and>
    held gw (on_server stored s') \<subseteq> held gw (on_server stored t) \<and>
    (\<forall>k \<in> held gw (on_server stored t). managed_key k \<longrightarrow> k \<in> target gw ` set objs) \<and>
    (\<forall>gw' w'. k_GetGateway (r_Client R) ns name (st_world t) = (Inr gw', w') \<and> same_resource gw gw' \<longrightarrow>
       deletions (new_log t (snd (Reconcile R ns name t))) = [])"
proof -
  note server = steady_laws(1) [OF assms(1)]
  obtain objs where objs: "canApply R gw (s\<lparr>st_world := w\<rparr>) objs"
    "\<forall>x \<in> on_server stored s'. managed x \<and> u_Namespace x = gw_Namespace gw \<and> controlled gw x \<longrightarrow>
      key_of x \<in> target gw ` set objs"
    using reconcile_stored [OF server assms(2-5)] by blast
  have "k \<in> target gw ` set objs" if "k \<in> held gw (on_server stored s')" "managed_key k" for k
  proof -
    from that(1) obtain x where "x \<in> on_server stored s'" "key_of x = k" "u_Namespace x = gw_Namespace gw"
      "controlled gw x" unfolding held_iff by blast
    with objs(2) that(2) managed_key_of [of x] show ?thesis by blast
  qed
  then have "stays gw (target gw ` set objs) (held gw (on_server stored s')) (on_server stored s')"
    by (simp add: stays_def)
  note stays = run_stays [OF assms(6,1,2) objs(1) this]
  show ?thesis
    using objs(1) stays no_deletions [OF assms(1,2) objs(1) _ _ stays] unfolding stays_def by blast
qed

section \<open>Witness\<close>

lemma cluster_steady: "steady_server clusterClient cluster_objects"
  unfolding steady_server_def
proof (intro conjI allI impI)
  show "undisturbed_server clusterClient cluster_objects" by (rule cluster_undisturbed)
  show "applies_or_not clusterClient cluster_objects"
    unfolding applies_or_not_def
  proof (intro allI impI)
    fix obj data w r w'
    assume "k_PatchObject clusterClient obj data FieldOwner True w = (r, w')"
    then have "cluster_objects w' = insert obj {x \<in> cluster_objects w. key_of x \<noteq> key_of obj}"
      by (auto simp: clusterClient_def cluster_objects_def sameObject_key)
    then show "cluster_objects w' = cluster_objects w \<or>
        (\<exists>obj'. key_of obj' = key_of obj \<and>
           (\<forall>gw. isControllerOwnedBy (u_OwnerReferences obj) gw \<longrightarrow> isControllerOwnedBy (u_OwnerReferences obj') gw) \<and>
           cluster_objects w' = insert obj' {x \<in> cluster_objects w. key_of x \<noteq> key_of obj})"
      by (intro disjI2 exI [of _ obj]) simp
  qed
  show "keeps cluster_objects (k_ListGateways clusterClient)" by (simp add: keeps_def clusterClient_def)
  show "held gw (cluster_objects (snd (k_PatchOperator clusterClient x d owner force w)))
      = held gw (cluster_objects w)" for gw x d owner force w
    by (simp add: clusterClient_def)
  show "gw_Namespace gw = ns" if "k_GetGateway clusterClient ns name w = (Inr gw, w')" for ns name w gw w'
  proof -
    from that have "find (\<lambda>gw. gw_Namespace gw = ns \<and> gw_Name gw = name) (cl_gateways w) = Some gw"
      by (simp add: clusterClient_def found_def split: option.splits)
    then show ?thesis unfolding find_Some_iff by blast
  qed
qed

theorem convergence_is_stable_witness:
  "held redisGateway (cluster_objects (st_world (snd (Reconcile sampleReconciler ''apps'' ''gw'' runState))))
   \<subseteq> held redisGateway (cluster_objects (st_world (snd (Reconcile sampleReconciler ''apps'' ''gw''
        ((snd (Reconcile sampleReconciler ''apps'' ''gw'' runState))\<lparr>st_filter := filter_new\<rparr>)))))"
proof -
  let ?R = sampleReconciler and ?run = "quiet_run sampleReconciler ''operator'' cluster_objects ''gw'' redisGateway"
  obtain s' where run: "Reconcile ?R ''apps'' ''gw'' runState = ((\<lparr>ctrl_RequeueAfter = 300\<rparr>, None), s')"
    by (rule run_eq)
  let ?u = "s'\<lparr>st_filter := filter_new\<rparr>"
  have "cl_gateways (st_world (snd (Reconcile ?R ''apps'' ''gw'' runState))) = [redisGateway]"
    unfolding run_objects by code_simp
  then have get: "k_GetGateway (r_Client ?R) ''apps'' ''gw'' (st_world s') = (Inr redisGateway, st_world s')"
    by (simp add: run clusterClient_def found_def)
  have "?run s' ([] @ [Restarted]) ?u"
    by (rule quiet_step [OF quiet_nil step_restart]) simp
  moreover have "quiet ?R cluster_objects ''gw'' redisGateway ?u
      (Reconciled (''apps'', ''gw'') (learnedRef ?R ''apps'' ''gw'' ?u)) (snd (Reconcile ?R ''apps'' ''gw'' ?u))"
    using get by (simp add: same_resource_def)
  ultimately have quiet: "?run s' (([] @ [Restarted]) @ [Reconciled (''apps'', ''gw'') (learnedRef ?R ''apps'' ''gw'' ?u)])
      (snd (Reconcile ?R ''apps'' ''gw'' ?u))"
    by (rule quiet_step [OF _ step_reconcile])
  have server: "steady_server (r_Client ?R) cluster_objects" and owner: "owner_lib (r_Client ?R)"
    by (simp_all add: cluster_steady)
  have ne: "\<lparr>ctrl_RequeueAfter = 300\<rparr> \<noteq> noResult" by (simp add: noResult_def)
  show ?thesis
    using convergence_is_stable [OF server owner cluster_get_run run ne quiet] unfolding run snd_conv by blast
qed

end
