(* ===== verification/NormalForm.thy ===== *)
theory NormalForm
  imports ChartValues
begin

text \<open>
  Tools for the normal forms of \<open>BatchSettings\<close> and \<open>Settings\<close>: optional parts that
  count only under a condition or that a zero value stands for, maps as the assignments of a Go
  loop build them, and when two value trees, or two guarded entries of one, are equal.
\<close>

section \<open>Normal forms of optional parts\<close>

text \<open>A part that counts only under a condition, and one that its zero value stands for.\<close>

definition only :: "('a \<Rightarrow> bool) \<Rightarrow> 'a option \<Rightarrow> 'a option" where
  "only P p = (case p of None \<Rightarrow> None | Some x \<Rightarrow> if P x then Some x else None)"

definition orZero :: "'a \<Rightarrow> 'a option \<Rightarrow> 'a" where
  "orZero z p = (case p of None \<Rightarrow> z | Some x \<Rightarrow> x)"

lemma only_simps [simp]: "only P None = None" "only P (Some x) = (if P x then Some x else None)"
  by (simp_all add: only_def)

lemma orZero_simps [simp]: "orZero z None = z" "orZero z (Some x) = x"
  by (simp_all add: orZero_def)

text \<open>The map that assigning the entries of a list, in order, builds.\<close>

definition goMap :: "('k, 'v) gomap \<Rightarrow> ('k, 'v) gomap" where
  "goMap m = fold (\<lambda>(k, v) r. go_set r k v) m []"

lemma update_fresh: "k \<notin> fst ` set m \<Longrightarrow> AList.update k v m = m @ [(k, v)]"
  by (induction m) auto

lemma goMap_wf: "wf_map m \<Longrightarrow> goMap m = m"
proof -
  have "fold (\<lambda>(k, v) r. go_set r k v) m r = r @ m"
    if "distinct (map fst (r @ m))" for r
    using that
  proof (induction m arbitrary: r)
    case Nil
    then show ?case by simp
  next
    case (Cons e m)
    then have "fst e \<notin> fst ` set r" by auto
    then have "go_set r (fst e) (snd e) = r @ [e]" by (simp add: go_set_def update_fresh)
    with Cons show ?case by (simp add: case_prod_beta)
  qed
  from this [of "[]"] show "wf_map m \<Longrightarrow> goMap m = m" by (simp add: goMap_def wf_map_def)
qed

lemma update_map: "AList.update k (f v) (map (apsnd f) m) = map (apsnd f) (AList.update k v m)"
  by (induction m) auto

lemma fold_goMap: "fold (\<lambda>(k, v) r. go_set r k (f v)) m [] = map (apsnd f) (goMap m)"
proof -
  have "fold (\<lambda>(k, v) r. go_set r k (f v)) m (map (apsnd f) r)
      = map (apsnd f) (fold (\<lambda>(k, v) r. go_set r k v) m r)" for r
    by (induction m arbitrary: r) (auto simp: go_set_def update_map)
  from this [of "[]"] show ?thesis by (simp add: goMap_def)
qed

lemma goMap_empty [simp]:
  fixes m :: "('a, 'b) gomap"
  shows "goMap m = [] \<longleftrightarrow> m = []"
proof -
  have "fold (\<lambda>(k, v) r. go_set r k v) m r \<noteq> []" if "r \<noteq> []" for r and m :: "('a, 'b) gomap"
    using that by (induction m arbitrary: r) (simp_all add: case_prod_beta)
  then have "fold (\<lambda>(k, v) r. go_set r k v) (e # m) [] \<noteq> []" for e :: "'a \<times> 'b" and m
    by (cases e) simp
  then show ?thesis by (cases m) (simp_all add: goMap_def)
qed

section \<open>Equality of value trees\<close>

named_theorems entry_eq \<open>when two guarded entries are equal\<close>

lemma to_int64_eq [simp]: "to_int64 n = to_int64 m \<longleftrightarrow> n = m"
  by (metis sint_to_int64 signed_word_eqI)

lemma map_option_eq [entry_eq]:
  assumes "\<And>x y. f x = f y \<longleftrightarrow> g x = g y"
  shows "map_option f p = map_option f q \<longleftrightarrow> map_option g p = map_option g q"
  using assms by (cases p; cases q) auto

lemma simple_entries [entry_eq]:
  "map_option VInt32 p = map_option VInt32 p' \<longleftrightarrow> p = p'"
  "map_option VInt i = map_option VInt i' \<longleftrightarrow> i = i'"
  "map_option VStr s = map_option VStr s' \<longleftrightarrow> s = s'"
  "map_option VBool b = map_option VBool b' \<longleftrightarrow> b = b'"
  by (cases p; cases p'; simp; fail | cases i; cases i'; simp; fail | cases s; cases s'; simp; fail |
      cases b; cases b'; simp; fail)+

lemma guarded_entries [entry_eq]:
  "(if n \<noteq> 0 then Some (VInt32 n) else None) = (if n' \<noteq> 0 then Some (VInt32 n') else None) \<longleftrightarrow> n = n'"
  "(if i \<noteq> 0 then Some (VInt i) else None) = (if i' \<noteq> 0 then Some (VInt i') else None) \<longleftrightarrow> i = i'"
  "(if s \<noteq> '''' then Some (VStr s) else None) = (if s' \<noteq> '''' then Some (VStr s') else None) \<longleftrightarrow> s = s'"
  "(if b then Some (VBool True) else None) = (if b' then Some (VBool True) else None) \<longleftrightarrow> b = b'"
  "(if sub \<noteq> [] then Some (VMap sub) else None) = (if sub' \<noteq> [] then Some (VMap sub') else None) \<longleftrightarrow> sub = sub'"
  by auto

lemma slice_eq [simp]: "toInterfaceSlice xs = toInterfaceSlice ys \<longleftrightarrow> xs = ys"
  by (simp add: toInterfaceSlice_def inj_map_eq_map inj_def)

lemma string_map: "toStringInterfaceMap m = VMap (map (apsnd VStr) (goMap m))"
  by (simp add: toStringInterfaceMap_def fold_goMap)

lemma string_map_eq [simp]: "toStringInterfaceMap m = toStringInterfaceMap m' \<longleftrightarrow> goMap m = goMap m'"
  by (simp add: string_map inj_map_eq_map inj_def)

lemma list_entries [entry_eq]:
  "(if xs \<noteq> [] then Some (toInterfaceSlice xs) else None)
     = (if xs' \<noteq> [] then Some (toInterfaceSlice xs') else None) \<longleftrightarrow> xs = xs'"
  "(if m \<noteq> [] then Some (toStringInterfaceMap m) else None)
     = (if m' \<noteq> [] then Some (toStringInterfaceMap m') else None) \<longleftrightarrow> goMap m = goMap m'"
  "map_option toInterfaceSlice p = map_option toInterfaceSlice p' \<longleftrightarrow> p = p'"
  subgoal by auto
  subgoal by (metis goMap_empty option.discI option.inject string_map_eq)
  subgoal by (cases p; cases p'; simp)
  done

text \<open>Optional sections.\<close>

lemma case_setSubmap:
  "(case p of None \<Rightarrow> m | Some b \<Rightarrow> setSubmap m k (f b)) = setSubmap m k (case p of None \<Rightarrow> [] | Some b \<Rightarrow> f b)"
  by (cases p) (simp_all add: setSubmap_def setIf_def)

lemma case_setIf:
  "(case p of None \<Rightarrow> m | Some r \<Rightarrow> setIf (e r) m k (v r)) = setSome m k v (only e p)"
  by (cases p) (simp_all add: setSome_def setIf_def)

lemma setLogging_only:
  "setLogging m l = setSome m ''logging'' (\<lambda>lc. VMap [(''verbosity'', VInt32 (log_Verbosity lc))])
     (only (\<lambda>lc. log_Verbosity lc \<noteq> 0) l)"
  by (simp add: setLogging_def case_setIf)

lemma submap_eq:
  assumes "\<And>a b. f a = f b \<longleftrightarrow> n a = n b" and "f z = []" and "n z = z"
  shows "(case p of None \<Rightarrow> [] | Some a \<Rightarrow> f a) = (case q of None \<Rightarrow> [] | Some a \<Rightarrow> f a) \<longleftrightarrow>
    only (\<lambda>x. x \<noteq> z) (map_option n p) = only (\<lambda>x. x \<noteq> z) (map_option n q)"
proof -
  have "f a = [] \<longleftrightarrow> n a = z" for a using assms(1) [of a z] assms(2,3) by simp
  then show ?thesis using assms(1) by (cases p; cases q) (auto, metis+)
qed

text \<open>The other direction of such an equation: the values depend on the normal form only.\<close>

lemma goMap_idem [simp]: "goMap (goMap m) = goMap m"
proof -
  have wf: "wf_map (fold (\<lambda>(k, v) r. go_set r k v) m r)" if "wf_map r" for r
    using that by (induction m arbitrary: r) (auto intro: gm.inv_put)
  have "wf_map (goMap m)" unfolding goMap_def by (rule wf [OF gm.inv_empty])
  then show ?thesis by (rule goMap_wf)
qed

lemma string_map_goMap [simp]: "toStringInterfaceMap (goMap m) = toStringInterfaceMap m"
  by simp

lemma submap_only:
  assumes "\<And>a. f (n a) = f a" and "f z = []"
  shows "(case only (\<lambda>x. x \<noteq> z) (map_option n p) of None \<Rightarrow> [] | Some a \<Rightarrow> f a)
    = (case p of None \<Rightarrow> [] | Some a \<Rightarrow> f a)"
proof (cases p)
  case (Some a)
  then show ?thesis using assms(1) [of a] assms(2) by auto
qed simp

fun entry :: "val \<Rightarrow> string \<Rightarrow> val option" where
  "entry (VMap m) k = go_get m k"
| "entry _ k = None"

lemma same_at: "v = w \<Longrightarrow> list_all (\<lambda>k. entry v k = entry w k) ks"
  by (simp add: list_all_iff)

lemma same_get: "m = m' \<Longrightarrow> list_all (\<lambda>k. go_get m k = go_get m' k) ks"
  by (simp add: list_all_iff)

end
