(* ===== verification/BatchSettings.thy ===== *)
theory BatchSettings
  imports NormalForm
begin

text \<open>
  What the batch-gateway chart sees of a custom resource. For every part of the spec an
  \<open>eff\<close> function removes what its mapping in \<open>helm_batch.go\<close> does not tell apart, and a
  lemma \<open>_eq\<close> states that the values are equal exactly when what is left is, or (for the three
  components) that equal values leave the same.
\<close>

section \<open>The API server's values\<close>

definition effQuantities :: "string smap \<Rightarrow> string smap" where
  "effQuantities q =
     (case go_get q ''cpu'' of None \<Rightarrow> [] | Some v \<Rightarrow> [(''cpu'', v)]) @
     (case go_get q ''memory'' of None \<Rightarrow> [] | Some v \<Rightarrow> [(''memory'', v)])"

lemma get_effQuantities [simp]:
  "go_get (effQuantities q) ''cpu'' = go_get q ''cpu''" "go_get (effQuantities q) ''memory'' = go_get q ''memory''"
  by (simp_all add: effQuantities_def split: option.split)

lemma quantity_eq: "quantityValues q = quantityValues q' \<longleftrightarrow> effQuantities q = effQuantities q'"
proof
  assume "quantityValues q = quantityValues q'"
  from same_at [OF this, of "[''cpu'', ''memory'']"] show "effQuantities q = effQuantities q'"
    by (simp add: quantityValues_def Let_def effQuantities_def entry_eq)
next
  have "quantityValues (effQuantities q) = quantityValues q" for q
    by (simp add: quantityValues_def)
  then show "effQuantities q = effQuantities q' \<Longrightarrow> quantityValues q = quantityValues q'" by metis
qed

definition effResources :: "ResourceRequirements \<Rightarrow> ResourceRequirements" where
  "effResources r = \<lparr>res_Limits = map_option effQuantities (res_Limits r),
     res_Requests = map_option effQuantities (res_Requests r)\<rparr>"

lemma quantity_eff [simp]: "quantityValues (effQuantities q) = quantityValues q"
  by (simp add: quantityValues_def)

lemma setSome_map: "(\<And>x. f (n x) = f x) \<Longrightarrow> setSome m k f (map_option n p) = setSome m k f p"
  by (cases p) (simp_all add: setSome_def)

lemma resources_eff [simp]: "resourceRequirementsToMap (effResources r) = resourceRequirementsToMap r"
  by (simp add: resourceRequirementsToMap_def effResources_def setSome_map)

lemma resources_eq:
  "resourceRequirementsToMap r = resourceRequirementsToMap r' \<longleftrightarrow> effResources r = effResources r'"
proof
  assume "resourceRequirementsToMap r = resourceRequirementsToMap r'"
  from same_at [OF this, of "[''limits'', ''requests'']"] show "effResources r = effResources r'"
    by (simp add: resourceRequirementsToMap_def Let_def effResources_def map_option_eq [OF quantity_eq])
qed (metis resources_eff)

definition zeroBatchAPI :: BatchAPIConfig where
  "zeroBatchAPI = \<lparr>batch_EventTTLSeconds = 0, batch_PassThroughHeaders = [], batch_ExtraEndpoints = None\<rparr>"

lemma batchAPI_eq: "batchAPIValues a = batchAPIValues b \<longleftrightarrow> a = b"
proof
  assume "batchAPIValues a = batchAPIValues b"
  from same_get [OF this, of "[''eventTTLSeconds'', ''passThroughHeaders'', ''extraEndpoints'']"] show "a = b"
    by (cases a; cases b) (simp add: batchAPIValues_def Let_def entry_eq cong: if_cong)
qed simp

text \<open>The size limit of the file API goes to the global values.\<close>

definition zeroFileAPI :: FileAPIConfig where
  "zeroFileAPI = \<lparr>file_DefaultExpirationSeconds = 0, file_MaxSizeBytes = 0, file_MaxLineCount = 0\<rparr>"

definition unsized :: "FileAPIConfig \<Rightarrow> FileAPIConfig" where
  "unsized f = f\<lparr>file_MaxSizeBytes := 0\<rparr>"

lemma fileAPI_eq: "fileAPIValues a = fileAPIValues b \<longleftrightarrow> unsized a = unsized b"
proof
  assume "fileAPIValues a = fileAPIValues b"
  from same_get [OF this, of "[''defaultExpirationSeconds'', ''maxLineCount'']"] show "unsized a = unsized b"
    by (cases a; cases b) (simp add: fileAPIValues_def Let_def entry_eq unsized_def cong: if_cong)
qed (cases a; cases b; simp add: fileAPIValues_def unsized_def)

lemma section_eqs:
  "(case p of None \<Rightarrow> [] | Some a \<Rightarrow> batchAPIValues a) = (case q of None \<Rightarrow> [] | Some a \<Rightarrow> batchAPIValues a) \<longleftrightarrow>
     only (\<lambda>x. x \<noteq> zeroBatchAPI) p = only (\<lambda>x. x \<noteq> zeroBatchAPI) q"
  "(case r of None \<Rightarrow> [] | Some a \<Rightarrow> fileAPIValues a) = (case r' of None \<Rightarrow> [] | Some a \<Rightarrow> fileAPIValues a) \<longleftrightarrow>
     only (\<lambda>x. x \<noteq> zeroFileAPI) (map_option unsized r) = only (\<lambda>x. x \<noteq> zeroFileAPI) (map_option unsized r')"
proof -
  have "batchAPIValues zeroBatchAPI = []" "fileAPIValues zeroFileAPI = []" "unsized zeroFileAPI = zeroFileAPI"
    by (simp_all add: batchAPIValues_def zeroBatchAPI_def fileAPIValues_def zeroFileAPI_def unsized_def)
  with submap_eq [of batchAPIValues "\<lambda>x. x" zeroBatchAPI p q, OF batchAPI_eq]
    submap_eq [of fileAPIValues unsized zeroFileAPI r r', OF fileAPI_eq]
  show "(case p of None \<Rightarrow> [] | Some a \<Rightarrow> batchAPIValues a) = (case q of None \<Rightarrow> [] | Some a \<Rightarrow> batchAPIValues a) \<longleftrightarrow>
      only (\<lambda>x. x \<noteq> zeroBatchAPI) p = only (\<lambda>x. x \<noteq> zeroBatchAPI) q"
    "(case r of None \<Rightarrow> [] | Some a \<Rightarrow> fileAPIValues a) = (case r' of None \<Rightarrow> [] | Some a \<Rightarrow> fileAPIValues a) \<longleftrightarrow>
      only (\<lambda>x. x \<noteq> zeroFileAPI) (map_option unsized r) = only (\<lambda>x. x \<noteq> zeroFileAPI) (map_option unsized r')"
    by (simp_all add: option.map_ident)
qed

lemma section_only [simp]:
  "(case only (\<lambda>x. x \<noteq> zeroBatchAPI) p of None \<Rightarrow> [] | Some a \<Rightarrow> batchAPIValues a)
     = (case p of None \<Rightarrow> [] | Some a \<Rightarrow> batchAPIValues a)"
  "(case only (\<lambda>x. x \<noteq> zeroFileAPI) (map_option unsized q) of None \<Rightarrow> [] | Some a \<Rightarrow> fileAPIValues a)
     = (case q of None \<Rightarrow> [] | Some a \<Rightarrow> fileAPIValues a)"
proof -
  have "batchAPIValues zeroBatchAPI = []" "fileAPIValues zeroFileAPI = []" "fileAPIValues (unsized a) = fileAPIValues a" for a
    by (simp_all add: batchAPIValues_def zeroBatchAPI_def fileAPIValues_def zeroFileAPI_def unsized_def)
  with submap_only [of batchAPIValues "\<lambda>x. x" zeroBatchAPI p] submap_only [of fileAPIValues unsized zeroFileAPI q]
  show "(case only (\<lambda>x. x \<noteq> zeroBatchAPI) p of None \<Rightarrow> [] | Some a \<Rightarrow> batchAPIValues a)
      = (case p of None \<Rightarrow> [] | Some a \<Rightarrow> batchAPIValues a)"
    "(case only (\<lambda>x. x \<noteq> zeroFileAPI) (map_option unsized q) of None \<Rightarrow> [] | Some a \<Rightarrow> fileAPIValues a)
      = (case q of None \<Rightarrow> [] | Some a \<Rightarrow> fileAPIValues a)"
    by (simp_all add: option.map_ident)
qed

definition effAPIConfig :: "APIServerConfigSpec \<Rightarrow> APIServerConfigSpec" where
  "effAPIConfig cfg = cfg\<lparr>apicfg_InputHeaders := goMap (apicfg_InputHeaders cfg),
     apicfg_BatchAPI := only (\<lambda>x. x \<noteq> zeroBatchAPI) (apicfg_BatchAPI cfg),
     apicfg_FileAPI := only (\<lambda>x. x \<noteq> zeroFileAPI) (map_option unsized (apicfg_FileAPI cfg)),
     apicfg_Logging := None\<rparr>"

lemma apiConfig_eq: "apiServerConfigToMap a = apiServerConfigToMap b \<longleftrightarrow> effAPIConfig a = effAPIConfig b"
proof
  assume "apiServerConfigToMap a = apiServerConfigToMap b"
  from same_at [OF this, of "[''port'', ''observabilityPort'', ''readTimeoutSeconds'', ''writeTimeoutSeconds'',
      ''idleTimeoutSeconds'', ''batchAPI'', ''fileAPI'', ''inputHeaders'', ''enablePprof'']"]
  show "effAPIConfig a = effAPIConfig b"
    by (cases a; cases b)
      (simp add: apiServerConfigToMap_def Let_def case_setSubmap entry_eq section_eqs effAPIConfig_def cong: if_cong)
next
  have "apiServerConfigToMap (effAPIConfig c) = apiServerConfigToMap c" for c
    by (simp add: apiServerConfigToMap_def Let_def case_setSubmap effAPIConfig_def)
  then show "effAPIConfig a = effAPIConfig b \<Longrightarrow> apiServerConfigToMap a = apiServerConfigToMap b" by metis
qed

lemma certManager_eq: "certManagerValues a = certManagerValues b \<longleftrightarrow> a = b"
proof
  assume "certManagerValues a = certManagerValues b"
  from same_at [OF this, of "[''issuerName'', ''issuerKind'', ''dnsNames'']"] show "a = b"
    by (cases a; cases b) (simp add: certManagerValues_def Let_def entry_eq cong: if_cong)
qed simp

lemma parentRef_eq: "parentRefValues a = parentRefValues b \<longleftrightarrow> a = b"
proof
  assume "parentRefValues a = parentRefValues b"
  from same_at [OF this, of "[''name'', ''namespace'', ''sectionName'']"] show "a = b"
    by (cases a; cases b) (simp add: parentRefValues_def Let_def entry_eq cong: if_cong)
qed simp

definition effRoute :: "HTTPRouteSpec \<Rightarrow> HTTPRouteSpec" where
  "effRoute r = r\<lparr>hr_Annotations := goMap (hr_Annotations r)\<rparr>"

lemma refs_entry:
  "(if rs \<noteq> [] then Some (VList (map parentRefValues rs)) else None)
     = (if rs' \<noteq> [] then Some (VList (map parentRefValues rs')) else None) \<longleftrightarrow> rs = rs'"
  by (auto simp: inj_map_eq_map inj_def parentRef_eq)

lemma route_eq:
  assumes "hr_Enabled a" and "hr_Enabled b"
  shows "httpRouteValues a = httpRouteValues b \<longleftrightarrow> effRoute a = effRoute b"
proof
  assume "httpRouteValues a = httpRouteValues b"
  from same_at [OF this, of "[''annotations'', ''parentRefs'']"] assms show "effRoute a = effRoute b"
    by (cases a; cases b) (simp add: httpRouteValues_def Let_def entry_eq refs_entry effRoute_def cong: if_cong)
next
  have "httpRouteValues (effRoute r) = httpRouteValues r" for r
    by (simp add: httpRouteValues_def Let_def effRoute_def)
  then show "effRoute a = effRoute b \<Longrightarrow> httpRouteValues a = httpRouteValues b" by metis
qed

text \<open>TLS settings; those of the cluster profile are the same for all resources.\<close>

lemma tlsValues_only:
  "tlsValues t pv = tlsValues (only tls_Enabled t) pv"
  by (cases t) (simp_all add: tlsValues_def)

lemma tls_eq:
  "tlsValues t pv = tlsValues t' pv \<longleftrightarrow> only tls_Enabled t = only tls_Enabled t'"
proof
  let ?get = "\<lambda>t k. go_get (tlsValues t pv) k"
  have none: "?get None ''enabled'' = None" by (simp add: tlsValues_def)
  have some: "?get (Some x) ''enabled'' = Some (VBool True)"
    "?get (Some x) ''secretName'' = (if tls_SecretName x \<noteq> '''' then Some (VStr (tls_SecretName x)) else None)"
    "?get (Some x) ''certManager'' = map_option certManagerValues (tls_CertManager x)"
    if "tls_Enabled x" for x
    using that by (simp_all add: tlsValues_def Let_def cong: if_cong)
  have same: "x = y" if "tls_Enabled x" "tls_Enabled y" "\<And>k. ?get (Some x) k = ?get (Some y) k" for x y
  proof -
    have "tls_SecretName x = tls_SecretName y"
      using that(3) [of "''secretName''"] by (simp only: some that(1,2) guarded_entries)
    moreover have "tls_CertManager x = tls_CertManager y"
      using that(3) [of "''certManager''"]
        map_option_eq [of certManagerValues "\<lambda>x. x", OF certManager_eq, of "tls_CertManager x" "tls_CertManager y"]
      by (simp add: some that(1,2) option.map_ident)
    ultimately show ?thesis using that(1,2) by (cases x; cases y) simp
  qed
  assume "tlsValues t pv = tlsValues t' pv"
  then have eq: "\<And>k. ?get (only tls_Enabled t) k = ?get (only tls_Enabled t') k"
    by (metis tlsValues_only)
  show "only tls_Enabled t = only tls_Enabled t'"
  proof (cases "only tls_Enabled t"; cases "only tls_Enabled t'")
    fix x y
    assume x: "only tls_Enabled t = Some x" "only tls_Enabled t' = Some y"
    then have "tls_Enabled x" "tls_Enabled y" by (auto simp: only_def split: option.splits if_splits)
    with same eq x show ?thesis by metis
  next
    fix x
    assume x: "only tls_Enabled t = Some x" "only tls_Enabled t' = None"
    then have "tls_Enabled x" by (auto simp: only_def split: option.splits if_splits)
    with x eq [of "''enabled''"] none some(1) show ?thesis by simp
  next
    fix x
    assume x: "only tls_Enabled t = None" "only tls_Enabled t' = Some x"
    then have "tls_Enabled x" by (auto simp: only_def split: option.splits if_splits)
    with x eq [of "''enabled''"] none some(1) show ?thesis by simp
  qed simp
next
  assume "only tls_Enabled t = only tls_Enabled t'"
  then show "tlsValues t pv = tlsValues t' pv"
    using tlsValues_only [of t pv] tlsValues_only [of t' pv] by simp
qed

lemma logging_entry:
  "map_option (\<lambda>lc. VMap [(''verbosity'', VInt32 (log_Verbosity lc))]) p
     = map_option (\<lambda>lc. VMap [(''verbosity'', VInt32 (log_Verbosity lc))]) q \<longleftrightarrow> p = (q :: LoggingConfig option)"
  by (cases p; cases q; cases "the p"; cases "the q") simp_all

section \<open>Global values\<close>

lemma s3_eq: "s3Values a = s3Values b \<longleftrightarrow> a = b"
proof
  assume "s3Values a = s3Values b"
  from same_at [OF this, of "[''region'', ''bucket'', ''endpoint'', ''accessKeyId'', ''prefix'', ''usePathStyle'',
      ''autoCreateBucket'']"] show "a = b"
    by (cases a; cases b) (simp add: s3Values_def Let_def entry_eq cong: if_cong)
qed simp

lemma fs_eq: "fsValues a = fsValues b \<longleftrightarrow> a = b"
proof
  assume "fsValues a = fsValues b"
  from same_at [OF this, of "[''basePath'', ''pvcName'']"] show "a = b"
    by (cases a; cases b) (simp add: fsValues_def Let_def entry_eq cong: if_cong)
qed simp

definition zeroRetry :: FileRetrySpec where
  "zeroRetry = \<lparr>retry_MaxRetries = None, retry_InitialBackoff = '''', retry_MaxBackoff = ''''\<rparr>"

lemma retry_eq: "retryValues a = retryValues b \<longleftrightarrow> a = b"
proof
  assume "retryValues a = retryValues b"
  from same_get [OF this, of "[''maxRetries'', ''initialBackoff'', ''maxBackoff'']"] show "a = b"
    by (cases a; cases b) (simp add: retryValues_def Let_def entry_eq cong: if_cong)
qed simp

lemma retry_zero: "retryValues zeroRetry = []"
  by (simp add: retryValues_def zeroRetry_def)

lemmas retry_section = submap_eq [where n = "\<lambda>x. x", OF retry_eq retry_zero refl, unfolded option.map_ident]
lemmas retry_only = submap_only [where f = retryValues and n = "\<lambda>x. x", OF refl retry_zero, unfolded option.map_ident]

definition effStorage :: "FileStorageSpec \<Rightarrow> FileStorageSpec" where
  "effStorage st = st\<lparr>storage_Retry := only (\<lambda>r. r \<noteq> zeroRetry) (storage_Retry st)\<rparr>"

lemma storage_entries:
  "entry (fileClientValues st) ''s3'' = map_option s3Values (storage_S3 st)"
  "entry (fileClientValues st) ''fs'' = map_option fsValues (storage_FS st)"
  "entry (fileClientValues st) ''retry'' =
     (let sub = (case storage_Retry st of None \<Rightarrow> [] | Some r \<Rightarrow> retryValues r)
      in if sub \<noteq> [] then Some (VMap sub) else None)"
  by (cases "storage_S3 st"; cases "storage_FS st"; simp add: fileClientValues_def Let_def case_setSubmap)+

lemma storage_eq: "fileClientValues a = fileClientValues b \<longleftrightarrow> effStorage a = effStorage b"
proof
  assume "fileClientValues a = fileClientValues b"
  from same_at [OF this, of "[''s3'', ''fs'', ''retry'']"] show "effStorage a = effStorage b"
    by (cases a; cases b)
      (simp add: storage_entries Let_def entry_eq retry_section effStorage_def option.map_ident
        map_option_eq [where g = "\<lambda>x. x", OF s3_eq] map_option_eq [where g = "\<lambda>x. x", OF fs_eq])
next
  have "fileClientValues (effStorage st) = fileClientValues st" for st
    by (simp add: fileClientValues_def Let_def case_setSubmap effStorage_def retry_only)
  then show "effStorage a = effStorage b \<Longrightarrow> fileClientValues a = fileClientValues b" by metis
qed

lemma pull_secrets_entry:
  "(if xs \<noteq> [] then Some (imagePullSecretValues xs) else None)
     = (if ys \<noteq> [] then Some (imagePullSecretValues ys) else None) \<longleftrightarrow> xs = ys"
proof -
  have "(x :: LocalObjectReference) = y \<longleftrightarrow> lor_Name x = lor_Name y" for x y by (cases x; cases y) simp
  then have "imagePullSecretValues xs = imagePullSecretValues ys \<longleftrightarrow> xs = ys"
    by (auto simp: imagePullSecretValues_def inj_map_eq_map inj_def)
  then show ?thesis by auto
qed

text \<open>The Redis tracing flag goes to the other chart.\<close>

definition batchOtel :: "OTELSpec \<Rightarrow> OTELSpec" where
  "batchOtel ot = ot\<lparr>otel_RedisTracing := False\<rparr>"

lemma batchOtel_eq: "batchOtelValues a = batchOtelValues b \<longleftrightarrow> batchOtel a = batchOtel b"
proof
  assume "batchOtelValues a = batchOtelValues b"
  from same_at [OF this, of "[''endpoint'', ''insecure'', ''sampler'', ''samplerArg'', ''postgresqlTracing'']"]
  show "batchOtel a = batchOtel b"
    by (cases a; cases b) (simp add: batchOtelValues_def Let_def entry_eq batchOtel_def cong: if_cong)
next
  have "batchOtelValues (batchOtel a) = batchOtelValues a" for a
    by (simp add: batchOtelValues_def batchOtel_def)
  then show "batchOtel a = batchOtel b \<Longrightarrow> batchOtelValues a = batchOtelValues b" by metis
qed

definition effBackend :: "LLMBatchGatewaySpec \<Rightarrow> string" where
  "effBackend spec = (if spec_DBBackend spec = '''' then dbBackendPostgreSQL else spec_DBBackend spec)"

lemma global_entries:
  "go_get (globalValues gw n) ''dbClient'' = Some (VMap [(''type'', VStr (effBackend (gw_Spec gw)))])"
  "go_get (globalValues gw n) ''extraEndpoints'' = map_option toInterfaceSlice (spec_ExtraEndpoints (gw_Spec gw))"
  "go_get (globalValues gw n) ''maxInputFileSizeBytes'' = map_option VInt (maxInputFileSize (gw_Spec gw))"
  "go_get (globalValues gw n) ''fileClient'' = map_option fileClientValues (spec_FileStorage (gw_Spec gw))"
  "go_get (globalValues gw n) ''otel'' = map_option batchOtelValues (spec_OTEL (gw_Spec gw))"
  "go_get (globalValues gw n) ''imagePullSecrets'' = (if spec_ImagePullSecrets (gw_Spec gw) \<noteq> []
     then Some (imagePullSecretValues (spec_ImagePullSecrets (gw_Spec gw))) else None)"
  by (simp_all add: globalValues_def Let_def effBackend_def cong: if_cong)

lemma global_eq:
  assumes "globalValues a n = globalValues b n"
  shows "effBackend (gw_Spec a) = effBackend (gw_Spec b)"
    and "spec_ExtraEndpoints (gw_Spec a) = spec_ExtraEndpoints (gw_Spec b)"
    and "maxInputFileSize (gw_Spec a) = maxInputFileSize (gw_Spec b)"
    and "map_option effStorage (spec_FileStorage (gw_Spec a)) = map_option effStorage (spec_FileStorage (gw_Spec b))"
    and "map_option batchOtel (spec_OTEL (gw_Spec a)) = map_option batchOtel (spec_OTEL (gw_Spec b))"
    and "spec_ImagePullSecrets (gw_Spec a) = spec_ImagePullSecrets (gw_Spec b)"
proof -
  have get: "go_get (globalValues a n) k = go_get (globalValues b n) k" for k using assms by simp
  show "effBackend (gw_Spec a) = effBackend (gw_Spec b)"
    using get [of "''dbClient''"] unfolding global_entries by simp
  show "spec_ExtraEndpoints (gw_Spec a) = spec_ExtraEndpoints (gw_Spec b)"
    using get [of "''extraEndpoints''"] unfolding global_entries list_entries .
  show "maxInputFileSize (gw_Spec a) = maxInputFileSize (gw_Spec b)"
    using get [of "''maxInputFileSizeBytes''"] unfolding global_entries simple_entries .
  show "map_option effStorage (spec_FileStorage (gw_Spec a)) = map_option effStorage (spec_FileStorage (gw_Spec b))"
    using get [of "''fileClient''"] unfolding global_entries map_option_eq [OF storage_eq] .
  show "map_option batchOtel (spec_OTEL (gw_Spec a)) = map_option batchOtel (spec_OTEL (gw_Spec b))"
    using get [of "''otel''"] unfolding global_entries map_option_eq [OF batchOtel_eq] .
  show "spec_ImagePullSecrets (gw_Spec a) = spec_ImagePullSecrets (gw_Spec b)"
    using get [of "''imagePullSecrets''"] unfolding global_entries pull_secrets_entry .
qed

section \<open>The three components of the batch chart\<close>

abbreviation loud :: "LoggingConfig option \<Rightarrow> LoggingConfig option" where
  "loud \<equiv> only (\<lambda>lc. log_Verbosity lc \<noteq> 0)"

lemma image_eq [simp]: "imageValues img p = imageValues img q \<longleftrightarrow> p = q"
proof
  assume "imageValues img p = imageValues img q"
  from same_at [OF this, of "[''pullPolicy'']"] show "p = q"
    by (simp add: imageValues_def entry_eq split: prod.splits cong: if_cong)
qed simp

lemma flag_entry: "(if b then Some v else None) = (if b' then Some v else None) \<longleftrightarrow> b = b'"
  by simp

lemma route_entry:
  "map_option httpRouteValues (only hr_Enabled p) = map_option httpRouteValues (only hr_Enabled q) \<longleftrightarrow>
     map_option effRoute (only hr_Enabled p) = map_option effRoute (only hr_Enabled q)"
  by (cases p; cases q) (auto simp: route_eq)

lemma apiserver_entries:
  fixes gw images pv
  defines "api \<equiv> spec_APIServer (gw_Spec gw)" and "m \<equiv> apiserverValues gw images pv"
  shows "go_get m ''image'' = Some (imageValues (img_APIServer images) (api_ImagePullPolicy api))"
    and "go_get m ''replicaCount'' = map_option VInt32 (api_Replicas api)"
    and "go_get m ''resources'' = map_option resourceRequirementsToMap (api_Resources api)"
    and "go_get m ''config'' = map_option apiServerConfigToMap (api_Config api)"
    and "go_get m ''logging'' = map_option (\<lambda>lc. VMap [(''verbosity'', VInt32 (log_Verbosity lc))])
      (loud (case api_Config api of None \<Rightarrow> None | Some cfg \<Rightarrow> apicfg_Logging cfg))"
    and "go_get m ''tls'' = (if tlsValues (spec_TLS (gw_Spec gw)) pv \<noteq> []
      then Some (VMap (tlsValues (spec_TLS (gw_Spec gw)) pv)) else None)"
    and "go_get m ''httpRoute'' = map_option httpRouteValues (only hr_Enabled (spec_HTTPRoute (gw_Spec gw)))"
    and "go_get m ''serviceMonitor'' = (if monitoringEnabled gw then Some monitorValues else None)"
  unfolding m_def api_def
  by (cases "api_Config (spec_APIServer (gw_Spec gw))";
      simp add: apiserverValues_def componentValues_def Let_def setLogging_only case_setIf cong: if_cong)+

definition effFullAPIConfig :: "APIServerConfigSpec \<Rightarrow> APIServerConfigSpec" where
  "effFullAPIConfig cfg = cfg\<lparr>apicfg_InputHeaders := goMap (apicfg_InputHeaders cfg),
     apicfg_BatchAPI := only (\<lambda>x. x \<noteq> zeroBatchAPI) (apicfg_BatchAPI cfg),
     apicfg_FileAPI := only (\<lambda>x. x \<noteq> zeroFileAPI) (apicfg_FileAPI cfg),
     apicfg_Logging := loud (apicfg_Logging cfg)\<rparr>"

definition effAPIServer :: "APIServerSpec \<Rightarrow> APIServerSpec" where
  "effAPIServer a = a\<lparr>api_Resources := map_option effResources (api_Resources a),
     api_Config := map_option effFullAPIConfig (api_Config a)\<rparr>"

lemma effAPIServer_eqI:
  assumes "api_ImagePullPolicy a = api_ImagePullPolicy b" and "api_Replicas a = api_Replicas b"
    and "map_option effResources (api_Resources a) = map_option effResources (api_Resources b)"
    and "map_option effFullAPIConfig (api_Config a) = map_option effFullAPIConfig (api_Config b)"
  shows "effAPIServer a = effAPIServer b"
  using assms by (cases a; cases b) (simp add: effAPIServer_def)

lemma file_api_sized:
  assumes "only (\<lambda>x. x \<noteq> zeroFileAPI) (map_option unsized p) = only (\<lambda>x. x \<noteq> zeroFileAPI) (map_option unsized q)"
    and "(case p of None \<Rightarrow> None | Some f \<Rightarrow> if file_MaxSizeBytes f \<noteq> 0 then Some (file_MaxSizeBytes f) else None)
      = (case q of None \<Rightarrow> None | Some f \<Rightarrow> if file_MaxSizeBytes f \<noteq> 0 then Some (file_MaxSizeBytes f) else None)"
  shows "only (\<lambda>x. x \<noteq> zeroFileAPI) p = only (\<lambda>x. x \<noteq> zeroFileAPI) q"
  using assms
  by (cases p; cases q; cases "the p"; cases "the q") (auto simp: unsized_def zeroFileAPI_def split: if_splits)

lemma full_config:
  assumes "effAPIConfig c = effAPIConfig d" and "loud (apicfg_Logging c) = loud (apicfg_Logging d)"
    and "(case apicfg_FileAPI c of None \<Rightarrow> None | Some f \<Rightarrow> if file_MaxSizeBytes f \<noteq> 0 then Some (file_MaxSizeBytes f) else None)
      = (case apicfg_FileAPI d of None \<Rightarrow> None | Some f \<Rightarrow> if file_MaxSizeBytes f \<noteq> 0 then Some (file_MaxSizeBytes f) else None)"
  shows "effFullAPIConfig c = effFullAPIConfig d"
  using assms(1,2) file_api_sized [OF _ assms(3)]
  by (cases c; cases d) (simp add: effAPIConfig_def effFullAPIConfig_def)

lemma full_configs:
  assumes "map_option effAPIConfig p = map_option effAPIConfig q"
    and "loud (case p of None \<Rightarrow> None | Some c \<Rightarrow> apicfg_Logging c)
      = loud (case q of None \<Rightarrow> None | Some c \<Rightarrow> apicfg_Logging c)"
    and "(case p of None \<Rightarrow> None | Some c \<Rightarrow> (case apicfg_FileAPI c of None \<Rightarrow> None
        | Some f \<Rightarrow> if file_MaxSizeBytes f \<noteq> 0 then Some (file_MaxSizeBytes f) else None))
      = (case q of None \<Rightarrow> None | Some c \<Rightarrow> (case apicfg_FileAPI c of None \<Rightarrow> None
        | Some f \<Rightarrow> if file_MaxSizeBytes f \<noteq> 0 then Some (file_MaxSizeBytes f) else None))"
  shows "map_option effFullAPIConfig p = map_option effFullAPIConfig q"
proof (cases p)
  case None
  with assms(1) show ?thesis by simp
next
  case (Some c)
  with assms(1) obtain d where d: "q = Some d" "effAPIConfig c = effAPIConfig d" by (cases q) auto
  from assms(2,3) have "effFullAPIConfig c = effFullAPIConfig d"
    unfolding Some d(1) option.case by (rule full_config [OF d(2)])
  then show ?thesis by (simp add: Some d(1))
qed

lemma apiserver_eq:
  assumes "apiserverValues a images pv = apiserverValues b images pv"
    and "maxInputFileSize (gw_Spec a) = maxInputFileSize (gw_Spec b)"
  shows "effAPIServer (spec_APIServer (gw_Spec a)) = effAPIServer (spec_APIServer (gw_Spec b))"
    and "only tls_Enabled (spec_TLS (gw_Spec a)) = only tls_Enabled (spec_TLS (gw_Spec b))"
    and "map_option effRoute (only hr_Enabled (spec_HTTPRoute (gw_Spec a)))
      = map_option effRoute (only hr_Enabled (spec_HTTPRoute (gw_Spec b)))"
    and "monitoringEnabled a = monitoringEnabled b"
proof -
  let ?A = "spec_APIServer (gw_Spec a)" and ?B = "spec_APIServer (gw_Spec b)"
  have get: "go_get (apiserverValues a images pv) k = go_get (apiserverValues b images pv) k" for k
    using assms(1) by simp
  have pol: "api_ImagePullPolicy ?A = api_ImagePullPolicy ?B"
    using get [of "''image''"] unfolding apiserver_entries by simp
  have rep: "api_Replicas ?A = api_Replicas ?B"
    using get [of "''replicaCount''"] unfolding apiserver_entries simple_entries .
  have res: "map_option effResources (api_Resources ?A) = map_option effResources (api_Resources ?B)"
    using get [of "''resources''"] unfolding apiserver_entries map_option_eq [OF resources_eq] .
  have cfg: "map_option effAPIConfig (api_Config ?A) = map_option effAPIConfig (api_Config ?B)"
    using get [of "''config''"] unfolding apiserver_entries map_option_eq [OF apiConfig_eq] .
  have log: "loud (case api_Config ?A of None \<Rightarrow> None | Some c \<Rightarrow> apicfg_Logging c)
      = loud (case api_Config ?B of None \<Rightarrow> None | Some c \<Rightarrow> apicfg_Logging c)"
    using get [of "''logging''"] unfolding apiserver_entries logging_entry .
  have "map_option effFullAPIConfig (api_Config ?A) = map_option effFullAPIConfig (api_Config ?B)"
    by (rule full_configs [OF cfg log]) (use assms(2) in \<open>simp add: maxInputFileSize_def\<close>)
  with pol rep res show "effAPIServer ?A = effAPIServer ?B" by (rule effAPIServer_eqI)
  show "only tls_Enabled (spec_TLS (gw_Spec a)) = only tls_Enabled (spec_TLS (gw_Spec b))"
    using get [of "''tls''"] unfolding apiserver_entries guarded_entries tls_eq .
  show "map_option effRoute (only hr_Enabled (spec_HTTPRoute (gw_Spec a)))
      = map_option effRoute (only hr_Enabled (spec_HTTPRoute (gw_Spec b)))"
    using get [of "''httpRoute''"] unfolding apiserver_entries route_entry .
  show "monitoringEnabled a = monitoringEnabled b"
    using get [of "''serviceMonitor''"] unfolding apiserver_entries flag_entry .
qed

lemma aimd_eq: "aimdValues a = aimdValues b \<longleftrightarrow> a = b"
proof
  assume "aimdValues a = aimdValues b"
  from same_get [OF this, of "[''enabled'', ''min'', ''backoffFactor'', ''additiveIncrease'']"] show "a = b"
    by (cases a; cases b) (simp add: aimdValues_def Let_def entry_eq cong: if_cong)
qed simp

definition zeroAIMD :: AIMDConfig where
  "zeroAIMD = \<lparr>aimd_Enabled = None, aimd_Min = 0, aimd_BackoffFactor = '''', aimd_AdditiveIncrease = 0\<rparr>"

lemma aimd_zero: "aimdValues zeroAIMD = []"
  by (simp add: aimdValues_def zeroAIMD_def)

lemmas aimd_section = submap_eq [where n = "\<lambda>x. x", OF aimd_eq aimd_zero refl, unfolded option.map_ident]
lemmas aimd_only = submap_only [where f = aimdValues and n = "\<lambda>x. x", OF refl aimd_zero, unfolded option.map_ident]

definition effConcurrency :: "ConcurrencyConfig \<Rightarrow> ConcurrencyConfig" where
  "effConcurrency c = c\<lparr>conc_AIMD := only (\<lambda>a. a \<noteq> zeroAIMD) (conc_AIMD c)\<rparr>"

definition zeroConcurrency :: ConcurrencyConfig where
  "zeroConcurrency = \<lparr>conc_Global = 0, conc_PerEndpoint = 0, conc_Recovery = 0, conc_AIMD = None\<rparr>"

lemma concurrency_eff: "concurrencyValues (effConcurrency c) = concurrencyValues c"
  by (simp add: concurrencyValues_def Let_def case_setSubmap effConcurrency_def aimd_only)

lemma concurrency_eq: "concurrencyValues a = concurrencyValues b \<longleftrightarrow> effConcurrency a = effConcurrency b"
proof
  assume "concurrencyValues a = concurrencyValues b"
  from same_get [OF this, of "[''global'', ''perEndpoint'', ''recovery'', ''aimd'']"]
  show "effConcurrency a = effConcurrency b"
    by (cases a; cases b)
      (simp add: concurrencyValues_def Let_def case_setSubmap entry_eq aimd_section effConcurrency_def cong: if_cong)
qed (metis concurrency_eff)

lemma concurrency_zero: "concurrencyValues zeroConcurrency = []" "effConcurrency zeroConcurrency = zeroConcurrency"
  by (simp_all add: concurrencyValues_def zeroConcurrency_def effConcurrency_def)

lemmas concurrency_section = submap_eq [where f = concurrencyValues and n = effConcurrency, OF concurrency_eq concurrency_zero]
lemmas concurrency_only = submap_only [where f = concurrencyValues and n = effConcurrency, OF concurrency_eff concurrency_zero(1)]

lemma resumable_eq: "resumableValues a = resumableValues b \<longleftrightarrow> a = b"
proof
  assume "resumableValues a = resumableValues b"
  from same_get [OF this, of "[''leaseDuration'', ''finalizeConcurrency'', ''finalizeTimeout'']"] show "a = b"
    by (cases a; cases b) (simp add: resumableValues_def Let_def entry_eq cong: if_cong)
qed simp

definition zeroResumable :: ResumableConfigSpec where
  "zeroResumable = \<lparr>resume_LeaseDuration = '''', resume_FinalizeConcurrency = 0, resume_FinalizeTimeout = ''''\<rparr>"

lemma resumable_zero: "resumableValues zeroResumable = []"
  by (simp add: resumableValues_def zeroResumable_def)

lemmas resumable_section = submap_eq [where n = "\<lambda>x. x", OF resumable_eq resumable_zero refl, unfolded option.map_ident]
lemmas resumable_only =
  submap_only [where f = resumableValues and n = "\<lambda>x. x", OF refl resumable_zero, unfolded option.map_ident]

text \<open>The retained field for the progress TTL is never read.\<close>

definition effProcConfig :: "ProcessorConfigSpec \<Rightarrow> ProcessorConfigSpec" where
  "effProcConfig c = c\<lparr>pcfg_Concurrency := only (\<lambda>x. x \<noteq> zeroConcurrency) (map_option effConcurrency (pcfg_Concurrency c)),
     pcfg_Resumable := only (\<lambda>x. x \<noteq> zeroResumable) (pcfg_Resumable c),
     pcfg_ProgressTTLSeconds := 0, pcfg_Logging := loud (pcfg_Logging c)\<rparr>"

definition zeroProcConfig :: ProcessorConfigSpec where
  "zeroProcConfig = \<lparr>pcfg_NumWorkers = 0, pcfg_InputFileDiskBudgetPercent = 0, pcfg_ExtraEndpoints = None,
     pcfg_Concurrency = None, pcfg_Resumable = None, pcfg_DefaultOutputExpirationSeconds = 0,
     pcfg_ProgressTTLSeconds = 0, pcfg_ProgressUpdateInterval = '''', pcfg_SendFairnessHeader = None,
     pcfg_RouteKeyMethod = '''', pcfg_EnablePprof = False, pcfg_Logging = None\<rparr>"

definition effProcConfigOf :: "ProcessorSpec \<Rightarrow> ProcessorConfigSpec" where
  "effProcConfigOf p = effProcConfig (orZero zeroProcConfig (proc_Config p))"

lemma merge_zero: "mergeProcessorConfig m zeroProcConfig = m"
  by (simp add: mergeProcessorConfig_def zeroProcConfig_def setInt32_def setSome_def setIfNotEmpty_def setIf_def)

lemma procConfig_merge:
  "procConfigValues gw =
     mergeProcessorConfig (setSome [(''dispatchMode'', VStr dispatchModeAsync)] ''asyncDispatch''
       (asyncDispatchValues gw) (gwAsync gw)) (orZero zeroProcConfig (proc_Config (gwProcessor gw)))"
  by (simp add: procConfigValues_def Let_def merge_zero split: option.split)

lemma merge_entries:
  assumes "list_all (\<lambda>k. go_get m k = None) [''numWorkers'', ''inputFileDiskBudgetPercent'', ''extraEndpoints'',
    ''concurrency'', ''resumable'', ''defaultOutputExpirationSeconds'', ''progressUpdateInterval'',
    ''sendFairnessHeader'', ''routeKeyMethod'', ''enablePprof'']"
  shows "go_get (mergeProcessorConfig m c) ''numWorkers'' = (if pcfg_NumWorkers c \<noteq> 0 then Some (VInt32 (pcfg_NumWorkers c)) else None)"
    and "go_get (mergeProcessorConfig m c) ''inputFileDiskBudgetPercent'' =
      (if pcfg_InputFileDiskBudgetPercent c \<noteq> 0 then Some (VInt32 (pcfg_InputFileDiskBudgetPercent c)) else None)"
    and "go_get (mergeProcessorConfig m c) ''extraEndpoints'' = map_option toInterfaceSlice (pcfg_ExtraEndpoints c)"
    and "go_get (mergeProcessorConfig m c) ''concurrency'' =
      (let sub = (case pcfg_Concurrency c of None \<Rightarrow> [] | Some x \<Rightarrow> concurrencyValues x)
       in if sub \<noteq> [] then Some (VMap sub) else None)"
    and "go_get (mergeProcessorConfig m c) ''resumable'' =
      (let sub = (case pcfg_Resumable c of None \<Rightarrow> [] | Some x \<Rightarrow> resumableValues x)
       in if sub \<noteq> [] then Some (VMap sub) else None)"
    and "go_get (mergeProcessorConfig m c) ''defaultOutputExpirationSeconds'' =
      (if pcfg_DefaultOutputExpirationSeconds c \<noteq> 0 then Some (VInt (pcfg_DefaultOutputExpirationSeconds c)) else None)"
    and "go_get (mergeProcessorConfig m c) ''progressUpdateInterval'' =
      (if pcfg_ProgressUpdateInterval c \<noteq> '''' then Some (VStr (pcfg_ProgressUpdateInterval c)) else None)"
    and "go_get (mergeProcessorConfig m c) ''sendFairnessHeader'' = map_option VBool (pcfg_SendFairnessHeader c)"
    and "go_get (mergeProcessorConfig m c) ''routeKeyMethod'' =
      (if pcfg_RouteKeyMethod c \<noteq> '''' then Some (VStr (pcfg_RouteKeyMethod c)) else None)"
    and "go_get (mergeProcessorConfig m c) ''enablePprof'' = (if pcfg_EnablePprof c then Some (VBool True) else None)"
  using assms by (simp_all add: mergeProcessorConfig_def Let_def case_setSubmap cong: if_cong)

lemma effProcConfig_eqI:
  assumes "pcfg_NumWorkers c = pcfg_NumWorkers d" and "pcfg_InputFileDiskBudgetPercent c = pcfg_InputFileDiskBudgetPercent d"
    and "pcfg_ExtraEndpoints c = pcfg_ExtraEndpoints d"
    and "only (\<lambda>x. x \<noteq> zeroConcurrency) (map_option effConcurrency (pcfg_Concurrency c))
      = only (\<lambda>x. x \<noteq> zeroConcurrency) (map_option effConcurrency (pcfg_Concurrency d))"
    and "only (\<lambda>x. x \<noteq> zeroResumable) (pcfg_Resumable c) = only (\<lambda>x. x \<noteq> zeroResumable) (pcfg_Resumable d)"
    and "pcfg_DefaultOutputExpirationSeconds c = pcfg_DefaultOutputExpirationSeconds d"
    and "pcfg_ProgressUpdateInterval c = pcfg_ProgressUpdateInterval d"
    and "pcfg_SendFairnessHeader c = pcfg_SendFairnessHeader d" and "pcfg_RouteKeyMethod c = pcfg_RouteKeyMethod d"
    and "pcfg_EnablePprof c = pcfg_EnablePprof d" and "loud (pcfg_Logging c) = loud (pcfg_Logging d)"
  shows "effProcConfig c = effProcConfig d"
  using assms by (cases c; cases d) (simp add: effProcConfig_def)

lemma merge_eq:
  assumes "mergeProcessorConfig m c = mergeProcessorConfig m' d"
    and "list_all (\<lambda>k. go_get m k = None \<and> go_get m' k = None) [''numWorkers'', ''inputFileDiskBudgetPercent'',
      ''extraEndpoints'', ''concurrency'', ''resumable'', ''defaultOutputExpirationSeconds'',
      ''progressUpdateInterval'', ''sendFairnessHeader'', ''routeKeyMethod'', ''enablePprof'']"
    and "loud (pcfg_Logging c) = loud (pcfg_Logging d)"
  shows "effProcConfig c = effProcConfig d"
proof -
  have get: "go_get (mergeProcessorConfig m c) k = go_get (mergeProcessorConfig m' d) k" for k
    using assms(1) by simp
  have base: "list_all (\<lambda>k. go_get m k = None) [''numWorkers'', ''inputFileDiskBudgetPercent'', ''extraEndpoints'',
      ''concurrency'', ''resumable'', ''defaultOutputExpirationSeconds'', ''progressUpdateInterval'',
      ''sendFairnessHeader'', ''routeKeyMethod'', ''enablePprof'']"
    "list_all (\<lambda>k. go_get m' k = None) [''numWorkers'', ''inputFileDiskBudgetPercent'', ''extraEndpoints'',
      ''concurrency'', ''resumable'', ''defaultOutputExpirationSeconds'', ''progressUpdateInterval'',
      ''sendFairnessHeader'', ''routeKeyMethod'', ''enablePprof'']"
    using assms(2) by (simp_all only: list.pred_inject)
  note e1 = merge_entries [OF base(1), of c] and e2 = merge_entries [OF base(2), of d]
  show ?thesis
  proof (rule effProcConfig_eqI)
    show "pcfg_NumWorkers c = pcfg_NumWorkers d"
      using get [of "''numWorkers''"] unfolding e1 e2 guarded_entries .
    show "pcfg_InputFileDiskBudgetPercent c = pcfg_InputFileDiskBudgetPercent d"
      using get [of "''inputFileDiskBudgetPercent''"] unfolding e1 e2 guarded_entries .
    show "pcfg_ExtraEndpoints c = pcfg_ExtraEndpoints d"
      using get [of "''extraEndpoints''"] unfolding e1 e2 list_entries .
    show "only (\<lambda>x. x \<noteq> zeroConcurrency) (map_option effConcurrency (pcfg_Concurrency c))
        = only (\<lambda>x. x \<noteq> zeroConcurrency) (map_option effConcurrency (pcfg_Concurrency d))"
      using get [of "''concurrency''"] unfolding e1 e2 Let_def guarded_entries concurrency_section .
    show "only (\<lambda>x. x \<noteq> zeroResumable) (pcfg_Resumable c) = only (\<lambda>x. x \<noteq> zeroResumable) (pcfg_Resumable d)"
      using get [of "''resumable''"] unfolding e1 e2 Let_def guarded_entries resumable_section .
    show "pcfg_DefaultOutputExpirationSeconds c = pcfg_DefaultOutputExpirationSeconds d"
      using get [of "''defaultOutputExpirationSeconds''"] unfolding e1 e2 guarded_entries .
    show "pcfg_ProgressUpdateInterval c = pcfg_ProgressUpdateInterval d"
      using get [of "''progressUpdateInterval''"] unfolding e1 e2 guarded_entries .
    show "pcfg_SendFairnessHeader c = pcfg_SendFairnessHeader d"
      using get [of "''sendFairnessHeader''"] unfolding e1 e2 simple_entries .
    show "pcfg_RouteKeyMethod c = pcfg_RouteKeyMethod d"
      using get [of "''routeKeyMethod''"] unfolding e1 e2 guarded_entries .
    show "pcfg_EnablePprof c = pcfg_EnablePprof d"
      using get [of "''enablePprof''"] unfolding e1 e2 guarded_entries .
  qed (rule assms(3))
qed

text \<open>What the batch chart gets of the async section.\<close>

definition batchTransport :: "AsyncProcessorSpec \<Rightarrow> string option" where
  "batchTransport ac = (if ac_SQL ac \<noteq> None then Some asyncTransportSQL
     else if ac_Redis ac \<noteq> None then Some asyncTransportRedis else None)"

definition batchMaxConnections :: "AsyncProcessorSpec \<Rightarrow> int32 option" where
  "batchMaxConnections ac = (case ac_SQL ac of None \<Rightarrow> None | Some sql \<Rightarrow> sql_MaxConnections sql)"

lemma model_eq [simp]: "asyncModelGatewayToMap a = asyncModelGatewayToMap b \<longleftrightarrow> a = b"
proof
  assume "asyncModelGatewayToMap a = asyncModelGatewayToMap b"
  from same_at [OF this, of "[''inferencePoolName'', ''inferenceObjective'', ''requestQueueName'', ''resultQueueName'']"]
  show "a = b"
    by (cases a; cases b) (simp add: asyncModelGatewayToMap_def Let_def entry_eq cong: if_cong)
qed simp

lemma dispatch_entries:
  "entry (asyncDispatchValues gw ac) ''resultPollTimeout'' = Some (VStr (ac_ResultPollTimeout ac))"
  "entry (asyncDispatchValues gw ac) ''transport'' = map_option VStr (batchTransport ac)"
  "entry (asyncDispatchValues gw ac) ''maxConnections'' = map_option VInt32 (batchMaxConnections ac)"
  "entry (asyncDispatchValues gw ac) ''models'' = (if gwModels gw \<noteq> []
     then Some (VMap (map (apsnd asyncModelGatewayToMap) (goMap (gwModels gw)))) else None)"
  by (cases "ac_SQL ac"; cases "ac_Redis ac";
      simp add: asyncDispatchValues_def Let_def batchTransport_def batchMaxConnections_def fold_goMap cong: if_cong)+

lemma models_entry:
  "(if xs \<noteq> [] then Some (VMap (map (apsnd asyncModelGatewayToMap) (goMap xs))) else None)
     = (if ys \<noteq> [] then Some (VMap (map (apsnd asyncModelGatewayToMap) (goMap ys))) else None) \<longleftrightarrow>
     goMap xs = goMap ys"
  using goMap_empty [of xs] goMap_empty [of ys]
  by (auto simp: inj_map_eq_map inj_def simp del: goMap_empty)

lemma dispatch_eq:
  assumes "asyncDispatchValues a ac = asyncDispatchValues b bc"
  shows "ac_ResultPollTimeout ac = ac_ResultPollTimeout bc" and "batchTransport ac = batchTransport bc"
    and "batchMaxConnections ac = batchMaxConnections bc" and "goMap (gwModels a) = goMap (gwModels b)"
proof -
  have get: "entry (asyncDispatchValues a ac) k = entry (asyncDispatchValues b bc) k" for k using assms by simp
  show "ac_ResultPollTimeout ac = ac_ResultPollTimeout bc"
    using get [of "''resultPollTimeout''"] unfolding dispatch_entries by simp
  show "batchTransport ac = batchTransport bc"
    using get [of "''transport''"] unfolding dispatch_entries simple_entries .
  show "batchMaxConnections ac = batchMaxConnections bc"
    using get [of "''maxConnections''"] unfolding dispatch_entries simple_entries .
  show "goMap (gwModels a) = goMap (gwModels b)"
    using get [of "''models''"] unfolding dispatch_entries models_entry .
qed

lemma processor_entries:
  fixes gw images
  defines "proc \<equiv> gwProcessor gw" and "m \<equiv> processorValues gw images"
  shows "go_get m ''image'' = Some (imageValues (img_Processor images) (proc_ImagePullPolicy proc))"
    and "go_get m ''replicaCount'' = map_option VInt32 (proc_Replicas proc)"
    and "go_get m ''resources'' = map_option resourceRequirementsToMap (proc_Resources proc)"
    and "go_get m ''logging'' = map_option (\<lambda>lc. VMap [(''verbosity'', VInt32 (log_Verbosity lc))])
      (loud (pcfg_Logging (orZero zeroProcConfig (proc_Config proc))))"
  unfolding m_def proc_def
  by (cases "proc_Config (gwProcessor gw)";
      simp add: processorValues_def componentValues_def Let_def setLogging_only case_setIf zeroProcConfig_def
        cong: if_cong)+

lemma processor_eq:
  assumes "processorValues a images = processorValues b images"
  shows "proc_ImagePullPolicy (gwProcessor a) = proc_ImagePullPolicy (gwProcessor b)"
    and "proc_Replicas (gwProcessor a) = proc_Replicas (gwProcessor b)"
    and "map_option effResources (proc_Resources (gwProcessor a)) = map_option effResources (proc_Resources (gwProcessor b))"
    and "effProcConfigOf (gwProcessor a) = effProcConfigOf (gwProcessor b)"
    and "map_option (asyncDispatchValues a) (gwAsync a) = map_option (asyncDispatchValues b) (gwAsync b)"
proof -
  have get: "go_get (processorValues a images) k = go_get (processorValues b images) k" for k using assms by simp
  show "proc_ImagePullPolicy (gwProcessor a) = proc_ImagePullPolicy (gwProcessor b)"
    using get [of "''image''"] unfolding processor_entries by simp
  show "proc_Replicas (gwProcessor a) = proc_Replicas (gwProcessor b)"
    using get [of "''replicaCount''"] unfolding processor_entries simple_entries .
  show "map_option effResources (proc_Resources (gwProcessor a)) = map_option effResources (proc_Resources (gwProcessor b))"
    using get [of "''resources''"] unfolding processor_entries map_option_eq [OF resources_eq] .
  have log: "loud (pcfg_Logging (orZero zeroProcConfig (proc_Config (gwProcessor a))))
      = loud (pcfg_Logging (orZero zeroProcConfig (proc_Config (gwProcessor b))))"
    using get [of "''logging''"] unfolding processor_entries logging_entry .
  have cfg: "procConfigValues a = procConfigValues b"
    using get [of "''config''"] unfolding processor_config by simp
  show "map_option (asyncDispatchValues a) (gwAsync a) = map_option (asyncDispatchValues b) (gwAsync b)"
    using procConfig_get(2) [of a] procConfig_get(2) [of b] cfg by simp
  show "effProcConfigOf (gwProcessor a) = effProcConfigOf (gwProcessor b)"
    unfolding effProcConfigOf_def by (rule merge_eq [OF cfg [unfolded procConfig_merge] _ log]) simp
qed

definition zeroGCConfig :: GCConfigSpec where
  "zeroGCConfig = \<lparr>gccfg_DryRun = False, gccfg_MaxConcurrency = 0, gccfg_Logging = None, gccfg_Reconciler = None\<rparr>"

definition effGC :: "GCSpec \<Rightarrow> GCSpec" where
  "effGC g = (let cfg = orZero zeroGCConfig (gc_Config g)
     in g\<lparr>gc_Resources := map_option effResources (gc_Resources g),
          gc_Config := Some (cfg\<lparr>gccfg_Logging := loud (gccfg_Logging cfg)\<rparr>)\<rparr>)"

lemma gcReconciler_eq: "gcReconcilerValues a = gcReconcilerValues b \<longleftrightarrow> a = b"
proof
  assume "gcReconcilerValues a = gcReconcilerValues b"
  from same_at [OF this, of "[''enabled'', ''interval'']"] show "a = b"
    by (cases a; cases b) (simp add: gcReconcilerValues_def entry_eq cong: if_cong)
qed simp

lemma gc_collector_entries:
  "go_get (gcCollectorValues g) ''interval'' = (if gc_Interval g \<noteq> '''' then Some (VStr (gc_Interval g)) else None)"
  "go_get (gcCollectorValues g) ''maxConcurrency'' =
     (let n = gccfg_MaxConcurrency (orZero zeroGCConfig (gc_Config g)) in if n \<noteq> 0 then Some (VInt32 n) else None)"
  by (cases "gc_Config g"; simp add: gcCollectorValues_def Let_def zeroGCConfig_def cong: if_cong)+

lemma gc_config_entries:
  "go_get (gcConfigValues g) ''dryRun'' =
     (if gccfg_DryRun (orZero zeroGCConfig (gc_Config g)) then Some (VBool True) else None)"
  "go_get (gcConfigValues g) ''reconciler'' =
     map_option gcReconcilerValues (gccfg_Reconciler (orZero zeroGCConfig (gc_Config g)))"
  "go_get (gcConfigValues g) ''collector'' =
     (if gcCollectorValues g \<noteq> [] then Some (VMap (gcCollectorValues g)) else None)"
  by (cases "gc_Config g"; simp add: gcConfigValues_def Let_def zeroGCConfig_def cong: if_cong)+

lemma gc_entries:
  fixes gw images
  defines "g \<equiv> spec_GC (gw_Spec gw)" and "m \<equiv> gcValues gw images"
  shows "go_get m ''image'' = Some (imageValues (img_GC images) (gc_ImagePullPolicy g))"
    and "go_get m ''replicaCount'' = map_option VInt32 (gc_Replicas g)"
    and "go_get m ''resources'' = map_option resourceRequirementsToMap (gc_Resources g)"
    and "go_get m ''logging'' = map_option (\<lambda>lc. VMap [(''verbosity'', VInt32 (log_Verbosity lc))])
      (loud (gccfg_Logging (orZero zeroGCConfig (gc_Config g))))"
    and "go_get m ''config'' = (if gcConfigValues g \<noteq> [] then Some (VMap (gcConfigValues g)) else None)"
  unfolding m_def g_def
  by (cases "gc_Config (spec_GC (gw_Spec gw))";
      simp add: gcValues_def componentValues_def Let_def setLogging_only zeroGCConfig_def cong: if_cong)+

lemma effGC_eqI:
  assumes "gc_ImagePullPolicy a = gc_ImagePullPolicy b" and "gc_Replicas a = gc_Replicas b"
    and "map_option effResources (gc_Resources a) = map_option effResources (gc_Resources b)"
    and "gc_Interval a = gc_Interval b"
    and "gccfg_DryRun (orZero zeroGCConfig (gc_Config a)) = gccfg_DryRun (orZero zeroGCConfig (gc_Config b))"
    and "gccfg_MaxConcurrency (orZero zeroGCConfig (gc_Config a)) = gccfg_MaxConcurrency (orZero zeroGCConfig (gc_Config b))"
    and "gccfg_Reconciler (orZero zeroGCConfig (gc_Config a)) = gccfg_Reconciler (orZero zeroGCConfig (gc_Config b))"
    and "loud (gccfg_Logging (orZero zeroGCConfig (gc_Config a))) = loud (gccfg_Logging (orZero zeroGCConfig (gc_Config b)))"
  shows "effGC a = effGC b"
proof -
  obtain c d where cd: "orZero zeroGCConfig (gc_Config a) = c" "orZero zeroGCConfig (gc_Config b) = d" by blast
  have "c\<lparr>gccfg_Logging := loud (gccfg_Logging c)\<rparr> = d\<lparr>gccfg_Logging := loud (gccfg_Logging d)\<rparr>"
    using assms(5-8) unfolding cd by (cases c; cases d) simp
  with assms(1-4) show ?thesis
    unfolding effGC_def Let_def cd by (cases a; cases b) simp
qed

lemma gc_eq:
  assumes "gcValues a images = gcValues b images"
  shows "effGC (spec_GC (gw_Spec a)) = effGC (spec_GC (gw_Spec b))"
proof (rule effGC_eqI)
  let ?A = "spec_GC (gw_Spec a)" and ?B = "spec_GC (gw_Spec b)"
  have get: "go_get (gcValues a images) k = go_get (gcValues b images) k" for k using assms by simp
  have cfg: "gcConfigValues ?A = gcConfigValues ?B"
    using get [of "''config''"] unfolding gc_entries guarded_entries .
  have cget: "go_get (gcConfigValues ?A) k = go_get (gcConfigValues ?B) k" for k using cfg by simp
  have col: "gcCollectorValues ?A = gcCollectorValues ?B"
    using cget [of "''collector''"] unfolding gc_config_entries guarded_entries .
  have lget: "go_get (gcCollectorValues ?A) k = go_get (gcCollectorValues ?B) k" for k using col by simp
  show "gc_ImagePullPolicy ?A = gc_ImagePullPolicy ?B"
    using get [of "''image''"] unfolding gc_entries by simp
  show "gc_Replicas ?A = gc_Replicas ?B"
    using get [of "''replicaCount''"] unfolding gc_entries simple_entries .
  show "map_option effResources (gc_Resources ?A) = map_option effResources (gc_Resources ?B)"
    using get [of "''resources''"] unfolding gc_entries map_option_eq [OF resources_eq] .
  show "loud (gccfg_Logging (orZero zeroGCConfig (gc_Config ?A))) = loud (gccfg_Logging (orZero zeroGCConfig (gc_Config ?B)))"
    using get [of "''logging''"] unfolding gc_entries logging_entry .
  show "gc_Interval ?A = gc_Interval ?B"
    using lget [of "''interval''"] unfolding gc_collector_entries guarded_entries .
  show "gccfg_MaxConcurrency (orZero zeroGCConfig (gc_Config ?A)) = gccfg_MaxConcurrency (orZero zeroGCConfig (gc_Config ?B))"
    using lget [of "''maxConcurrency''"] unfolding gc_collector_entries Let_def guarded_entries .
  show "gccfg_DryRun (orZero zeroGCConfig (gc_Config ?A)) = gccfg_DryRun (orZero zeroGCConfig (gc_Config ?B))"
    using cget [of "''dryRun''"] unfolding gc_config_entries guarded_entries .
  show "gccfg_Reconciler (orZero zeroGCConfig (gc_Config ?A)) = gccfg_Reconciler (orZero zeroGCConfig (gc_Config ?B))"
    using cget [of "''reconciler''"] map_option_eq [where g = "\<lambda>x. x", OF gcReconciler_eq]
    unfolding gc_config_entries by (simp add: option.map_ident)
qed

end
