(* ===== verification/Settings.thy ===== *)
theory Settings
  imports BatchSettings
begin

text \<open>
  What of a custom resource the charts see. \<open>settings\<close> is its normal form: the spec with
  everything removed that the mappings of \<open>helm_batch.go\<close> and \<open>helm_async.go\<close> do not tell
  apart. That is: sections switched off (TLS, route, monitoring, model server monitor), zero
  values and empty sub-sections, which count as absent; resources other than CPU and memory;
  the retained fields \<open>dispatchMode\<close> and \<open>progressTTLSeconds\<close>; the Redis fields that explicit
  queues override, since a queue list is replaced by the queues the dispatcher gets; the order of
  repeated keys; how a transform parameter is written, as long as it parses to the same JSON;
  and \<open>secretRef\<close>, of which a chart gets the name of the managed copy. The two value trees are
  equal exactly when the normal forms are.
\<close>

section \<open>The async chart\<close>

definition effQueue :: "string \<Rightarrow> AsyncQueueConfig \<Rightarrow> AsyncQueueConfig" where
  "effQueue url q = q\<lparr>q_IGWBaseURL := (if q_IGWBaseURL q = '''' then url else q_IGWBaseURL q),
     q_GateParams := goMap (q_GateParams q)\<rparr>"

lemma queue_eff [simp]: "asyncQueueValue (effQueue url q) url = asyncQueueValue q url"
  by (simp add: asyncQueueValue_def effQueue_def Let_def)

lemma queue_entries:
  "entry (asyncQueueValue q u) ''queue_name'' = Some (VStr (q_Name q))"
  "entry (asyncQueueValue q u) ''worker_pool_id'' = (if q_WorkerPoolID q \<noteq> '''' then Some (VStr (q_WorkerPoolID q)) else None)"
  "entry (asyncQueueValue q u) ''igw_base_url'' =
     (let url = (if q_IGWBaseURL q = '''' then u else q_IGWBaseURL q) in if url \<noteq> '''' then Some (VStr url) else None)"
  "entry (asyncQueueValue q u) ''request_path_url'' =
     (if q_RequestPathURL q \<noteq> '''' then Some (VStr (q_RequestPathURL q)) else None)"
  "entry (asyncQueueValue q u) ''gate_type'' = (if q_GateType q \<noteq> '''' then Some (VStr (q_GateType q)) else None)"
  "entry (asyncQueueValue q u) ''gate_params'' =
     (if q_GateParams q \<noteq> [] then Some (toStringInterfaceMap (q_GateParams q)) else None)"
  by (simp_all add: asyncQueueValue_def Let_def cong: if_cong del: string_map_eq)

lemma queue_eq: "asyncQueueValue q u = asyncQueueValue q' u' \<Longrightarrow> effQueue u q = effQueue u' q'"
proof -
  assume "asyncQueueValue q u = asyncQueueValue q' u'"
  then have get: "entry (asyncQueueValue q u) k = entry (asyncQueueValue q' u') k" for k by simp
  have "q_Name q = q_Name q'" using get [of "''queue_name''"] unfolding queue_entries by simp
  moreover have "q_WorkerPoolID q = q_WorkerPoolID q'"
    using get [of "''worker_pool_id''"] unfolding queue_entries guarded_entries .
  moreover have "(if q_IGWBaseURL q = '''' then u else q_IGWBaseURL q)
      = (if q_IGWBaseURL q' = '''' then u' else q_IGWBaseURL q')"
    using get [of "''igw_base_url''"] unfolding queue_entries Let_def guarded_entries .
  moreover have "q_RequestPathURL q = q_RequestPathURL q'"
    using get [of "''request_path_url''"] unfolding queue_entries guarded_entries .
  moreover have "q_GateType q = q_GateType q'"
    using get [of "''gate_type''"] unfolding queue_entries guarded_entries .
  moreover have "goMap (q_GateParams q) = goMap (q_GateParams q')"
    using get [of "''gate_params''"] unfolding queue_entries list_entries .
  ultimately show ?thesis by (cases q; cases q') (simp add: effQueue_def cong: if_cong)
qed

lemma queues_eq:
  assumes "asyncQueueValues qs u = asyncQueueValues qs' u'"
  shows "map (effQueue u) qs = map (effQueue u') qs'"
proof -
  have "map (\<lambda>q. asyncQueueValue q u) qs = map (\<lambda>q. asyncQueueValue q u') qs'"
    using assms by (simp add: asyncQueueValues_def)
  then show ?thesis
    by (induction qs arbitrary: qs') (auto simp: Cons_eq_map_conv map_eq_Cons_conv dest: queue_eq)
qed

definition effRedis :: "LLMBatchGateway \<Rightarrow> string \<Rightarrow> AsyncRedisSpec \<Rightarrow> AsyncRedisSpec" where
  "effRedis gw url r = r\<lparr>redis_RequestPathURL := '''', redis_GateType := '''', redis_GateParams := [],
     redis_QueuesConfig := map (effQueue url) (redisQueues gw r)\<rparr>"

definition effSQL :: "LLMBatchGateway \<Rightarrow> string \<Rightarrow> AsyncSQLSpec \<Rightarrow> AsyncSQLSpec" where
  "effSQL gw url s = s\<lparr>sql_QueuesConfig := map (effQueue url) (sqlQueues gw s)\<rparr>"

lemma redis_entries:
  "go_get (redisTransportConfig gw r n u) ''poll_interval_ms'' = map_option VInt32 (redis_PollIntervalMs r)"
  "go_get (redisTransportConfig gw r n u) ''batch_size'' = map_option VInt32 (redis_BatchSize r)"
  "go_get (redisTransportConfig gw r n u) ''queues'' = Some (asyncQueueValues (redisQueues gw r) u)"
  by (simp_all add: redisTransportConfig_def urlSecretValues_def Let_def)

lemma redis_eq:
  assumes "redisTransportConfig a r n u = redisTransportConfig b r' n u'"
  shows "effRedis a u r = effRedis b u' r'"
proof -
  have get: "go_get (redisTransportConfig a r n u) k = go_get (redisTransportConfig b r' n u') k" for k
    using assms by simp
  have "redis_PollIntervalMs r = redis_PollIntervalMs r'"
    using get [of "''poll_interval_ms''"] unfolding redis_entries simple_entries .
  moreover have "redis_BatchSize r = redis_BatchSize r'"
    using get [of "''batch_size''"] unfolding redis_entries simple_entries .
  moreover have "map (effQueue u) (redisQueues a r) = map (effQueue u') (redisQueues b r')"
    using get [of "''queues''"] unfolding redis_entries by (auto intro: queues_eq)
  ultimately show ?thesis by (cases r; cases r') (simp add: effRedis_def)
qed

lemma sql_entries:
  "go_get (sqlTransportConfig gw s n u) ''poll_interval_ms'' = map_option VInt32 (sql_PollIntervalMs s)"
  "go_get (sqlTransportConfig gw s n u) ''batch_size'' = map_option VInt32 (sql_BatchSize s)"
  "go_get (sqlTransportConfig gw s n u) ''result_batch_size'' = map_option VInt32 (sql_ResultBatchSize s)"
  "go_get (sqlTransportConfig gw s n u) ''lease_ttl_seconds'' = map_option VInt32 (sql_LeaseTTLSeconds s)"
  "go_get (sqlTransportConfig gw s n u) ''handoff_timeout_seconds'' = map_option VInt32 (sql_HandoffTimeoutSeconds s)"
  "go_get (sqlTransportConfig gw s n u) ''queues'' = Some (asyncQueueValues (sqlQueues gw s) u)"
  by (simp_all add: sqlTransportConfig_def urlSecretValues_def Let_def)

lemma sql_eq:
  assumes "sqlTransportConfig a s n u = sqlTransportConfig b s' n u'"
    and "sql_MaxConnections s = sql_MaxConnections s'"
  shows "effSQL a u s = effSQL b u' s'"
proof -
  have get: "go_get (sqlTransportConfig a s n u) k = go_get (sqlTransportConfig b s' n u') k" for k
    using assms(1) by simp
  have "sql_PollIntervalMs s = sql_PollIntervalMs s'"
    using get [of "''poll_interval_ms''"] unfolding sql_entries simple_entries .
  moreover have "sql_BatchSize s = sql_BatchSize s'"
    using get [of "''batch_size''"] unfolding sql_entries simple_entries .
  moreover have "sql_ResultBatchSize s = sql_ResultBatchSize s'"
    using get [of "''result_batch_size''"] unfolding sql_entries simple_entries .
  moreover have "sql_LeaseTTLSeconds s = sql_LeaseTTLSeconds s'"
    using get [of "''lease_ttl_seconds''"] unfolding sql_entries simple_entries .
  moreover have "sql_HandoffTimeoutSeconds s = sql_HandoffTimeoutSeconds s'"
    using get [of "''handoff_timeout_seconds''"] unfolding sql_entries simple_entries .
  moreover have "map (effQueue u) (sqlQueues a s) = map (effQueue u') (sqlQueues b s')"
    using get [of "''queues''"] unfolding sql_entries by (auto intro: queues_eq)
  ultimately show ?thesis using assms(2) by (cases s; cases s') (simp add: effSQL_def)
qed

definition effPool :: "AsyncWorkerPool \<Rightarrow> AsyncWorkerPool" where
  "effPool p = p\<lparr>wp_GateParams := goMap (wp_GateParams p)\<rparr>"

lemma pool_entries:
  "entry (workerPoolValues p) ''id'' = Some (VStr (wp_Name p))"
  "entry (workerPoolValues p) ''workers'' = Some (VInt32 (wp_Workers p))"
  "entry (workerPoolValues p) ''gate_type'' = (if wp_GateType p \<noteq> '''' then Some (VStr (wp_GateType p)) else None)"
  "entry (workerPoolValues p) ''gate_params'' =
     (if wp_GateParams p \<noteq> [] then Some (toStringInterfaceMap (wp_GateParams p)) else None)"
  by (simp_all add: workerPoolValues_def Let_def cong: if_cong del: string_map_eq)

lemma pool_eff: "workerPoolValues (effPool p) = workerPoolValues p"
  by (simp add: workerPoolValues_def effPool_def)

lemma pool_eq: "workerPoolValues p = workerPoolValues p' \<longleftrightarrow> effPool p = effPool p'"
proof
  assume "workerPoolValues p = workerPoolValues p'"
  then have get: "entry (workerPoolValues p) k = entry (workerPoolValues p') k" for k by simp
  have "wp_Name p = wp_Name p'" using get [of "''id''"] unfolding pool_entries by simp
  moreover have "wp_Workers p = wp_Workers p'" using get [of "''workers''"] unfolding pool_entries by simp
  moreover have "wp_GateType p = wp_GateType p'" using get [of "''gate_type''"] unfolding pool_entries guarded_entries .
  moreover have "goMap (wp_GateParams p) = goMap (wp_GateParams p')"
    using get [of "''gate_params''"] unfolding pool_entries list_entries .
  ultimately show "effPool p = effPool p'" by (cases p; cases p') (simp add: effPool_def)
qed (metis pool_eff)

lemma map_eq_eff:
  assumes "\<And>x y. f x = f y \<longleftrightarrow> n x = n y"
  shows "map f xs = map f ys \<longleftrightarrow> map n xs = map n ys"
proof (induction xs arbitrary: ys)
  case (Cons x xs)
  then show ?case by (cases ys) (simp_all add: assms)
qed auto

lemma list_entry:
  assumes "\<And>x y. f x = f y \<longleftrightarrow> n x = n y"
  shows "(if xs \<noteq> [] then Some (VList (map f xs)) else None) = (if ys \<noteq> [] then Some (VList (map f ys)) else None) \<longleftrightarrow>
    map n xs = map n ys"
proof -
  have "map n xs = map n ys \<Longrightarrow> xs = [] \<longleftrightarrow> ys = []" by (metis map_is_Nil_conv)
  then show ?thesis using map_eq_eff [of f n xs ys, OF assms] by auto
qed

lemma asyncTLS_eq: "asyncTLSValues a = asyncTLSValues b \<longleftrightarrow> a = b"
proof
  assume "asyncTLSValues a = asyncTLSValues b"
  from same_at [OF this, of "[''secretName'', ''insecureSkipVerify'', ''caCertKey'', ''certKey'', ''keyKey'']"]
  show "a = b"
    by (cases a; cases b) (simp add: asyncTLSValues_def Let_def entry_eq cong: if_cong)
qed simp

text \<open>A parameter of a transform counts as the JSON value it parses to.\<close>

definition effTransform ::
  "(string \<Rightarrow> val option) \<Rightarrow> AsyncRequestTransform \<Rightarrow> string \<times> string \<times> val smap" where
  "effTransform unmarshal rt =
     (rt_Name rt, rt_Type rt, map (apsnd (jsonAware unmarshal)) (goMap (rt_Parameters rt)))"

lemma json_map: "toJSONAwareMap unmarshal m = VMap (map (apsnd (jsonAware unmarshal)) (goMap m))"
  by (simp add: toJSONAwareMap_def fold_goMap)

lemma transform_eq:
  "transformValues u a = transformValues u b \<longleftrightarrow> effTransform u a = effTransform u b"
proof
  have entries: "entry (transformValues u r) ''name'' = Some (VStr (rt_Name r))"
    "entry (transformValues u r) ''type'' = Some (VStr (rt_Type r))"
    "entry (transformValues u r) ''parameters'' = (if rt_Parameters r \<noteq> []
       then Some (VMap (map (apsnd (jsonAware u)) (goMap (rt_Parameters r)))) else None)" for r
    by (simp_all add: transformValues_def json_map cong: if_cong)
  assume "transformValues u a = transformValues u b"
  then have get: "entry (transformValues u a) k = entry (transformValues u b) k" for k by simp
  have "rt_Parameters a = [] \<longleftrightarrow> rt_Parameters b = []"
    using get [of "''parameters''"] unfolding entries by (metis option.distinct(1))
  then show "effTransform u a = effTransform u b"
    using get [of "''name''"] get [of "''type''"] get [of "''parameters''"] unfolding entries
    by (cases "rt_Parameters a = []") (simp_all add: effTransform_def)
next
  assume "effTransform u a = effTransform u b"
  moreover from this have "goMap (rt_Parameters a) = [] \<longleftrightarrow> goMap (rt_Parameters b) = []"
    by (metis Pair_inject effTransform_def map_is_Nil_conv)
  ultimately show "transformValues u a = transformValues u b"
    by (simp add: transformValues_def effTransform_def json_map setIf_def)
qed

definition asyncOtel :: "OTELSpec \<Rightarrow> OTELSpec" where
  "asyncOtel ot = ot\<lparr>otel_PostgresqlTracing := False\<rparr>"

lemma asyncOtel_eq: "asyncOtelValues a = asyncOtelValues b \<longleftrightarrow> asyncOtel a = asyncOtel b"
proof
  assume "asyncOtelValues a = asyncOtelValues b"
  from same_at [OF this, of "[''endpoint'', ''insecure'', ''sampler'', ''samplerArg'', ''redisTracing'']"]
  show "asyncOtel a = asyncOtel b"
    by (cases a; cases b) (simp add: asyncOtelValues_def Let_def entry_eq asyncOtel_def cong: if_cong)
next
  have "asyncOtelValues (asyncOtel a) = asyncOtelValues a" for a
    by (simp add: asyncOtelValues_def asyncOtel_def)
  then show "asyncOtel a = asyncOtel b \<Longrightarrow> asyncOtelValues a = asyncOtelValues b" by metis
qed

lemma otel_halves:
  "map_option batchOtel p = map_option batchOtel q \<Longrightarrow> map_option asyncOtel p = map_option asyncOtel q \<Longrightarrow> p = q"
  by (cases p; cases q; cases "the p"; cases "the q") (simp_all add: batchOtel_def asyncOtel_def)

definition effMonitor :: "AsyncModelServerMonitorSpec \<Rightarrow> AsyncModelServerMonitorSpec" where
  "effMonitor m = m\<lparr>msm_Enabled := True, msm_Selector := goMap (msm_Selector m)\<rparr>"

lemma monitor_eff: "modelServerMonitorValues (effMonitor m) = modelServerMonitorValues m"
  by (simp add: modelServerMonitorValues_def effMonitor_def)

lemma monitor_eq: "modelServerMonitorValues a = modelServerMonitorValues b \<longleftrightarrow> effMonitor a = effMonitor b"
proof
  have entries: "entry (modelServerMonitorValues m) ''selector'' =
       (if msm_Selector m \<noteq> [] then Some (toStringInterfaceMap (msm_Selector m)) else None)"
    "entry (modelServerMonitorValues m) ''port'' = (if msm_Port m \<noteq> '''' then Some (VStr (msm_Port m)) else None)"
    "entry (modelServerMonitorValues m) ''path'' = (if msm_Path m \<noteq> '''' then Some (VStr (msm_Path m)) else None)"
    "entry (modelServerMonitorValues m) ''interval'' = (if msm_Interval m \<noteq> '''' then Some (VStr (msm_Interval m)) else None)"
    for m by (simp_all add: modelServerMonitorValues_def Let_def cong: if_cong del: string_map_eq)
  assume "modelServerMonitorValues a = modelServerMonitorValues b"
  then have get: "entry (modelServerMonitorValues a) k = entry (modelServerMonitorValues b) k" for k by simp
  have "goMap (msm_Selector a) = goMap (msm_Selector b)"
    using get [of "''selector''"] unfolding entries list_entries .
  moreover have "msm_Port a = msm_Port b" using get [of "''port''"] unfolding entries guarded_entries .
  moreover have "msm_Path a = msm_Path b" using get [of "''path''"] unfolding entries guarded_entries .
  moreover have "msm_Interval a = msm_Interval b" using get [of "''interval''"] unfolding entries guarded_entries .
  ultimately show "effMonitor a = effMonitor b" by (cases a; cases b) (simp add: effMonitor_def)
qed (metis monitor_eff)

text \<open>The values of the async chart, entry by entry.\<close>

abbreviation gatewayURL :: "AsyncProcessorSpec \<Rightarrow> string" where
  "gatewayURL ac \<equiv> (case ac_InferenceGateway ac of None \<Rightarrow> '''' | Some ig \<Rightarrow> ig_URL ig)"

definition apValues ::
  "(string \<Rightarrow> val option) \<Rightarrow> LLMBatchGateway \<Rightarrow> AsyncProcessorSpec \<Rightarrow> string \<Rightarrow> ComponentImages \<Rightarrow> vmap" where
  "apValues unmarshal gw ac n images =
     apTailValues unmarshal (setTransport (apBaseValues ac images) gw ac n (gatewayURL ac)) gw ac"

lemma async_ap_values:
  "specToAsyncHelmValues unmarshal gw n images = (case gwAsync gw of None \<Rightarrow> []
     | Some ac \<Rightarrow> [(''nameOverride'', VStr ''async-processor''), (''ap'', VMap (apValues unmarshal gw ac n images))])"
  by (simp add: specToAsyncHelmValues_def apValues_def Let_def split: option.split)

definition tailKeys :: "string list" where
  "tailKeys = [''workerPools'', ''tls'', ''transformConfig'', ''otel'', ''modelServerMonitor'',
     ''imagePullSecrets'', ''podMonitor'', ''grafana'', ''prometheusRule'']"

lemma tail_other:
  "k \<notin> set tailKeys \<Longrightarrow> go_get (apTailValues unmarshal ap gw ac) k = go_get ap k"
  by (simp add: apTailValues_def tailKeys_def Let_def case_setIf)

lemma transport_other:
  "k \<noteq> ''transport'' \<Longrightarrow> k \<noteq> ''transportConfig'' \<Longrightarrow> go_get (setTransport ap gw ac n u) k = go_get ap k"
  by (simp add: setTransport_def split: option.split)

lemma base_other: "list_all (\<lambda>k. go_get (apBaseValues ac images) k = None) tailKeys"
  by (simp add: apBaseValues_def tailKeys_def Let_def split: prod.split)

lemma base_entries:
  "go_get (apBaseValues ac images) ''replicaCount'' = map_option VInt32 (ac_Replicas ac)"
  "go_get (apBaseValues ac images) ''imagePullPolicy'' =
     (if ac_ImagePullPolicy ac \<noteq> '''' then Some (VStr (ac_ImagePullPolicy ac)) else None)"
  "go_get (apBaseValues ac images) ''concurrency'' = map_option VInt32 (ac_Concurrency ac)"
  "go_get (apBaseValues ac images) ''igwBaseURL'' = map_option (\<lambda>ig. VStr (ig_URL ig)) (ac_InferenceGateway ac)"
  "go_get (apBaseValues ac images) ''resources'' = map_option resourceRequirementsToMap (ac_Resources ac)"
  "go_get (apBaseValues ac images) ''drainTimeout'' =
     (if ac_DrainTimeout ac \<noteq> '''' then Some (VStr (ac_DrainTimeout ac)) else None)"
  "go_get (apBaseValues ac images) ''prometheusURL'' =
     (if ac_PrometheusURL ac \<noteq> '''' then Some (VStr (ac_PrometheusURL ac)) else None)"
  "go_get (apBaseValues ac images) ''prometheusCacheTTL'' =
     (if ac_PrometheusCacheTTL ac \<noteq> '''' then Some (VStr (ac_PrometheusCacheTTL ac)) else None)"
  by (simp_all add: apBaseValues_def Let_def split: prod.split cong: if_cong)

lemma transport_entry:
  "go_get (apBaseValues ac images) ''transport'' = None" "go_get (apBaseValues ac images) ''transportConfig'' = None"
  by (simp_all add: apBaseValues_def Let_def split: prod.split)

lemma ap_head: "k \<notin> set tailKeys \<Longrightarrow> k \<noteq> ''transport'' \<Longrightarrow> k \<noteq> ''transportConfig'' \<Longrightarrow>
    go_get (apValues unmarshal gw ac n images) k = go_get (apBaseValues ac images) k"
  by (simp add: apValues_def tail_other transport_other)

lemma ig_entry:
  "map_option (\<lambda>ig. VStr (ig_URL ig)) p = map_option (\<lambda>ig. VStr (ig_URL ig)) q \<longleftrightarrow> p = (q :: InferenceGatewaySpec option)"
  by (cases p; cases q; cases "the p"; cases "the q") simp_all

lemma ap_head_eq:
  assumes "apValues u a ac n images = apValues u b bc n images"
  shows "ac_Replicas ac = ac_Replicas bc" and "ac_ImagePullPolicy ac = ac_ImagePullPolicy bc"
    and "ac_Concurrency ac = ac_Concurrency bc" and "ac_InferenceGateway ac = ac_InferenceGateway bc"
    and "map_option effResources (ac_Resources ac) = map_option effResources (ac_Resources bc)"
    and "ac_DrainTimeout ac = ac_DrainTimeout bc" and "ac_PrometheusURL ac = ac_PrometheusURL bc"
    and "ac_PrometheusCacheTTL ac = ac_PrometheusCacheTTL bc"
proof -
  have get: "go_get (apBaseValues ac images) k = go_get (apBaseValues bc images) k"
    if "k \<notin> set tailKeys" "k \<noteq> ''transport''" "k \<noteq> ''transportConfig''" for k
    using assms ap_head [OF that] by metis
  show "ac_Replicas ac = ac_Replicas bc"
    using get [of "''replicaCount''"] unfolding base_entries simple_entries by (simp add: tailKeys_def)
  show "ac_ImagePullPolicy ac = ac_ImagePullPolicy bc"
    using get [of "''imagePullPolicy''"] unfolding base_entries guarded_entries by (simp add: tailKeys_def)
  show "ac_Concurrency ac = ac_Concurrency bc"
    using get [of "''concurrency''"] unfolding base_entries simple_entries by (simp add: tailKeys_def)
  show "ac_InferenceGateway ac = ac_InferenceGateway bc"
    using get [of "''igwBaseURL''"] unfolding base_entries ig_entry by (simp add: tailKeys_def)
  show "map_option effResources (ac_Resources ac) = map_option effResources (ac_Resources bc)"
    using get [of "''resources''"] unfolding base_entries map_option_eq [OF resources_eq] by (simp add: tailKeys_def)
  show "ac_DrainTimeout ac = ac_DrainTimeout bc"
    using get [of "''drainTimeout''"] unfolding base_entries guarded_entries by (simp add: tailKeys_def)
  show "ac_PrometheusURL ac = ac_PrometheusURL bc"
    using get [of "''prometheusURL''"] unfolding base_entries guarded_entries by (simp add: tailKeys_def)
  show "ac_PrometheusCacheTTL ac = ac_PrometheusCacheTTL bc"
    using get [of "''prometheusCacheTTL''"] unfolding base_entries guarded_entries by (simp add: tailKeys_def)
qed

lemma transport_entries:
  "go_get (apValues unmarshal gw ac n images) ''transport'' =
     (if ac_Redis ac \<noteq> None then Some (VStr asyncTransportRedis)
      else if ac_SQL ac \<noteq> None then Some (VStr asyncTransportSQL) else None)"
  "go_get (apValues unmarshal gw ac n images) ''transportConfig'' =
     (case ac_Redis ac of
        Some redis \<Rightarrow> Some (VMap (redisTransportConfig gw redis n (gatewayURL ac)))
      | None \<Rightarrow> map_option (\<lambda>sql. VMap (sqlTransportConfig gw sql n (gatewayURL ac))) (ac_SQL ac))"
  unfolding apValues_def ap_tail_keeps setTransport_def
  by (cases "ac_Redis ac"; cases "ac_SQL ac"; simp add: transport_entry)+

text \<open>One transport is configured, as validation demands.\<close>

definition one_transport :: "AsyncProcessorSpec \<Rightarrow> bool" where
  "one_transport ac \<longleftrightarrow> (ac_Redis ac = None) \<noteq> (ac_SQL ac = None)"

lemma ap_transport_eq:
  assumes "apValues u a ac n images = apValues u b bc n images"
    and "one_transport ac" and "one_transport bc" and "batchMaxConnections ac = batchMaxConnections bc"
  shows "map_option (effRedis a (gatewayURL ac)) (ac_Redis ac) = map_option (effRedis b (gatewayURL bc)) (ac_Redis bc)"
    and "map_option (effSQL a (gatewayURL ac)) (ac_SQL ac) = map_option (effSQL b (gatewayURL bc)) (ac_SQL bc)"
proof -
  have get: "go_get (apValues u a ac n images) k = go_get (apValues u b bc n images) k" for k using assms(1) by simp
  have kind: "ac_Redis ac = None \<longleftrightarrow> ac_Redis bc = None"
    using get [of "''transport''"] assms(2,3) unfolding transport_entries one_transport_def
    by (simp add: asyncTransportRedis_def asyncTransportSQL_def split: if_splits)
  note cfg = get [of "''transportConfig''", unfolded transport_entries]
  show "map_option (effRedis a (gatewayURL ac)) (ac_Redis ac) = map_option (effRedis b (gatewayURL bc)) (ac_Redis bc)"
  proof (cases "ac_Redis ac")
    case (Some r)
    with kind obtain r' where "ac_Redis bc = Some r'" by auto
    with Some cfg show ?thesis by (auto intro: redis_eq)
  qed (use kind in simp)
  show "map_option (effSQL a (gatewayURL ac)) (ac_SQL ac) = map_option (effSQL b (gatewayURL bc)) (ac_SQL bc)"
  proof (cases "ac_SQL ac")
    case (Some s)
    with kind assms(2,3) obtain s' where s': "ac_SQL bc = Some s'" and "ac_Redis ac = None" "ac_Redis bc = None"
      by (auto simp: one_transport_def)
    with Some cfg have "sqlTransportConfig a s n (gatewayURL ac) = sqlTransportConfig b s' n (gatewayURL bc)" by simp
    from sql_eq [OF this] assms(4) Some s' show ?thesis by (simp add: batchMaxConnections_def)
  qed (use kind assms(2,3) in \<open>auto simp: one_transport_def\<close>)
qed

definition transforms :: "AsyncProcessorSpec \<Rightarrow> AsyncRequestTransform list" where
  "transforms ac = (case ac_TransformConfig ac of None \<Rightarrow> [] | Some tc \<Rightarrow> tc_RequestTransforms tc)"

lemma setTransforms_entry:
  "setTransforms unmarshal ap ac = setIf (transforms ac \<noteq> []) ap ''transformConfig''
     (VMap [(''requestTransforms'', VList (map (transformValues unmarshal) (transforms ac)))])"
  by (simp add: setTransforms_def transforms_def setIf_def split: option.split)

lemma tail_entries:
  assumes "list_all (\<lambda>k. go_get ap k = None) tailKeys"
  shows "go_get (apTailValues u ap gw ac) ''workerPools'' = (if ac_WorkerPools ac \<noteq> []
      then Some (VList (map workerPoolValues (ac_WorkerPools ac))) else None)"
    and "go_get (apTailValues u ap gw ac) ''tls'' = map_option asyncTLSValues (ac_TLS ac)"
    and "go_get (apTailValues u ap gw ac) ''transformConfig'' = (if transforms ac \<noteq> []
      then Some (VMap [(''requestTransforms'', VList (map (transformValues u) (transforms ac)))]) else None)"
    and "go_get (apTailValues u ap gw ac) ''otel'' = map_option asyncOtelValues (spec_OTEL (gw_Spec gw))"
    and "go_get (apTailValues u ap gw ac) ''modelServerMonitor'' =
      map_option modelServerMonitorValues (only msm_Enabled (ac_ModelServerMonitor ac))"
  using assms
  by (simp_all add: apTailValues_def tailKeys_def Let_def case_setIf setTransforms_entry cong: if_cong)

lemma transforms_entry:
  "(if xs \<noteq> [] then Some (VMap [(''requestTransforms'', VList (map (transformValues u) xs))]) else None)
     = (if ys \<noteq> [] then Some (VMap [(''requestTransforms'', VList (map (transformValues u) ys))]) else None) \<longleftrightarrow>
     map (effTransform u) xs = map (effTransform u) ys"
  using list_entry [of "transformValues u" "effTransform u" xs ys, OF transform_eq] by (simp split: if_splits)

lemma pool_entry:
  "(if xs \<noteq> [] then Some (VList (map workerPoolValues xs)) else None)
     = (if ys \<noteq> [] then Some (VList (map workerPoolValues ys)) else None) \<longleftrightarrow> map effPool xs = map effPool ys"
  by (rule list_entry [OF pool_eq])

lemma ap_tail_eq:
  assumes "apValues u a ac n images = apValues u b bc n images"
  shows "map effPool (ac_WorkerPools ac) = map effPool (ac_WorkerPools bc)" and "ac_TLS ac = ac_TLS bc"
    and "map (effTransform u) (transforms ac) = map (effTransform u) (transforms bc)"
    and "map_option asyncOtel (spec_OTEL (gw_Spec a)) = map_option asyncOtel (spec_OTEL (gw_Spec b))"
    and "map_option effMonitor (only msm_Enabled (ac_ModelServerMonitor ac))
      = map_option effMonitor (only msm_Enabled (ac_ModelServerMonitor bc))"
proof -
  have base: "list_all (\<lambda>k. go_get (setTransport (apBaseValues ac images) gw ac n (gatewayURL ac)) k = None) tailKeys"
    for gw ac using base_other [of ac images] by (simp add: tailKeys_def transport_other)
  have get: "go_get (apValues u a ac n images) k = go_get (apValues u b bc n images) k" for k using assms by simp
  note e = get [unfolded apValues_def] and t1 = tail_entries [OF base]
  show "map effPool (ac_WorkerPools ac) = map effPool (ac_WorkerPools bc)"
    using e [of "''workerPools''"] unfolding t1 pool_entry .
  show "ac_TLS ac = ac_TLS bc"
    using e [of "''tls''"] unfolding t1 map_option_eq [where g = "\<lambda>x. x", OF asyncTLS_eq] by (simp add: option.map_ident)
  show "map (effTransform u) (transforms ac) = map (effTransform u) (transforms bc)"
    using e [of "''transformConfig''"] unfolding t1 transforms_entry .
  show "map_option asyncOtel (spec_OTEL (gw_Spec a)) = map_option asyncOtel (spec_OTEL (gw_Spec b))"
    using e [of "''otel''"] unfolding t1 map_option_eq [OF asyncOtel_eq] .
  show "map_option effMonitor (only msm_Enabled (ac_ModelServerMonitor ac))
      = map_option effMonitor (only msm_Enabled (ac_ModelServerMonitor bc))"
    using e [of "''modelServerMonitor''"] unfolding t1 map_option_eq [OF monitor_eq] .
qed

section \<open>The normal form of a resource\<close>

definition effAsync :: "LLMBatchGateway \<Rightarrow> AsyncProcessorSpec \<Rightarrow> AsyncProcessorSpec" where
  "effAsync gw ac = ac\<lparr>ac_Resources := map_option effResources (ac_Resources ac),
     ac_Redis := map_option (effRedis gw (gatewayURL ac)) (ac_Redis ac),
     ac_SQL := map_option (effSQL gw (gatewayURL ac)) (ac_SQL ac),
     ac_WorkerPools := map effPool (ac_WorkerPools ac),
     ac_TransformConfig := None,
     ac_ModelServerMonitor := map_option effMonitor (only msm_Enabled (ac_ModelServerMonitor ac))\<rparr>"

definition effProcessor :: "LLMBatchGateway \<Rightarrow> ProcessorSpec" where
  "effProcessor gw = (gwProcessor gw)\<lparr>proc_Resources := map_option effResources (proc_Resources (gwProcessor gw)),
     proc_Config := Some (effProcConfigOf (gwProcessor gw)), proc_DispatchMode := '''',
     proc_ModelGateways := goMap (gwModels gw), proc_AsyncConfig := map_option (effAsync gw) (gwAsync gw)\<rparr>"

definition effRule :: "PrometheusRuleSpec \<Rightarrow> PrometheusRuleSpec" where
  "effRule p = p\<lparr>prule_Labels := goMap (prule_Labels p)\<rparr>"

text \<open>
  The normal form, with the request transforms beside it, whose parameters are JSON values.
  \<open>secretRef\<close> goes to the charts as the name of the managed copy only.
\<close>

definition effSpec :: "LLMBatchGateway \<Rightarrow> LLMBatchGatewaySpec" where
  "effSpec gw = (let spec = gw_Spec gw in spec\<lparr>
     spec_SecretRef := \<lparr>ref_Name = '''', ref_Namespace = ''''\<rparr>,
     spec_DBBackend := effBackend spec,
     spec_FileStorage := map_option effStorage (spec_FileStorage spec),
     spec_APIServer := effAPIServer (spec_APIServer spec),
     spec_Processor := effProcessor gw,
     spec_GC := effGC (spec_GC spec),
     spec_Monitoring := only mon_Enabled (spec_Monitoring spec),
     spec_TLS := only tls_Enabled (spec_TLS spec),
     spec_HTTPRoute := map_option effRoute (only hr_Enabled (spec_HTTPRoute spec)),
     spec_PrometheusRule := map_option effRule (spec_PrometheusRule spec)\<rparr>)"

definition settings :: "(string \<Rightarrow> val option) \<Rightarrow> LLMBatchGateway \<Rightarrow>
    LLMBatchGatewaySpec \<times> (string \<times> string \<times> val smap) list option" where
  "settings unmarshal gw =
     (effSpec gw, map_option (\<lambda>ac. map (effTransform unmarshal) (transforms ac)) (gwAsync gw))"

text \<open>What both charts are given.\<close>

definition bothValues ::
  "(string \<Rightarrow> val option) \<Rightarrow> LLMBatchGateway \<Rightarrow> string \<Rightarrow> ComponentImages \<Rightarrow> ProfileValues \<Rightarrow> vmap \<times> vmap" where
  "bothValues unmarshal gw secret images tls =
     (specToBatchHelmValues gw secret images tls, specToAsyncHelmValues unmarshal gw secret images)"

lemma async_eq:
  assumes "apValues u a ac n images = apValues u b bc n images"
    and "asyncDispatchValues a ac = asyncDispatchValues b bc" and "one_transport ac" and "one_transport bc"
  shows "effAsync a ac = effAsync b bc"
proof -
  note d = dispatch_eq [OF assms(2)]
  note h = ap_head_eq [OF assms(1)] and t = ap_tail_eq [OF assms(1)]
    and tr = ap_transport_eq [OF assms(1,3,4) d(3)]
  show ?thesis using h t(1,2,5) tr d(1) unfolding effAsync_def by (cases ac; cases bc) simp
qed

lemma rule_eq: "prometheusRuleValues p = prometheusRuleValues q \<longleftrightarrow> effRule p = effRule q"
proof
  have entries: "entry (prometheusRuleValues r) ''enabled'' = Some (VBool (prule_Enabled r))"
    "entry (prometheusRuleValues r) ''labels'' =
       (if prule_Labels r \<noteq> [] then Some (toStringInterfaceMap (prule_Labels r)) else None)" for r
    by (simp_all add: prometheusRuleValues_def cong: if_cong del: string_map_eq)
  assume "prometheusRuleValues p = prometheusRuleValues q"
  then have get: "entry (prometheusRuleValues p) k = entry (prometheusRuleValues q) k" for k by simp
  have "prule_Enabled p = prule_Enabled q" using get [of "''enabled''"] unfolding entries by simp
  moreover have "goMap (prule_Labels p) = goMap (prule_Labels q)"
    using get [of "''labels''"] unfolding entries list_entries .
  ultimately show "effRule p = effRule q" by (cases p; cases q) (simp add: effRule_def)
next
  have "prometheusRuleValues (effRule p) = prometheusRuleValues p" for p
    by (simp add: prometheusRuleValues_def effRule_def)
  then show "effRule p = effRule q \<Longrightarrow> prometheusRuleValues p = prometheusRuleValues q" by metis
qed

lemma extra_sections:
  "go_get (specToBatchHelmValues gw n images tls) ''grafana'' =
     map_option (\<lambda>g. grafanaValues (grafana_Enabled g)) (spec_Grafana (gw_Spec gw))"
  "go_get (specToBatchHelmValues gw n images tls) ''prometheusRule'' =
     map_option prometheusRuleValues (spec_PrometheusRule (gw_Spec gw))"
  by (simp_all add: specToBatchHelmValues_def Let_def)

lemma grafana_eq:
  "map_option (\<lambda>g. grafanaValues (grafana_Enabled g)) p = map_option (\<lambda>g. grafanaValues (grafana_Enabled g)) q \<longleftrightarrow>
     p = (q :: GrafanaSpec option)"
  by (cases p; cases q; cases "the p"; cases "the q") (simp_all add: grafanaValues_def)

lemma monitoring_only: "monitoringEnabled a = monitoringEnabled b \<longleftrightarrow>
    only mon_Enabled (spec_Monitoring (gw_Spec a)) = only mon_Enabled (spec_Monitoring (gw_Spec b))"
  by (cases "spec_Monitoring (gw_Spec a)"; cases "spec_Monitoring (gw_Spec b)";
      cases "the (spec_Monitoring (gw_Spec a))"; cases "the (spec_Monitoring (gw_Spec b))")
    (auto simp: monitoringEnabled_def)

lemma effProcessor_eqI:
  assumes "proc_ImagePullPolicy (gwProcessor a) = proc_ImagePullPolicy (gwProcessor b)"
    and "proc_Replicas (gwProcessor a) = proc_Replicas (gwProcessor b)"
    and "map_option effResources (proc_Resources (gwProcessor a)) = map_option effResources (proc_Resources (gwProcessor b))"
    and "effProcConfigOf (gwProcessor a) = effProcConfigOf (gwProcessor b)"
    and "goMap (gwModels a) = goMap (gwModels b)"
    and "map_option (effAsync a) (gwAsync a) = map_option (effAsync b) (gwAsync b)"
  shows "effProcessor a = effProcessor b"
  unfolding effProcessor_def using assms by (cases "gwProcessor a"; cases "gwProcessor b") simp

lemma effSpec_eqI:
  assumes "effBackend (gw_Spec a) = effBackend (gw_Spec b)"
    and "spec_ExtraEndpoints (gw_Spec a) = spec_ExtraEndpoints (gw_Spec b)"
    and "map_option effStorage (spec_FileStorage (gw_Spec a)) = map_option effStorage (spec_FileStorage (gw_Spec b))"
    and "effAPIServer (spec_APIServer (gw_Spec a)) = effAPIServer (spec_APIServer (gw_Spec b))"
    and "effProcessor a = effProcessor b" and "effGC (spec_GC (gw_Spec a)) = effGC (spec_GC (gw_Spec b))"
    and "only mon_Enabled (spec_Monitoring (gw_Spec a)) = only mon_Enabled (spec_Monitoring (gw_Spec b))"
    and "spec_Grafana (gw_Spec a) = spec_Grafana (gw_Spec b)"
    and "only tls_Enabled (spec_TLS (gw_Spec a)) = only tls_Enabled (spec_TLS (gw_Spec b))"
    and "map_option effRoute (only hr_Enabled (spec_HTTPRoute (gw_Spec a)))
      = map_option effRoute (only hr_Enabled (spec_HTTPRoute (gw_Spec b)))"
    and "spec_OTEL (gw_Spec a) = spec_OTEL (gw_Spec b)"
    and "map_option effRule (spec_PrometheusRule (gw_Spec a)) = map_option effRule (spec_PrometheusRule (gw_Spec b))"
    and "spec_ImagePullSecrets (gw_Spec a) = spec_ImagePullSecrets (gw_Spec b)"
  shows "effSpec a = effSpec b"
  unfolding effSpec_def Let_def using assms by (cases "gw_Spec a"; cases "gw_Spec b") simp

lemma valid_one_transport:
  assumes "valid_spec gw"
  obtains ac where "gwAsync gw = Some ac" and "one_transport ac"
  using assms by (force simp: valid_spec_def one_transport_def)

lemma values_determine_settings:
  assumes "bothValues u a n images tls = bothValues u b n images tls"
    and "valid_spec a" and "valid_spec b"
  shows "settings u a = settings u b"
proof -
  obtain ac bc where ac: "gwAsync a = Some ac" "one_transport ac" and bc: "gwAsync b = Some bc" "one_transport bc"
    using assms(2,3) by (metis valid_one_transport)
  have batch: "go_get (specToBatchHelmValues a n images tls) k = go_get (specToBatchHelmValues b n images tls) k" for k
    using assms(1) by (simp add: bothValues_def)
  have ap: "apValues u a ac n images = apValues u b bc n images"
    using assms(1) by (simp add: bothValues_def async_ap_values ac bc)
  have "globalValues a n = globalValues b n" using batch [of "''global''"] unfolding batch_sections by simp
  note g = global_eq [OF this]
  have "apiserverValues a images tls = apiserverValues b images tls"
    using batch [of "''apiserver''"] unfolding batch_sections by simp
  note s = apiserver_eq [OF this g(3)]
  have "processorValues a images = processorValues b images"
    using batch [of "''processor''"] unfolding batch_sections by simp
  note p = processor_eq [OF this]
  have "gcValues a images = gcValues b images" using batch [of "''gc''"] unfolding batch_sections by simp
  note gc = gc_eq [OF this]
  have disp: "asyncDispatchValues a ac = asyncDispatchValues b bc" using p(5) ac bc by simp
  note t = ap_tail_eq [OF ap]
  have proc: "effProcessor a = effProcessor b"
    by (rule effProcessor_eqI [OF p(1-4) dispatch_eq(4) [OF disp]])
      (simp add: ac bc async_eq [OF ap disp])
  have graf: "spec_Grafana (gw_Spec a) = spec_Grafana (gw_Spec b)"
    using batch [of "''grafana''"] unfolding extra_sections grafana_eq .
  have rule: "map_option effRule (spec_PrometheusRule (gw_Spec a)) = map_option effRule (spec_PrometheusRule (gw_Spec b))"
    using batch [of "''prometheusRule''"] unfolding extra_sections map_option_eq [OF rule_eq] .
  have "effSpec a = effSpec b"
    by (rule effSpec_eqI [OF g(1,2,4) s(1) proc gc monitoring_only [THEN iffD1, OF s(4)] graf s(2,3)
          otel_halves [OF g(5) t(4)] rule g(6)])
  then show ?thesis using t(3) by (simp add: settings_def ac bc)
qed

section \<open>The values depend on the normal form only\<close>

lemma setSome_cong: "map_option f p = map_option g q \<Longrightarrow> m = m' \<Longrightarrow> setSome m k f p = setSome m' k g q"
  by (cases p; cases q) (simp_all add: setSome_def)

lemma global_cong:
  assumes "effBackend (gw_Spec a) = effBackend (gw_Spec b)"
    and "spec_ExtraEndpoints (gw_Spec a) = spec_ExtraEndpoints (gw_Spec b)"
    and "maxInputFileSize (gw_Spec a) = maxInputFileSize (gw_Spec b)"
    and "map_option effStorage (spec_FileStorage (gw_Spec a)) = map_option effStorage (spec_FileStorage (gw_Spec b))"
    and "spec_OTEL (gw_Spec a) = spec_OTEL (gw_Spec b)"
    and "spec_ImagePullSecrets (gw_Spec a) = spec_ImagePullSecrets (gw_Spec b)"
  shows "globalValues a n = globalValues b n"
proof -
  have "setSome m k fileClientValues (spec_FileStorage (gw_Spec a))
      = setSome m k fileClientValues (spec_FileStorage (gw_Spec b))" for m k
    by (rule setSome_cong) (simp_all add: map_option_eq [OF storage_eq] assms(4))
  with assms show ?thesis by (simp add: globalValues_def Let_def effBackend_def)
qed

lemma effAPIConfig_full: "effAPIConfig (effFullAPIConfig c) = effAPIConfig c"
  by (cases "apicfg_FileAPI c"; cases "apicfg_BatchAPI c")
    (auto simp: effAPIConfig_def effFullAPIConfig_def unsized_def zeroFileAPI_def)

lemma full_config_parts:
  assumes "effFullAPIConfig c = effFullAPIConfig d"
  shows "apiServerConfigToMap c = apiServerConfigToMap d" and "loud (apicfg_Logging c) = loud (apicfg_Logging d)"
    and "only (\<lambda>x. x \<noteq> zeroFileAPI) (apicfg_FileAPI c) = only (\<lambda>x. x \<noteq> zeroFileAPI) (apicfg_FileAPI d)"
proof -
  show "apiServerConfigToMap c = apiServerConfigToMap d"
    unfolding apiConfig_eq using assms by (metis effAPIConfig_full)
  show "loud (apicfg_Logging c) = loud (apicfg_Logging d)"
    using arg_cong [OF assms, of apicfg_Logging] by (simp add: effFullAPIConfig_def)
  show "only (\<lambda>x. x \<noteq> zeroFileAPI) (apicfg_FileAPI c) = only (\<lambda>x. x \<noteq> zeroFileAPI) (apicfg_FileAPI d)"
    using arg_cong [OF assms, of apicfg_FileAPI] by (simp add: effFullAPIConfig_def)
qed

lemma file_size_only:
  "(case only (\<lambda>x. x \<noteq> zeroFileAPI) p of None \<Rightarrow> None
     | Some f \<Rightarrow> if file_MaxSizeBytes f \<noteq> 0 then Some (file_MaxSizeBytes f) else None)
   = (case p of None \<Rightarrow> None | Some f \<Rightarrow> if file_MaxSizeBytes f \<noteq> 0 then Some (file_MaxSizeBytes f) else None)"
  by (cases p) (auto simp: zeroFileAPI_def)

lemma configs_cong:
  assumes "map_option effFullAPIConfig p = map_option effFullAPIConfig q"
  shows "(case p of None \<Rightarrow> m | Some c \<Rightarrow> setLogging (go_set m ''config'' (apiServerConfigToMap c)) (apicfg_Logging c))
    = (case q of None \<Rightarrow> m | Some c \<Rightarrow> setLogging (go_set m ''config'' (apiServerConfigToMap c)) (apicfg_Logging c))"
proof (cases p; cases q)
  fix c d
  assume cd: "p = Some c" "q = Some d"
  with assms have "effFullAPIConfig c = effFullAPIConfig d" by simp
  note parts = full_config_parts(1,2) [OF this]
  show ?thesis unfolding cd option.case setLogging_only parts ..
qed (use assms in simp_all)

lemma apiserver_cong:
  assumes "effAPIServer (spec_APIServer (gw_Spec a)) = effAPIServer (spec_APIServer (gw_Spec b))"
    and "only tls_Enabled (spec_TLS (gw_Spec a)) = only tls_Enabled (spec_TLS (gw_Spec b))"
    and "map_option effRoute (only hr_Enabled (spec_HTTPRoute (gw_Spec a)))
      = map_option effRoute (only hr_Enabled (spec_HTTPRoute (gw_Spec b)))"
    and "monitoringEnabled a = monitoringEnabled b"
  shows "apiserverValues a images pv = apiserverValues b images pv"
    and "maxInputFileSize (gw_Spec a) = maxInputFileSize (gw_Spec b)"
proof -
  let ?A = "spec_APIServer (gw_Spec a)" and ?B = "spec_APIServer (gw_Spec b)"
  have pol: "api_ImagePullPolicy ?A = api_ImagePullPolicy ?B" and rep: "api_Replicas ?A = api_Replicas ?B"
    and res: "map_option effResources (api_Resources ?A) = map_option effResources (api_Resources ?B)"
    and cfg: "map_option effFullAPIConfig (api_Config ?A) = map_option effFullAPIConfig (api_Config ?B)"
    using arg_cong [OF assms(1), of api_ImagePullPolicy] arg_cong [OF assms(1), of api_Replicas]
      arg_cong [OF assms(1), of api_Resources] arg_cong [OF assms(1), of api_Config]
    by (simp_all add: effAPIServer_def)
  have r: "setSome m k resourceRequirementsToMap (api_Resources ?A) = setSome m k resourceRequirementsToMap (api_Resources ?B)"
    for m k by (rule setSome_cong) (simp_all add: map_option_eq [OF resources_eq] res)
  have h: "setSome m k httpRouteValues (only hr_Enabled (spec_HTTPRoute (gw_Spec a)))
      = setSome m k httpRouteValues (only hr_Enabled (spec_HTTPRoute (gw_Spec b)))" for m k
    by (rule setSome_cong) (simp_all add: route_entry assms(3))
  have t: "tlsValues (spec_TLS (gw_Spec a)) pv = tlsValues (spec_TLS (gw_Spec b)) pv"
    unfolding tls_eq by (rule assms(2))
  show "apiserverValues a images pv = apiserverValues b images pv"
    unfolding apiserverValues_def Let_def case_setIf pol rep r configs_cong [OF cfg] t h assms(4) ..
  show "maxInputFileSize (gw_Spec a) = maxInputFileSize (gw_Spec b)"
  proof (cases "api_Config ?A"; cases "api_Config ?B")
    fix c d
    assume cd: "api_Config ?A = Some c" "api_Config ?B = Some d"
    with cfg have "effFullAPIConfig c = effFullAPIConfig d" by simp
    note parts = full_config_parts(3) [OF this]
    show ?thesis
      unfolding maxInputFileSize_def cd option.case
      using file_size_only [of "apicfg_FileAPI c"] file_size_only [of "apicfg_FileAPI d"] unfolding parts by simp
  qed (use cfg in \<open>simp_all add: maxInputFileSize_def\<close>)
qed

lemma merge_eff: "mergeProcessorConfig m (effProcConfig c) = mergeProcessorConfig m c"
  by (simp add: mergeProcessorConfig_def Let_def case_setSubmap effProcConfig_def concurrency_only resumable_only)

lemma merge_cong: "effProcConfig c = effProcConfig d \<Longrightarrow> mergeProcessorConfig m c = mergeProcessorConfig m d"
  by (metis merge_eff)

lemma loud_proc: "effProcConfig c = effProcConfig d \<Longrightarrow> loud (pcfg_Logging c) = loud (pcfg_Logging d)"
  by (drule arg_cong [where f = pcfg_Logging]) (simp add: effProcConfig_def)

lemma dispatch_normal:
  "asyncDispatchValues gw ac = VMap (setIf (goMap (gwModels gw) \<noteq> [])
     (setSome (setSome [(''resultPollTimeout'', VStr (ac_ResultPollTimeout ac))] ''transport'' VStr (batchTransport ac))
        ''maxConnections'' VInt32 (batchMaxConnections ac))
     ''models'' (VMap (map (apsnd asyncModelGatewayToMap) (goMap (gwModels gw)))))"
  by (cases "ac_SQL ac"; cases "ac_Redis ac";
      simp add: asyncDispatchValues_def Let_def batchTransport_def batchMaxConnections_def fold_goMap
        setSome_def setIf_def)

lemma dispatch_cong:
  assumes "ac_ResultPollTimeout ac = ac_ResultPollTimeout bc" and "batchTransport ac = batchTransport bc"
    and "batchMaxConnections ac = batchMaxConnections bc" and "goMap (gwModels a) = goMap (gwModels b)"
  shows "asyncDispatchValues a ac = asyncDispatchValues b bc"
  unfolding dispatch_normal assms ..

lemma logging_case:
  "(case p of None \<Rightarrow> m | Some c \<Rightarrow> setLogging m (pcfg_Logging c)) =
     setSome m ''logging'' (\<lambda>lc. VMap [(''verbosity'', VInt32 (log_Verbosity lc))])
       (loud (pcfg_Logging (orZero zeroProcConfig p)))"
  by (cases p) (simp_all add: setLogging_only zeroProcConfig_def setSome_def)

lemma processor_cong:
  assumes "effProcessor a = effProcessor b" and "monitoringEnabled a = monitoringEnabled b"
    and "map_option (asyncDispatchValues a) (gwAsync a) = map_option (asyncDispatchValues b) (gwAsync b)"
  shows "processorValues a images = processorValues b images"
proof -
  let ?A = "gwProcessor a" and ?B = "gwProcessor b"
  have pol: "proc_ImagePullPolicy ?A = proc_ImagePullPolicy ?B" and rep: "proc_Replicas ?A = proc_Replicas ?B"
    and res: "map_option effResources (proc_Resources ?A) = map_option effResources (proc_Resources ?B)"
    and cfg: "effProcConfig (orZero zeroProcConfig (proc_Config ?A)) = effProcConfig (orZero zeroProcConfig (proc_Config ?B))"
    using arg_cong [OF assms(1), of proc_ImagePullPolicy] arg_cong [OF assms(1), of proc_Replicas]
      arg_cong [OF assms(1), of proc_Resources] arg_cong [OF assms(1), of proc_Config]
    by (simp_all add: effProcessor_def effProcConfigOf_def)
  have r: "setSome m k resourceRequirementsToMap (proc_Resources ?A) = setSome m k resourceRequirementsToMap (proc_Resources ?B)"
    for m k by (rule setSome_cong) (simp_all add: map_option_eq [OF resources_eq] res)
  have "procConfigValues a = procConfigValues b"
    unfolding procConfig_merge using merge_cong [OF cfg] setSome_cong [OF assms(3) refl] by metis
  then show ?thesis
    unfolding processorValues_def Let_def logging_case pol rep r loud_proc [OF cfg] assms(2) by simp
qed

lemma gc_config_normal:
  "gcConfigValues g = (let c = orZero zeroGCConfig (gc_Config g) in
     setSubmap (setSome (setIf (gccfg_DryRun c) [] ''dryRun'' (VBool True)) ''reconciler'' gcReconcilerValues
        (gccfg_Reconciler c)) ''collector''
       (setInt32 (setIfNotEmpty [] ''interval'' (gc_Interval g)) ''maxConcurrency'' (gccfg_MaxConcurrency c)))"
  by (cases "gc_Config g")
    (simp_all add: gcConfigValues_def gcCollectorValues_def Let_def zeroGCConfig_def setIf_def setInt32_def setSome_def)

lemma gc_logging_case:
  "(case p of None \<Rightarrow> m | Some c \<Rightarrow> setLogging m (gccfg_Logging c)) =
     setSome m ''logging'' (\<lambda>lc. VMap [(''verbosity'', VInt32 (log_Verbosity lc))])
       (loud (gccfg_Logging (orZero zeroGCConfig p)))"
  by (cases p) (simp_all add: setLogging_only zeroGCConfig_def setSome_def)

lemma gc_cong:
  assumes "effGC (spec_GC (gw_Spec a)) = effGC (spec_GC (gw_Spec b))" and "monitoringEnabled a = monitoringEnabled b"
  shows "gcValues a images = gcValues b images"
proof -
  let ?A = "spec_GC (gw_Spec a)" and ?B = "spec_GC (gw_Spec b)"
  have pol: "gc_ImagePullPolicy ?A = gc_ImagePullPolicy ?B" and rep: "gc_Replicas ?A = gc_Replicas ?B"
    and ivl: "gc_Interval ?A = gc_Interval ?B"
    and res: "map_option effResources (gc_Resources ?A) = map_option effResources (gc_Resources ?B)"
    and cfg: "(orZero zeroGCConfig (gc_Config ?A))\<lparr>gccfg_Logging := loud (gccfg_Logging (orZero zeroGCConfig (gc_Config ?A)))\<rparr>
      = (orZero zeroGCConfig (gc_Config ?B))\<lparr>gccfg_Logging := loud (gccfg_Logging (orZero zeroGCConfig (gc_Config ?B)))\<rparr>"
    using arg_cong [OF assms(1), of gc_ImagePullPolicy] arg_cong [OF assms(1), of gc_Replicas]
      arg_cong [OF assms(1), of gc_Interval] arg_cong [OF assms(1), of gc_Resources] arg_cong [OF assms(1), of gc_Config]
    by (simp_all add: effGC_def Let_def)
  have parts: "gccfg_DryRun (orZero zeroGCConfig (gc_Config ?A)) = gccfg_DryRun (orZero zeroGCConfig (gc_Config ?B))"
    "gccfg_MaxConcurrency (orZero zeroGCConfig (gc_Config ?A)) = gccfg_MaxConcurrency (orZero zeroGCConfig (gc_Config ?B))"
    "gccfg_Reconciler (orZero zeroGCConfig (gc_Config ?A)) = gccfg_Reconciler (orZero zeroGCConfig (gc_Config ?B))"
    "loud (gccfg_Logging (orZero zeroGCConfig (gc_Config ?A))) = loud (gccfg_Logging (orZero zeroGCConfig (gc_Config ?B)))"
    using arg_cong [OF cfg, of gccfg_DryRun] arg_cong [OF cfg, of gccfg_MaxConcurrency]
      arg_cong [OF cfg, of gccfg_Reconciler] arg_cong [OF cfg, of gccfg_Logging] by simp_all
  have r: "setSome m k resourceRequirementsToMap (gc_Resources ?A) = setSome m k resourceRequirementsToMap (gc_Resources ?B)"
    for m k by (rule setSome_cong) (simp_all add: map_option_eq [OF resources_eq] res)
  show ?thesis
    unfolding gcValues_def Let_def gc_logging_case gc_config_normal pol rep ivl parts r assms(2) ..
qed

lemma queue_normal: "asyncQueueValue q u = asyncQueueValue (effQueue u q) ''''"
  by (simp add: asyncQueueValue_def effQueue_def Let_def)

lemma queues_cong:
  assumes "map (effQueue u) qs = map (effQueue u') qs'"
  shows "asyncQueueValues qs u = asyncQueueValues qs' u'"
proof -
  have "asyncQueueValues qs u = VList (map (\<lambda>q. asyncQueueValue q '''') (map (effQueue u) qs))" for qs u
    by (simp add: asyncQueueValues_def queue_normal [of _ u])
  with assms show ?thesis by metis
qed

lemma redis_cong:
  assumes "effRedis a u r = effRedis b u' r'" and "redisTracing a = redisTracing b"
  shows "redisTransportConfig a r n u = redisTransportConfig b r' n u'"
proof -
  have "redis_PollIntervalMs r = redis_PollIntervalMs r'" "redis_BatchSize r = redis_BatchSize r'"
    and qs: "map (effQueue u) (redisQueues a r) = map (effQueue u') (redisQueues b r')"
    using arg_cong [OF assms(1), of redis_PollIntervalMs] arg_cong [OF assms(1), of redis_BatchSize]
      arg_cong [OF assms(1), of redis_QueuesConfig] by (simp_all add: effRedis_def)
  then show ?thesis unfolding redisTransportConfig_def Let_def queues_cong [OF qs] assms(2) by simp
qed

lemma sql_cong:
  assumes "effSQL a u s = effSQL b u' s'" and "gwModels a = gwModels b"
  shows "sqlTransportConfig a s n u = sqlTransportConfig b s' n u'" and "sql_MaxConnections s = sql_MaxConnections s'"
proof -
  have "sql_PollIntervalMs s = sql_PollIntervalMs s'" "sql_BatchSize s = sql_BatchSize s'"
    "sql_ResultBatchSize s = sql_ResultBatchSize s'" "sql_LeaseTTLSeconds s = sql_LeaseTTLSeconds s'"
    "sql_HandoffTimeoutSeconds s = sql_HandoffTimeoutSeconds s'"
    and qs: "map (effQueue u) (sqlQueues a s) = map (effQueue u') (sqlQueues b s')"
    using arg_cong [OF assms(1), of sql_PollIntervalMs] arg_cong [OF assms(1), of sql_BatchSize]
      arg_cong [OF assms(1), of sql_ResultBatchSize] arg_cong [OF assms(1), of sql_LeaseTTLSeconds]
      arg_cong [OF assms(1), of sql_HandoffTimeoutSeconds] arg_cong [OF assms(1), of sql_QueuesConfig]
    by (simp_all add: effSQL_def)
  moreover have "sqlResultQueueName a = sqlResultQueueName b"
    using assms(2) by (simp add: sqlResultQueueName_def sortedModelGateways_def sortedModelNames_def
        modelGateway_def [abs_def])
  ultimately show "sqlTransportConfig a s n u = sqlTransportConfig b s' n u'"
    unfolding sqlTransportConfig_def Let_def queues_cong [OF qs] by simp
  show "sql_MaxConnections s = sql_MaxConnections s'"
    using arg_cong [OF assms(1), of sql_MaxConnections] by (simp add: effSQL_def)
qed

lemma async_parts:
  assumes "effAsync a ac = effAsync b bc"
  shows "ac_Replicas ac = ac_Replicas bc" "ac_ImagePullPolicy ac = ac_ImagePullPolicy bc"
    "ac_Concurrency ac = ac_Concurrency bc" "ac_InferenceGateway ac = ac_InferenceGateway bc"
    "map_option effResources (ac_Resources ac) = map_option effResources (ac_Resources bc)"
    "ac_DrainTimeout ac = ac_DrainTimeout bc" "ac_PrometheusURL ac = ac_PrometheusURL bc"
    "ac_PrometheusCacheTTL ac = ac_PrometheusCacheTTL bc" "ac_ResultPollTimeout ac = ac_ResultPollTimeout bc"
    "ac_TLS ac = ac_TLS bc" "map effPool (ac_WorkerPools ac) = map effPool (ac_WorkerPools bc)"
    "map_option effMonitor (only msm_Enabled (ac_ModelServerMonitor ac))
       = map_option effMonitor (only msm_Enabled (ac_ModelServerMonitor bc))"
    "map_option (effRedis a (gatewayURL ac)) (ac_Redis ac) = map_option (effRedis b (gatewayURL bc)) (ac_Redis bc)"
    "map_option (effSQL a (gatewayURL ac)) (ac_SQL ac) = map_option (effSQL b (gatewayURL bc)) (ac_SQL bc)"
  using assms unfolding effAsync_def by (cases ac; cases bc; simp)+

lemma base_cong:
  assumes "effAsync a ac = effAsync b bc"
  shows "apBaseValues ac images = apBaseValues bc images"
proof -
  note p = async_parts [OF assms]
  have r: "setSome m k resourceRequirementsToMap (ac_Resources ac) = setSome m k resourceRequirementsToMap (ac_Resources bc)"
    for m k by (rule setSome_cong) (simp_all add: map_option_eq [OF resources_eq] p(5))
  show ?thesis unfolding apBaseValues_def Let_def p(1-4,6-8) r ..
qed

lemma map_option_eqE:
  assumes "map_option f p = map_option g q"
  obtains "p = None" "q = None" | x y where "p = Some x" "q = Some y" "f x = g y"
  using assms by (cases p; cases q) auto

lemma transport_cong:
  assumes "effAsync a ac = effAsync b bc" and "gwModels a = gwModels b" and "redisTracing a = redisTracing b"
  shows "setTransport ap a ac n (gatewayURL ac) = setTransport ap b bc n (gatewayURL bc)"
    and "batchTransport ac = batchTransport bc" and "batchMaxConnections ac = batchMaxConnections bc"
proof -
  note p = async_parts [OF assms(1)]
  show "setTransport ap a ac n (gatewayURL ac) = setTransport ap b bc n (gatewayURL bc)"
    using p(13)
  proof (cases rule: map_option_eqE)
    case 1
    show ?thesis
      using p(14) by (cases rule: map_option_eqE) (simp_all add: 1 setTransport_def sql_cong(1) [OF _ assms(2)])
  next
    case (2 r r')
    then show ?thesis by (simp add: setTransport_def redis_cong [OF 2(3) assms(3)])
  qed
  show "batchTransport ac = batchTransport bc"
    using p(13)
  proof (cases rule: map_option_eqE)
    case 1
    show ?thesis using p(14) by (cases rule: map_option_eqE) (simp_all add: 1 batchTransport_def)
  next
    case 2
    show ?thesis using p(14) by (cases rule: map_option_eqE) (simp_all add: 2 batchTransport_def)
  qed
  show "batchMaxConnections ac = batchMaxConnections bc"
    using p(14) by (cases rule: map_option_eqE) (simp_all add: batchMaxConnections_def sql_cong(2) [OF _ assms(2)])
qed

lemma tail_cong:
  assumes "effAsync a ac = effAsync b bc"
    and "map (effTransform u) (transforms ac) = map (effTransform u) (transforms bc)"
    and "spec_OTEL (gw_Spec a) = spec_OTEL (gw_Spec b)"
    and "spec_ImagePullSecrets (gw_Spec a) = spec_ImagePullSecrets (gw_Spec b)"
    and "monitoringEnabled a = monitoringEnabled b" and "spec_Grafana (gw_Spec a) = spec_Grafana (gw_Spec b)"
    and "map_option effRule (spec_PrometheusRule (gw_Spec a)) = map_option effRule (spec_PrometheusRule (gw_Spec b))"
  shows "apTailValues u ap a ac = apTailValues u ap b bc"
proof -
  note p = async_parts [OF assms(1)]
  have pools: "map workerPoolValues (ac_WorkerPools ac) = map workerPoolValues (ac_WorkerPools bc)"
    unfolding map_eq_eff [OF pool_eq] by (rule p(11))
  have some: "ac_WorkerPools ac \<noteq> [] \<longleftrightarrow> ac_WorkerPools bc \<noteq> []" using p(11) by (metis map_is_Nil_conv)
  have tr: "map (transformValues u) (transforms ac) = map (transformValues u) (transforms bc)"
    unfolding map_eq_eff [where n = "effTransform u", OF transform_eq] by (rule assms(2))
  have trs: "transforms ac \<noteq> [] \<longleftrightarrow> transforms bc \<noteq> []" using assms(2) by (metis map_is_Nil_conv)
  have mon: "setSome m k modelServerMonitorValues (only msm_Enabled (ac_ModelServerMonitor ac))
      = setSome m k modelServerMonitorValues (only msm_Enabled (ac_ModelServerMonitor bc))" for m k
    by (rule setSome_cong) (simp_all add: map_option_eq [OF monitor_eq] p(12))
  have rule: "(case spec_PrometheusRule (gw_Spec a) of None \<Rightarrow> m
        | Some r \<Rightarrow> setIf (prule_Enabled r) m ''prometheusRule'' (prometheusRuleValues r))
      = (case spec_PrometheusRule (gw_Spec b) of None \<Rightarrow> m
        | Some r \<Rightarrow> setIf (prule_Enabled r) m ''prometheusRule'' (prometheusRuleValues r))" for m
    using assms(7)
  proof (cases rule: map_option_eqE)
    case (2 x y)
    from arg_cong [OF 2(3), of prule_Enabled] 2 rule_eq [of x y] show ?thesis by (simp add: effRule_def)
  qed simp
  show ?thesis
    unfolding apTailValues_def Let_def setTransforms_entry case_setIf [where p = "ac_ModelServerMonitor ac"]
      case_setIf [where p = "ac_ModelServerMonitor bc"] pools some tr trs mon p(10) assms(3-6) rule ..
qed

lemma ap_cong:
  assumes "effAsync a ac = effAsync b bc" and "gwModels a = gwModels b"
    and "map (effTransform u) (transforms ac) = map (effTransform u) (transforms bc)"
    and "spec_OTEL (gw_Spec a) = spec_OTEL (gw_Spec b)"
    and "spec_ImagePullSecrets (gw_Spec a) = spec_ImagePullSecrets (gw_Spec b)"
    and "monitoringEnabled a = monitoringEnabled b" and "spec_Grafana (gw_Spec a) = spec_Grafana (gw_Spec b)"
    and "map_option effRule (spec_PrometheusRule (gw_Spec a)) = map_option effRule (spec_PrometheusRule (gw_Spec b))"
  shows "apValues u a ac n images = apValues u b bc n images"
proof -
  have tracing: "redisTracing a = redisTracing b" by (simp add: redisTracing_def assms(4))
  show ?thesis
    unfolding apValues_def base_cong [OF assms(1)] transport_cong(1) [OF assms(1,2) tracing]
    by (rule tail_cong [OF assms(1,3-8)])
qed

lemma spec_parts:
  assumes "effSpec a = effSpec b"
  shows "effBackend (gw_Spec a) = effBackend (gw_Spec b)"
    "spec_ExtraEndpoints (gw_Spec a) = spec_ExtraEndpoints (gw_Spec b)"
    "map_option effStorage (spec_FileStorage (gw_Spec a)) = map_option effStorage (spec_FileStorage (gw_Spec b))"
    "effAPIServer (spec_APIServer (gw_Spec a)) = effAPIServer (spec_APIServer (gw_Spec b))"
    "effProcessor a = effProcessor b" "effGC (spec_GC (gw_Spec a)) = effGC (spec_GC (gw_Spec b))"
    "only mon_Enabled (spec_Monitoring (gw_Spec a)) = only mon_Enabled (spec_Monitoring (gw_Spec b))"
    "spec_Grafana (gw_Spec a) = spec_Grafana (gw_Spec b)"
    "only tls_Enabled (spec_TLS (gw_Spec a)) = only tls_Enabled (spec_TLS (gw_Spec b))"
    "map_option effRoute (only hr_Enabled (spec_HTTPRoute (gw_Spec a)))
       = map_option effRoute (only hr_Enabled (spec_HTTPRoute (gw_Spec b)))"
    "spec_OTEL (gw_Spec a) = spec_OTEL (gw_Spec b)"
    "map_option effRule (spec_PrometheusRule (gw_Spec a)) = map_option effRule (spec_PrometheusRule (gw_Spec b))"
    "spec_ImagePullSecrets (gw_Spec a) = spec_ImagePullSecrets (gw_Spec b)"
  using assms unfolding effSpec_def Let_def by (cases "gw_Spec a"; cases "gw_Spec b"; simp)+

lemma settings_determine_values:
  assumes "settings u a = settings u b" and "wf_gateway a" and "wf_gateway b"
  shows "bothValues u a n images tls = bothValues u b n images tls"
proof -
  from assms(1) have spec: "effSpec a = effSpec b"
    and tr: "map_option (\<lambda>ac. map (effTransform u) (transforms ac)) (gwAsync a)
      = map_option (\<lambda>ac. map (effTransform u) (transforms ac)) (gwAsync b)"
    by (simp_all add: settings_def)
  note p = spec_parts [OF spec]
  have goModels: "goMap (gwModels a) = goMap (gwModels b)"
    and async: "map_option (effAsync a) (gwAsync a) = map_option (effAsync b) (gwAsync b)"
    using arg_cong [OF p(5), of proc_ModelGateways] arg_cong [OF p(5), of proc_AsyncConfig]
    by (simp_all add: effProcessor_def)
  have models: "gwModels a = gwModels b"
    using goModels assms(2,3) by (simp add: wf_gateway_def goMap_wf)
  have tracing: "redisTracing a = redisTracing b" by (simp add: redisTracing_def p(11))
  note mon = monitoring_only [THEN iffD2, OF p(7)]
  note api = apiserver_cong [OF p(4,9,10) mon]
  have disp: "map_option (asyncDispatchValues a) (gwAsync a) = map_option (asyncDispatchValues b) (gwAsync b)"
    using async
  proof (cases rule: map_option_eqE)
    case (2 ac bc)
    note t = transport_cong(2,3) [OF 2(3) models tracing]
    from dispatch_cong [OF async_parts(9) [OF 2(3)] t goModels] 2 show ?thesis by simp
  qed simp
  have "specToAsyncHelmValues u a n images = specToAsyncHelmValues u b n images"
    using async
  proof (cases rule: map_option_eqE)
    case (2 ac bc)
    with tr have "map (effTransform u) (transforms ac) = map (effTransform u) (transforms bc)" by simp
    from ap_cong [OF 2(3) models this p(11,13) mon p(8,12)] 2 show ?thesis by (simp add: async_ap_values)
  qed (simp add: async_ap_values)
  moreover have rule: "setSome m k prometheusRuleValues (spec_PrometheusRule (gw_Spec a))
      = setSome m k prometheusRuleValues (spec_PrometheusRule (gw_Spec b))" for m k
    by (rule setSome_cong) (simp_all add: map_option_eq [OF rule_eq] p(12))
  have "specToBatchHelmValues a n images tls = specToBatchHelmValues b n images tls"
    unfolding specToBatchHelmValues_def Let_def global_cong [OF p(1,2) api(2) p(3,11,13)] api(1)
      processor_cong [OF p(5) mon disp] gc_cong [OF p(6) mon] p(8) rule ..
  ultimately show ?thesis by (simp add: bothValues_def)
qed

section \<open>The charts see exactly the normal form\<close>

text \<open>
  C10: for accepted resources, whatever the credentials name, images, cluster TLS profile and JSON parser, the values handed to both charts are equal if and only if the normal forms of the two resources are: every setting outside the listed ones that the mapping leaves out reaches a chart, none is overwritten by another, and nothing else of the resource influences the charts.
\<close>

theorem charts_see_exactly_settings:
  assumes "wf_gateway a" and "valid_spec a" and "wf_gateway b" and "valid_spec b"
  shows "bothValues unmarshal a secret images tls = bothValues unmarshal b secret images tls \<longleftrightarrow>
     settings unmarshal a = settings unmarshal b"
  using values_determine_settings settings_determine_values assms by metis

text \<open>Validation looks at the database backend and the processor only.\<close>

lemma valid_spec_cong:
  assumes "spec_DBBackend (gw_Spec a) = spec_DBBackend (gw_Spec b)" and "gwProcessor a = gwProcessor b"
  shows "valid_spec a \<longleftrightarrow> valid_spec b"
proof -
  have m: "modelGateway a m = modelGateway b m" for m by (simp add: modelGateway_def assms(2))
  have "defaultAsyncQueues a = defaultAsyncQueues b"
    by (simp add: defaultAsyncQueues_def sortedModelGateways_def sortedModelNames_def m [abs_def] assms(2))
  moreover have "publishedQueues a = publishedQueues b" by (simp add: publishedQueues_def assms(2))
  ultimately show ?thesis
    by (simp add: valid_spec_def redis_ok_def sql_ok_def queues_ok_def covers_def distinct_models_def
        redisQueues_def sqlQueues_def assms)
qed

text \<open>A copy of the sample whose TLS section is filled in but disabled, and one that enables it.\<close>

definition tlsSection :: "bool \<Rightarrow> TLSSpec" where
  "tlsSection enabled = \<lparr>tls_Enabled = enabled, tls_SecretName = ''cert'', tls_CertManager = None\<rparr>"

definition tlsGateway :: "bool \<Rightarrow> LLMBatchGateway" where
  "tlsGateway enabled = redisGateway\<lparr>gw_Spec := (gw_Spec redisGateway)\<lparr>spec_TLS := Some (tlsSection enabled)\<rparr>\<rparr>"

lemma tlsGateway_accepted: "wf_gateway (tlsGateway e)" "valid_spec (tlsGateway e)"
proof -
  show "wf_gateway (tlsGateway e)"
    using wf_samples(1) by (simp add: wf_gateway_def tlsGateway_def)
  show "valid_spec (tlsGateway e)"
    by (rule valid_spec_cong [THEN iffD2, OF _ _ valid_redisGateway]) (simp_all add: tlsGateway_def)
qed

lemma tlsGateway_queues: "redisQueues (tlsGateway e) r = redisQueues redisGateway r"
proof -
  have m: "modelGateway (tlsGateway e) m = modelGateway redisGateway m" for m
    by (simp add: modelGateway_def tlsGateway_def)
  have "defaultAsyncQueues (tlsGateway e) = defaultAsyncQueues redisGateway"
    by (simp add: defaultAsyncQueues_def sortedModelGateways_def sortedModelNames_def m [abs_def])
      (simp add: tlsGateway_def)
  then show ?thesis by (simp add: redisQueues_def)
qed

lemma tlsGateway_settings:
  "settings u (tlsGateway e) = settings u redisGateway \<longleftrightarrow> \<not> e"
proof -
  have "effRedis (tlsGateway e) url = effRedis redisGateway url" for url
    by (simp add: fun_eq_iff effRedis_def tlsGateway_queues)
  then have "effAsync (tlsGateway e) (sampleAsync (Some sampleRedis) None)
      = effAsync redisGateway (sampleAsync (Some sampleRedis) None)"
    by (simp add: effAsync_def sampleAsync_def)
  then have "effProcessor (tlsGateway e) = effProcessor redisGateway"
    by (simp add: effProcessor_def tlsGateway_def)
  then show ?thesis
    by (cases e) (simp_all add: settings_def effSpec_def Let_def tlsGateway_def tlsSection_def sample_defs effBackend_def)
qed

theorem charts_see_exactly_settings_witness:
  "bothValues (\<lambda>_. None) (tlsGateway False) ''s'' sampleImages noTLS = bothValues (\<lambda>_. None) redisGateway ''s'' sampleImages noTLS \<and>
   bothValues (\<lambda>_. None) (tlsGateway True) ''s'' sampleImages noTLS \<noteq> bothValues (\<lambda>_. None) redisGateway ''s'' sampleImages noTLS"
  using charts_see_exactly_settings [OF tlsGateway_accepted wf_samples(1) valid_redisGateway, of "\<lambda>_. None"]
    tlsGateway_settings by simp

end
