(* ===== verification/Admission.thy ===== *)
theory Admission
  imports ChartValues
begin

text \<open>
  What the API server lets through: the kubebuilder markers of \<open>api/v1alpha1\<close> (enums, bounds,
  lengths, patterns, required fields, defaults and CEL rules) as executable predicates, one per
  struct, on the resource as the operator reads it. A field that is absent reads as its zero
  value; where the markers reject an explicit zero value, the zero value therefore means absent,
  and where they give a default, it cannot occur. The schemas of embedded Kubernetes structs are
  left out, so that more is admitted here than there. Characters are counted as the elements of
  the string.
\<close>

section \<open>Patterns\<close>

text \<open>The regular expressions of the markers, and a matcher by derivatives.\<close>

datatype regex = RNone | REmpty | ROneOf "char list" | RNotOneOf "char list"
  | RSeq regex regex | RAlt regex regex | RStar regex

fun lang :: "regex \<Rightarrow> string set" where
  "lang RNone = {}"
| "lang REmpty = {[]}"
| "lang (ROneOf cs) = {[c] | c. c \<in> set cs}"
| "lang (RNotOneOf cs) = {[c] | c. c \<notin> set cs}"
| "lang (RSeq r s) = {u @ v | u v. u \<in> lang r \<and> v \<in> lang s}"
| "lang (RAlt r s) = lang r \<union> lang s"
| "lang (RStar r) = {concat ws | ws. set ws \<subseteq> lang r}"

fun nullable :: "regex \<Rightarrow> bool" where
  "nullable RNone = False"
| "nullable REmpty = True"
| "nullable (ROneOf cs) = False"
| "nullable (RNotOneOf cs) = False"
| "nullable (RSeq r s) = (nullable r \<and> nullable s)"
| "nullable (RAlt r s) = (nullable r \<or> nullable s)"
| "nullable (RStar r) = True"

fun deriv :: "char \<Rightarrow> regex \<Rightarrow> regex" where
  "deriv c RNone = RNone"
| "deriv c REmpty = RNone"
| "deriv c (ROneOf cs) = (if c \<in> set cs then REmpty else RNone)"
| "deriv c (RNotOneOf cs) = (if c \<in> set cs then RNone else REmpty)"
| "deriv c (RSeq r s) = (if nullable r then RAlt (RSeq (deriv c r) s) (deriv c s) else RSeq (deriv c r) s)"
| "deriv c (RAlt r s) = RAlt (deriv c r) (deriv c s)"
| "deriv c (RStar r) = RSeq (deriv c r) (RStar r)"

fun matches :: "regex \<Rightarrow> string \<Rightarrow> bool" where
  "matches r [] = nullable r"
| "matches r (c # s) = matches (deriv c r) s"

lemma nullable_lang: "nullable r \<longleftrightarrow> [] \<in> lang r"
  by (induction r) (auto intro: exI [of _ "[]"])

lemma concat_Cons:
  assumes "c # s = concat ws" and "set ws \<subseteq> A"
  obtains u vs where "c # u \<in> A" "set vs \<subseteq> A" "s = u @ concat vs"
  using assms
proof (induction ws)
  case (Cons w ws)
  then show ?case by (cases w) auto
qed simp

lemma deriv_lang: "s \<in> lang (deriv c r) \<longleftrightarrow> c # s \<in> lang r"
proof (induction r arbitrary: s)
  case (RSeq r1 r2)
  have "c # s \<in> lang (RSeq r1 r2) \<longleftrightarrow>
      (\<exists>u v. s = u @ v \<and> c # u \<in> lang r1 \<and> v \<in> lang r2) \<or> [] \<in> lang r1 \<and> c # s \<in> lang r2"
    by (auto simp: Cons_eq_append_conv)
  then show ?case using RSeq by (auto simp: nullable_lang)
next
  case (RStar r)
  show ?case
  proof
    assume "s \<in> lang (deriv c (RStar r))"
    then obtain u ws where "s = u @ concat ws" "c # u \<in> lang r" "set ws \<subseteq> lang r"
      using RStar by auto
    then have "c # s = concat ((c # u) # ws)" "set ((c # u) # ws) \<subseteq> lang r" by simp_all
    then show "c # s \<in> lang (RStar r)" unfolding lang.simps by blast
  next
    assume "c # s \<in> lang (RStar r)"
    then obtain ws where "c # s = concat ws" "set ws \<subseteq> lang r" by auto
    then obtain u vs where "c # u \<in> lang r" "set vs \<subseteq> lang r" "s = u @ concat vs"
      by (rule concat_Cons)
    then show "s \<in> lang (deriv c (RStar r))" using RStar by auto
  qed
qed auto

lemma matches_lang: "matches r s \<longleftrightarrow> s \<in> lang r"
  by (induction s arbitrary: r) (simp_all add: nullable_lang deriv_lang)

definition RPlus :: "regex \<Rightarrow> regex" where
  "RPlus r = RSeq r (RStar r)"

definition ROpt :: "regex \<Rightarrow> regex" where
  "ROpt r = RAlt r REmpty"

definition RLit :: "string \<Rightarrow> regex" where
  "RLit s = foldr (\<lambda>c r. RSeq (ROneOf [c]) r) s REmpty"

definition digit :: regex where
  "digit = ROneOf ''0123456789''"

text \<open>\<open>^([0-9]+(\.[0-9]+)?(ms|s|m|h))+$\<close>.\<close>

definition durationPattern :: regex where
  "durationPattern = RPlus (RSeq (RPlus digit) (RSeq (ROpt (RSeq (RLit ''.'') (RPlus digit)))
     (RAlt (RLit ''ms'') (RAlt (RLit ''s'') (RAlt (RLit ''m'') (RLit ''h''))))))"

text \<open>\<open>^https?://.+$\<close>; a dot is any character but a line feed.\<close>

definition urlPattern :: regex where
  "urlPattern = RSeq (RLit ''http'') (RSeq (ROpt (RLit ''s'')) (RSeq (RLit ''://'') (RPlus (RNotOneOf [CHR 0x0A]))))"

text \<open>\<open>^0\.[0-9]+$\<close>.\<close>

definition backoffPattern :: regex where
  "backoffPattern = RSeq (RLit ''0.'') (RPlus digit)"

text \<open>\<open>^([1-9][0-9]*s|[1-9][0-9]*m|[1-9][0-9]*h)([0-9]+s|[0-9]+m|[0-9]+h)*$\<close>.\<close>

definition leasePattern :: regex where
  "leasePattern =
     (let positive = RSeq (ROneOf ''123456789'') (RStar digit);
          unit = RAlt (RLit ''s'') (RAlt (RLit ''m'') (RLit ''h''))
      in RSeq (RSeq positive unit) (RStar (RSeq (RPlus digit) unit)))"

lemma patterns_nonempty [simp]:
  "\<not> matches durationPattern []" "\<not> matches urlPattern []" "\<not> matches backoffPattern []"
  "\<not> matches leasePattern []"
  by (simp_all add: durationPattern_def urlPattern_def backoffPattern_def leasePattern_def RPlus_def
      RLit_def digit_def Let_def)

section \<open>Markers\<close>

definition maxLength :: "nat \<Rightarrow> string \<Rightarrow> bool" where
  "maxLength n s \<longleftrightarrow> length s \<le> n"

text \<open>An optional string that may not be the empty string when it is given.\<close>

definition ifGiven :: "(string \<Rightarrow> bool) \<Rightarrow> string \<Rightarrow> bool" where
  "ifGiven P s \<longleftrightarrow> s = '''' \<or> P s"

definition imagePullPolicy_ok :: "string \<Rightarrow> bool" where
  "imagePullPolicy_ok = ifGiven (\<lambda>s. s \<in> set [''Always'', ''Never'', ''IfNotPresent''])"

text \<open>An optional integer with a minimum above zero, and one behind a pointer.\<close>

definition ifSet :: "(int \<Rightarrow> bool) \<Rightarrow> int32 \<Rightarrow> bool" where
  "ifSet P n \<longleftrightarrow> n = 0 \<or> P (sint n)"

definition ifSome :: "('a \<Rightarrow> bool) \<Rightarrow> 'a option \<Rightarrow> bool" where
  "ifSome P x = (case x of None \<Rightarrow> True | Some v \<Rightarrow> P v)"

text \<open>A pointer field with a default is never nil.\<close>

definition defaulted :: "int \<Rightarrow> int32 option \<Rightarrow> bool" where
  "defaulted n x = (case x of None \<Rightarrow> False | Some v \<Rightarrow> n \<le> sint v)"

section \<open>The structs\<close>

definition admits_S3StorageSpec :: "S3StorageSpec \<Rightarrow> bool" where
  "admits_S3StorageSpec s \<longleftrightarrow> maxLength 253 (s3_Region s) \<and>
     maxLength 63 (s3_Bucket s) \<and> 1 \<le> length (s3_Bucket s) \<and>
     maxLength 2048 (s3_Endpoint s) \<and> ifGiven (matches urlPattern) (s3_Endpoint s) \<and>
     maxLength 1024 (s3_AccessKeyID s) \<and> maxLength 1024 (s3_Prefix s)"

definition admits_FSStorageSpec :: "FSStorageSpec \<Rightarrow> bool" where
  "admits_FSStorageSpec s \<longleftrightarrow> 0 < length (fs_ClaimName s) \<and> maxLength 4096 (fs_BasePath s) \<and>
     maxLength 253 (fs_ClaimName s)"

definition admits_FileRetrySpec :: "FileRetrySpec \<Rightarrow> bool" where
  "admits_FileRetrySpec r \<longleftrightarrow> defaulted 0 (retry_MaxRetries r) \<and>
     matches durationPattern (retry_InitialBackoff r) \<and> matches durationPattern (retry_MaxBackoff r)"

definition admits_FileStorageSpec :: "FileStorageSpec \<Rightarrow> bool" where
  "admits_FileStorageSpec s \<longleftrightarrow> (storage_S3 s \<noteq> None) \<noteq> (storage_FS s \<noteq> None) \<and>
     ifSome admits_S3StorageSpec (storage_S3 s) \<and> ifSome admits_FSStorageSpec (storage_FS s) \<and>
     ifSome admits_FileRetrySpec (storage_Retry s)"

definition admits_BatchAPIConfig :: "BatchAPIConfig \<Rightarrow> bool" where
  "admits_BatchAPIConfig b \<longleftrightarrow> list_all (maxLength 256) (batch_PassThroughHeaders b) \<and>
     ifSome (\<lambda>es. length es \<le> 32 \<and> list_all (maxLength 2048) es) (batch_ExtraEndpoints b)"

definition admits_APIServerConfigSpec :: "APIServerConfigSpec \<Rightarrow> bool" where
  "admits_APIServerConfigSpec c \<longleftrightarrow> ifSet (\<lambda>n. 1 \<le> n \<and> n \<le> 65535) (apicfg_Port c) \<and>
     ifSet (\<lambda>n. 1 \<le> n \<and> n \<le> 65535) (apicfg_ObservabilityPort c) \<and>
     ifSome admits_BatchAPIConfig (apicfg_BatchAPI c)"

definition admits_APIServerSpec :: "APIServerSpec \<Rightarrow> bool" where
  "admits_APIServerSpec a \<longleftrightarrow> defaulted 0 (api_Replicas a) \<and>
     ifSome admits_APIServerConfigSpec (api_Config a) \<and> imagePullPolicy_ok (api_ImagePullPolicy a)"

definition admits_InferenceGatewaySpec :: "InferenceGatewaySpec \<Rightarrow> bool" where
  "admits_InferenceGatewaySpec g \<longleftrightarrow> maxLength 2048 (ig_URL g) \<and> ifGiven (matches urlPattern) (ig_URL g)"

definition admits_ModelGatewaySpec :: "ModelGatewaySpec \<Rightarrow> bool" where
  "admits_ModelGatewaySpec g \<longleftrightarrow> maxLength 253 (mg_InferencePoolName g) \<and>
     maxLength 253 (mg_InferenceObjective g) \<and> maxLength 253 (mg_RequestQueueName g) \<and>
     maxLength 253 (mg_ResultQueueName g)"

definition admits_AIMDConfig :: "AIMDConfig \<Rightarrow> bool" where
  "admits_AIMDConfig a \<longleftrightarrow> ifSet (\<lambda>n. 1 \<le> n) (aimd_Min a) \<and>
     ifGiven (matches backoffPattern) (aimd_BackoffFactor a) \<and> maxLength 16 (aimd_BackoffFactor a) \<and>
     ifSet (\<lambda>n. 1 \<le> n) (aimd_AdditiveIncrease a)"

definition admits_ConcurrencyConfig :: "ConcurrencyConfig \<Rightarrow> bool" where
  "admits_ConcurrencyConfig c \<longleftrightarrow> ifSet (\<lambda>n. 1 \<le> n) (conc_Global c) \<and>
     ifSet (\<lambda>n. 1 \<le> n) (conc_PerEndpoint c) \<and> ifSet (\<lambda>n. 1 \<le> n) (conc_Recovery c) \<and>
     ifSome admits_AIMDConfig (conc_AIMD c)"

text \<open>\<open>positive\<close> is the CEL rule's \<open>duration(self) > duration('0s')\<close>, a library function.\<close>

definition admits_ResumableConfigSpec :: "(string \<Rightarrow> bool) \<Rightarrow> ResumableConfigSpec \<Rightarrow> bool" where
  "admits_ResumableConfigSpec positive r \<longleftrightarrow>
     ifGiven (matches leasePattern) (resume_LeaseDuration r) \<and> maxLength 32 (resume_LeaseDuration r) \<and>
     ifSet (\<lambda>n. 1 \<le> n) (resume_FinalizeConcurrency r) \<and>
     ifGiven (\<lambda>s. matches durationPattern s \<and> positive s) (resume_FinalizeTimeout r) \<and>
     maxLength 32 (resume_FinalizeTimeout r)"

definition admits_ProcessorConfigSpec :: "(string \<Rightarrow> bool) \<Rightarrow> ProcessorConfigSpec \<Rightarrow> bool" where
  "admits_ProcessorConfigSpec positive c \<longleftrightarrow>
     ifSet (\<lambda>n. 1 \<le> n \<and> n \<le> 100) (pcfg_InputFileDiskBudgetPercent c) \<and>
     ifSome (\<lambda>es. length es \<le> 32 \<and> list_all (maxLength 2048) es) (pcfg_ExtraEndpoints c) \<and>
     ifSome admits_ConcurrencyConfig (pcfg_Concurrency c) \<and>
     ifSome (admits_ResumableConfigSpec positive) (pcfg_Resumable c) \<and>
     ifGiven (matches durationPattern) (pcfg_ProgressUpdateInterval c) \<and>
     maxLength 32 (pcfg_ProgressUpdateInterval c) \<and>
     pcfg_RouteKeyMethod c \<in> set ['''', ''tenant'']"

definition admits_AsyncQueueConfig :: "AsyncQueueConfig \<Rightarrow> bool" where
  "admits_AsyncQueueConfig q \<longleftrightarrow> maxLength 253 (q_Name q) \<and> maxLength 253 (q_WorkerPoolID q) \<and>
     maxLength 2048 (q_IGWBaseURL q) \<and> ifGiven (matches urlPattern) (q_IGWBaseURL q) \<and>
     maxLength 2048 (q_RequestPathURL q) \<and> maxLength 253 (q_GateType q)"

definition admits_AsyncRedisSpec :: "AsyncRedisSpec \<Rightarrow> bool" where
  "admits_AsyncRedisSpec r \<longleftrightarrow> maxLength 2048 (redis_RequestPathURL r) \<and>
     defaulted 100 (redis_PollIntervalMs r) \<and> defaulted 1 (redis_BatchSize r) \<and>
     maxLength 253 (redis_GateType r) \<and> list_all admits_AsyncQueueConfig (redis_QueuesConfig r)"

definition admits_AsyncSQLSpec :: "AsyncSQLSpec \<Rightarrow> bool" where
  "admits_AsyncSQLSpec s \<longleftrightarrow> defaulted 1 (sql_PollIntervalMs s) \<and> defaulted 1 (sql_BatchSize s) \<and>
     ifSome (\<lambda>n. 1 \<le> sint n) (sql_MaxConnections s) \<and> ifSome (\<lambda>n. 1 \<le> sint n) (sql_ResultBatchSize s) \<and>
     ifSome (\<lambda>n. 1 \<le> sint n) (sql_LeaseTTLSeconds s) \<and>
     ifSome (\<lambda>n. 1 \<le> sint n) (sql_HandoffTimeoutSeconds s) \<and>
     list_all admits_AsyncQueueConfig (sql_QueuesConfig s)"

definition admits_AsyncTLSSpec :: "AsyncTLSSpec \<Rightarrow> bool" where
  "admits_AsyncTLSSpec t \<longleftrightarrow>
     (atls_CACertKey t \<noteq> '''' \<or> atls_CertKey t \<noteq> '''' \<or> atls_KeyKey t \<noteq> '''' \<longrightarrow> atls_SecretName t \<noteq> '''') \<and>
     (atls_CertKey t \<noteq> '''' \<longleftrightarrow> atls_KeyKey t \<noteq> '''') \<and>
     maxLength 253 (atls_SecretName t) \<and> maxLength 253 (atls_CACertKey t) \<and>
     maxLength 253 (atls_CertKey t) \<and> maxLength 253 (atls_KeyKey t)"

definition admits_AsyncRequestTransform :: "AsyncRequestTransform \<Rightarrow> bool" where
  "admits_AsyncRequestTransform t \<longleftrightarrow> maxLength 253 (rt_Name t) \<and> maxLength 253 (rt_Type t)"

definition admits_AsyncModelServerMonitorSpec :: "AsyncModelServerMonitorSpec \<Rightarrow> bool" where
  "admits_AsyncModelServerMonitorSpec m \<longleftrightarrow> maxLength 253 (msm_Port m) \<and> maxLength 2048 (msm_Path m) \<and>
     matches durationPattern (msm_Interval m)"

definition admits_AsyncWorkerPool :: "AsyncWorkerPool \<Rightarrow> bool" where
  "admits_AsyncWorkerPool p \<longleftrightarrow> maxLength 253 (wp_Name p) \<and> ifSet (\<lambda>n. 1 \<le> n) (wp_Workers p) \<and>
     maxLength 253 (wp_GateType p)"

definition admits_AsyncProcessorSpec :: "AsyncProcessorSpec \<Rightarrow> bool" where
  "admits_AsyncProcessorSpec ac \<longleftrightarrow> \<not> (ac_Redis ac \<noteq> None \<and> ac_SQL ac \<noteq> None) \<and>
     defaulted 0 (ac_Replicas ac) \<and> imagePullPolicy_ok (ac_ImagePullPolicy ac) \<and>
     ifSome admits_InferenceGatewaySpec (ac_InferenceGateway ac) \<and> defaulted 1 (ac_Concurrency ac) \<and>
     matches durationPattern (ac_DrainTimeout ac) \<and>
     ifGiven (matches durationPattern) (ac_ResultPollTimeout ac) \<and> maxLength 32 (ac_ResultPollTimeout ac) \<and>
     ifSome admits_AsyncRedisSpec (ac_Redis ac) \<and> ifSome admits_AsyncSQLSpec (ac_SQL ac) \<and>
     list_all admits_AsyncWorkerPool (ac_WorkerPools ac) \<and> maxLength 2048 (ac_PrometheusURL ac) \<and>
     ifGiven (matches durationPattern) (ac_PrometheusCacheTTL ac) \<and>
     ifSome admits_AsyncTLSSpec (ac_TLS ac) \<and>
     ifSome (\<lambda>t. list_all admits_AsyncRequestTransform (tc_RequestTransforms t)) (ac_TransformConfig ac) \<and>
     ifSome admits_AsyncModelServerMonitorSpec (ac_ModelServerMonitor ac)"

definition admits_ProcessorSpec :: "(string \<Rightarrow> bool) \<Rightarrow> ProcessorSpec \<Rightarrow> bool" where
  "admits_ProcessorSpec positive p \<longleftrightarrow>
     (case proc_AsyncConfig p of None \<Rightarrow> False
      | Some ac \<Rightarrow> (ac_Redis ac \<noteq> None \<or> ac_SQL ac \<noteq> None) \<and> admits_AsyncProcessorSpec ac) \<and>
     defaulted 0 (proc_Replicas p) \<and> imagePullPolicy_ok (proc_ImagePullPolicy p) \<and>
     ifSome (admits_ProcessorConfigSpec positive) (proc_Config p) \<and>
     ifGiven (\<lambda>s. s \<in> set [''async'']) (proc_DispatchMode p) \<and>
     list_all (\<lambda>(model, g). admits_ModelGatewaySpec g) (proc_ModelGateways p)"

definition admits_ReconcilerSpec :: "ReconcilerSpec \<Rightarrow> bool" where
  "admits_ReconcilerSpec r \<longleftrightarrow> maxLength 32 (rec_Interval r) \<and> matches durationPattern (rec_Interval r)"

definition admits_GCSpec :: "GCSpec \<Rightarrow> bool" where
  "admits_GCSpec g \<longleftrightarrow> defaulted 0 (gc_Replicas g) \<and> matches durationPattern (gc_Interval g) \<and>
     ifSome (\<lambda>c. ifSome admits_ReconcilerSpec (gccfg_Reconciler c)) (gc_Config g) \<and>
     imagePullPolicy_ok (gc_ImagePullPolicy g)"

definition admits_OTELSpec :: "OTELSpec \<Rightarrow> bool" where
  "admits_OTELSpec t \<longleftrightarrow> maxLength 2048 (otel_Endpoint t) \<and> ifGiven (matches urlPattern) (otel_Endpoint t) \<and>
     maxLength 253 (otel_Sampler t) \<and> maxLength 253 (otel_SamplerArg t)"

definition admits_CertManagerSpec :: "CertManagerSpec \<Rightarrow> bool" where
  "admits_CertManagerSpec c \<longleftrightarrow> 0 < length (cm_IssuerName c) \<and> maxLength 253 (cm_IssuerName c) \<and>
     cm_IssuerKind c \<in> set [''Issuer'', ''ClusterIssuer''] \<and> list_all (maxLength 253) (cm_DNSNames c)"

definition admits_TLSSpec :: "TLSSpec \<Rightarrow> bool" where
  "admits_TLSSpec t \<longleftrightarrow>
     (\<not> tls_Enabled t \<or> 0 < length (tls_SecretName t) \<or> tls_CertManager t \<noteq> None) \<and>
     \<not> (0 < length (tls_SecretName t) \<and> tls_CertManager t \<noteq> None) \<and>
     maxLength 253 (tls_SecretName t) \<and> ifSome admits_CertManagerSpec (tls_CertManager t)"

definition admits_ParentReference :: "ParentReference \<Rightarrow> bool" where
  "admits_ParentReference r \<longleftrightarrow> maxLength 253 (parent_Name r) \<and> maxLength 63 (parent_Namespace r) \<and>
     maxLength 253 (parent_SectionName r)"

definition admits_LLMBatchGatewaySpec :: "(string \<Rightarrow> bool) \<Rightarrow> LLMBatchGatewaySpec \<Rightarrow> bool" where
  "admits_LLMBatchGatewaySpec positive s \<longleftrightarrow> 0 < length (ref_Name (spec_SecretRef s)) \<and>
     spec_DBBackend s \<in> set [''postgresql''] \<and>
     ifSome (\<lambda>es. length es \<le> 32 \<and> list_all (maxLength 2048) es) (spec_ExtraEndpoints s) \<and>
     (case spec_FileStorage s of None \<Rightarrow> False | Some f \<Rightarrow> admits_FileStorageSpec f) \<and>
     admits_APIServerSpec (spec_APIServer s) \<and> admits_ProcessorSpec positive (spec_Processor s) \<and>
     admits_GCSpec (spec_GC s) \<and> ifSome admits_TLSSpec (spec_TLS s) \<and>
     ifSome (\<lambda>r. list_all admits_ParentReference (hr_ParentRefs r)) (spec_HTTPRoute s) \<and>
     ifSome admits_OTELSpec (spec_OTEL s) \<and> length (spec_ImagePullSecrets s) \<le> 20"

section \<open>What is left for the operator to check\<close>

text \<open>Errors of \<open>validateSpec\<close> that the schema makes impossible.\<close>

fun structural :: "validation_error \<Rightarrow> bool" where
  "structural (UnsupportedDBBackend _) = True"
| "structural SyncDispatchRemoved = True"
| "structural AsyncConfigRequired = True"
| "structural RedisAndSQL = True"
| "structural NoTransport = True"
| "structural _ = False"

text \<open>The rules that only the operator knows.\<close>

definition operator_rules :: "LLMBatchGateway \<Rightarrow> AsyncProcessorSpec \<Rightarrow> bool" where
  "operator_rules gw ac \<longleftrightarrow> ac_ResultPollTimeout ac \<noteq> '''' \<and> gwModels gw \<noteq> [] \<and>
     (\<forall>(model, g) \<in> set (gwModels gw). model_ok g) \<and>
     (case ac_Redis ac of Some redis \<Rightarrow> redis_ok gw ac redis
      | None \<Rightarrow> (case ac_SQL ac of Some sql \<Rightarrow> sql_ok gw ac sql | None \<Rightarrow> False))"

lemma admitted_async:
  assumes "admits_LLMBatchGatewaySpec positive (gw_Spec gw)"
  obtains ac where "gwAsync gw = Some ac" "admits_AsyncProcessorSpec ac"
    "(ac_Redis ac \<noteq> None) \<noteq> (ac_SQL ac \<noteq> None)"
  using assms
  by (auto simp: admits_LLMBatchGatewaySpec_def admits_ProcessorSpec_def admits_AsyncProcessorSpec_def
      split: option.splits)

lemma admitted_modes:
  assumes "admits_LLMBatchGatewaySpec positive (gw_Spec gw)"
  shows "spec_DBBackend (gw_Spec gw) = dbBackendPostgreSQL"
    "proc_DispatchMode (gwProcessor gw) \<noteq> dispatchModeSync"
  using assms
  by (auto simp: admits_LLMBatchGatewaySpec_def admits_ProcessorSpec_def ifGiven_def
      dbBackendPostgreSQL_def dispatchModeSync_def)

lemma check_not_structural:
  "validateModelGateway e = Some err \<Longrightarrow> \<not> structural err"
  "validateAsyncQueueCoverage tr gw qs = Some err \<Longrightarrow> \<not> structural err"
  "validateAsyncQueueGatewayURL tr qs ig = Some err \<Longrightarrow> \<not> structural err"
  "validateAsyncPrometheusGates tr qs pools url = Some err \<Longrightarrow> \<not> structural err"
  "uniqueKeys key SharedInferencePool ms taken = Some err \<Longrightarrow> \<not> structural err"
  "uniqueKeys key SharedResultQueue ms taken = Some err \<Longrightarrow> \<not> structural err"
proof -
  show "\<not> structural err" if "validateModelGateway e = Some err"
    using that by (auto simp: validateModelGateway_def split: prod.splits if_splits)
  have dup: "\<not> structural err" if "configuredSet tr qs cfg = Inl err" for cfg
    using that by (induction tr qs cfg rule: configuredSet.induct) (auto split: if_splits)
  show "\<not> structural err" if "validateAsyncQueueCoverage tr gw qs = Some err"
    using that dup
    by (auto simp: validateAsyncQueueCoverage_def Let_def split: sum.splits option.splits if_splits
        dest!: check_all_mem)
  show "\<not> structural err" if "validateAsyncQueueGatewayURL tr qs ig = Some err"
    using that by (auto simp: validateAsyncQueueGatewayURL_def split: if_splits dest!: check_all_mem)
  show "\<not> structural err" if "validateAsyncPrometheusGates tr qs pools url = Some err"
    using that
    by (auto simp: validateAsyncPrometheusGates_def split: if_splits option.splits dest!: check_all_mem)
  show "\<not> structural err" if "uniqueKeys key SharedInferencePool ms taken = Some err"
    using that by (induction ms arbitrary: taken) (auto split: option.splits)
  show "\<not> structural err" if "uniqueKeys key SharedResultQueue ms taken = Some err"
    using that by (induction ms arbitrary: taken) (auto split: option.splits)
qed

lemma redis_not_structural: "validateAsyncRedisConfig gw ac redis = Some err \<Longrightarrow> \<not> structural err"
  by (auto simp: validateAsyncRedisConfig_def Let_def split: option.splits if_splits
      dest: check_not_structural)

lemma sql_not_structural: "validateAsyncSQLConfig gw ac sql = Some err \<Longrightarrow> \<not> structural err"
  by (auto simp: validateAsyncSQLConfig_def Let_def split: option.splits if_splits
      dest: check_not_structural)

text \<open>
  C20: for a resource the API server admits, \<open>validateSpec\<close> is down to the rules that the schema
  cannot express: it accepts exactly when there is a poll timeout, at least one model, every
  model is complete and the one configured transport covers the models' queues; its checks of
  database backend, dispatch mode and number of transports never fail.
\<close>

theorem admitted_resources_left_to_validate:
  assumes "admits_LLMBatchGatewaySpec positive (gw_Spec gw)"
    and "wf_gateway gw" and "set (visit (gwModels gw)) = set (gwModels gw)"
  shows "\<exists>ac. gwAsync gw = Some ac \<and> (validateSpec visit gw = None \<longleftrightarrow> operator_rules gw ac) \<and>
    (\<forall>e. validateSpec visit gw = Some e \<longrightarrow> \<not> structural e)"
proof -
  obtain ac where ac: "gwAsync gw = Some ac" "(ac_Redis ac \<noteq> None) \<noteq> (ac_SQL ac \<noteq> None)"
    by (rule admitted_async [OF assms(1)])
  note modes = admitted_modes [OF assms(1)]
  have "validateSpec visit gw = None \<longleftrightarrow> operator_rules gw ac"
    using ac modes validateSpec_None [where visit = visit, OF assms(2,3)]
    by (auto simp: valid_spec_def operator_rules_def split: option.splits)
  moreover have "\<not> structural e" if "validateSpec visit gw = Some e" for e
    using that ac modes
    by (auto simp: validateSpec_def split: option.splits if_splits
        dest: redis_not_structural sql_not_structural dest!: check_all_mem check_not_structural(1))
  ultimately show ?thesis using ac(1) by (intro exI [of _ ac]) simp
qed

section \<open>What the charts get of an admitted resource\<close>

lemma defaultedE: "defaulted n x \<Longrightarrow> \<exists>v. x = Some v \<and> n \<le> sint v"
  by (auto simp: defaulted_def split: option.splits)

lemma replica_values:
  "intAt (batchAt gw secret images tls [''apiserver'', ''replicaCount''])
     = map_option sint (api_Replicas (spec_APIServer (gw_Spec gw)))"
  "intAt (batchAt gw secret images tls [''processor'', ''replicaCount''])
     = map_option sint (proc_Replicas (gwProcessor gw))"
  "intAt (batchAt gw secret images tls [''gc'', ''replicaCount''])
     = map_option sint (gc_Replicas (spec_GC (gw_Spec gw)))"
  by (simp_all add: batchAt_def batch_sections apiserverValues_def processorValues_def gcValues_def
      componentValues_def Let_def intAt_def split: option.split)

lemma concurrency_value:
  "gwAsync gw = Some ac \<Longrightarrow> intAt (asyncAt unmarshal gw secret images [''ap'', ''concurrency''])
     = map_option sint (ac_Concurrency ac)"
  by (cases "ac_Concurrency ac")
    (simp_all add: asyncAt_def specToAsyncHelmValues_def Let_def apTailValues_def setTransport_def
      apBaseValues_def intAt_def split: option.split prod.split)

lemma port_values:
  "intAt (batchAt gw secret images tls [''apiserver'', ''config'', ''port'']) =
     Option.bind (api_Config (spec_APIServer (gw_Spec gw)))
       (\<lambda>c. if apicfg_Port c = 0 then None else Some (sint (apicfg_Port c)))"
  "intAt (batchAt gw secret images tls [''apiserver'', ''config'', ''observabilityPort'']) =
     Option.bind (api_Config (spec_APIServer (gw_Spec gw)))
       (\<lambda>c. if apicfg_ObservabilityPort c = 0 then None else Some (sint (apicfg_ObservabilityPort c)))"
proof -
  have cfg: "batchAt gw secret images tls (''apiserver'' # ''config'' # ks) =
      (case api_Config (spec_APIServer (gw_Spec gw)) of None \<Rightarrow> None
       | Some c \<Rightarrow> at (apiServerConfigToMap c) ks)" for ks
    by (simp add: batchAt_def batch_sections apiserverValues_def componentValues_def Let_def
        split: option.split)
  show "intAt (batchAt gw secret images tls [''apiserver'', ''config'', ''port'']) =
     Option.bind (api_Config (spec_APIServer (gw_Spec gw)))
       (\<lambda>c. if apicfg_Port c = 0 then None else Some (sint (apicfg_Port c)))"
    "intAt (batchAt gw secret images tls [''apiserver'', ''config'', ''observabilityPort'']) =
     Option.bind (api_Config (spec_APIServer (gw_Spec gw)))
       (\<lambda>c. if apicfg_ObservabilityPort c = 0 then None else Some (sint (apicfg_ObservabilityPort c)))"
    by (simp_all add: cfg apiServerConfigToMap_def Let_def setInt32_def intAt_def split: option.split)
qed

definition inRange :: "int \<Rightarrow> int \<Rightarrow> int option \<Rightarrow> bool" where
  "inRange lo hi x = (case x of None \<Rightarrow> True | Some n \<Rightarrow> lo \<le> n \<and> n \<le> hi)"

text \<open>
  C27: the numbers a chart gets of an admitted resource are in range: all three replica counts
  are there and not negative, the dispatcher's concurrency is there and positive, and a port
  that is there is a TCP port.
\<close>

theorem admitted_numbers_in_range:
  assumes "admits_LLMBatchGatewaySpec positive (gw_Spec gw)"
  shows "\<exists>a p g c.
    intAt (batchAt gw secret images tls [''apiserver'', ''replicaCount'']) = Some a \<and> 0 \<le> a \<and>
    intAt (batchAt gw secret images tls [''processor'', ''replicaCount'']) = Some p \<and> 0 \<le> p \<and>
    intAt (batchAt gw secret images tls [''gc'', ''replicaCount'']) = Some g \<and> 0 \<le> g \<and>
    intAt (asyncAt unmarshal gw secret images [''ap'', ''concurrency'']) = Some c \<and> 1 \<le> c \<and>
    inRange 1 65535 (intAt (batchAt gw secret images tls [''apiserver'', ''config'', ''port''])) \<and>
    inRange 1 65535 (intAt (batchAt gw secret images tls [''apiserver'', ''config'', ''observabilityPort'']))"
proof -
  obtain ac where ac: "gwAsync gw = Some ac" "admits_AsyncProcessorSpec ac"
    by (rule admitted_async [OF assms])
  have "defaulted 0 (api_Replicas (spec_APIServer (gw_Spec gw)))" "defaulted 0 (proc_Replicas (gwProcessor gw))"
    "defaulted 0 (gc_Replicas (spec_GC (gw_Spec gw)))" "defaulted 1 (ac_Concurrency ac)"
    "ifSome admits_APIServerConfigSpec (api_Config (spec_APIServer (gw_Spec gw)))"
    using assms ac
    by (simp_all add: admits_LLMBatchGatewaySpec_def admits_APIServerSpec_def admits_ProcessorSpec_def
        admits_GCSpec_def admits_AsyncProcessorSpec_def)
  then show ?thesis
    by (auto simp: replica_values concurrency_value [OF ac(1)] port_values inRange_def ifSome_def
        admits_APIServerConfigSpec_def ifSet_def dest!: defaultedE split: option.splits)
qed

lemma file_client:
  "batchAt gw secret images tls (''global'' # ''fileClient'' # ks) =
     (case spec_FileStorage (gw_Spec gw) of None \<Rightarrow> None | Some f \<Rightarrow> at (fileClientValues f) ks)"
  by (simp add: batchAt_def batch_sections globalValues_def Let_def split: option.split)

text \<open>
  C26: an admitted resource leaves the charts no choice: the batch chart gets exactly one file
  store, and the one it names as its type; and when TLS is enabled it gets exactly one source
  of the serving certificate, an existing Secret or cert-manager.
\<close>

theorem admitted_storage_and_certificate_unique:
  assumes "admits_LLMBatchGatewaySpec positive (gw_Spec gw)"
  shows "(\<exists>t \<in> {''s3'', ''fs''}.
      batchAt gw secret images tls [''global'', ''fileClient'', ''type''] = Some (VStr t) \<and>
      (batchAt gw secret images tls [''global'', ''fileClient'', ''s3''] \<noteq> None \<longleftrightarrow> t = ''s3'') \<and>
      (batchAt gw secret images tls [''global'', ''fileClient'', ''fs''] \<noteq> None \<longleftrightarrow> t = ''fs'')) \<and>
    (batchAt gw secret images tls [''apiserver'', ''tls'', ''enabled''] \<noteq> None \<longrightarrow>
      (batchAt gw secret images tls [''apiserver'', ''tls'', ''secretName''] = None) \<noteq>
      (batchAt gw secret images tls [''apiserver'', ''tls'', ''certManager''] = None))"
proof -
  define val where "val = batchAt gw secret images tls"
  obtain f where f: "spec_FileStorage (gw_Spec gw) = Some f" "admits_FileStorageSpec f"
    using assms(1) by (auto simp: admits_LLMBatchGatewaySpec_def split: option.splits)
  have tls: "ifSome admits_TLSSpec (spec_TLS (gw_Spec gw))"
    using assms(1) by (simp add: admits_LLMBatchGatewaySpec_def)
  have keys: "val [''apiserver'', ''tls'', ''enabled''] = map_option (\<lambda>_. VBool True) (enabledTLS gw)"
    "val [''apiserver'', ''tls'', ''secretName''] = Option.bind (enabledTLS gw) (\<lambda>t. nonempty (tls_SecretName t))"
    "val [''apiserver'', ''tls'', ''certManager'']
       = map_option certManagerValues (Option.bind (enabledTLS gw) tls_CertManager)"
    unfolding val_def using tls_values [of gw secret images tls] by blast+
  have "val [''apiserver'', ''tls'', ''enabled''] \<noteq> None \<longrightarrow>
      (val [''apiserver'', ''tls'', ''secretName''] = None) \<noteq> (val [''apiserver'', ''tls'', ''certManager''] = None)"
    using tls unfolding keys
    by (auto simp: enabledTLS_def nonempty_def ifSome_def admits_TLSSpec_def split: option.splits if_splits)
  moreover have "\<exists>t \<in> {''s3'', ''fs''}. val [''global'', ''fileClient'', ''type''] = Some (VStr t) \<and>
      (val [''global'', ''fileClient'', ''s3''] \<noteq> None \<longleftrightarrow> t = ''s3'') \<and>
      (val [''global'', ''fileClient'', ''fs''] \<noteq> None \<longleftrightarrow> t = ''fs'')"
    using f unfolding val_def
    by (auto simp: file_client fileClientValues_def Let_def admits_FileStorageSpec_def split: option.splits)
  ultimately show ?thesis unfolding val_def by blast
qed

text \<open>
  The minimum of one worker does not bind an omitted field, which has no default and is passed
  on: such a pool reaches the chart with no workers.
\<close>

lemma omitted_workers_reach_the_chart:
  "admits_AsyncWorkerPool p \<Longrightarrow> admits_AsyncWorkerPool (p\<lparr>wp_Workers := 0\<rparr>) \<and>
     intAt (at (workerPoolValues (p\<lparr>wp_Workers := 0\<rparr>)) [''workers'']) = Some 0"
  by (simp add: admits_AsyncWorkerPool_def ifSet_def workerPoolValues_def Let_def intAt_def)

section \<open>Witnesses\<close>

definition admittedGateway :: LLMBatchGateway where
  "admittedGateway = redisGateway\<lparr>gw_Spec := (gw_Spec redisGateway)
     \<lparr>spec_FileStorage := Some \<lparr>storage_S3 = None,
        storage_FS = Some \<lparr>fs_BasePath = ''/data'', fs_ClaimName = ''files''\<rparr>, storage_Retry = None\<rparr>,
      spec_TLS := Some \<lparr>tls_Enabled = True, tls_SecretName = ''tls'', tls_CertManager = None\<rparr>\<rparr>\<rparr>"

lemma admitted_sample: "admits_LLMBatchGatewaySpec (\<lambda>_. True) (gw_Spec admittedGateway)"
  by code_simp

lemma admitted_sample_wf: "wf_gateway admittedGateway" "gwModels admittedGateway = gwModels redisGateway"
  using wf_samples(1) by (simp_all add: admittedGateway_def wf_gateway_def)

theorem admitted_resources_left_to_validate_witness:
  "\<exists>ac. gwAsync admittedGateway = Some ac \<and>
     (validateSpec id admittedGateway = None \<longleftrightarrow> operator_rules admittedGateway ac)"
  using admitted_resources_left_to_validate [OF admitted_sample admitted_sample_wf(1), of id] by auto

theorem admitted_numbers_in_range_witness:
  "\<exists>a. intAt (batchAt admittedGateway ''s'' sampleImages noTLS [''apiserver'', ''replicaCount'']) = Some a \<and> 0 \<le> a"
  using admitted_numbers_in_range [OF admitted_sample] by metis

theorem admitted_storage_and_certificate_unique_witness:
  "batchAt admittedGateway ''s'' sampleImages noTLS [''global'', ''fileClient'', ''s3''] = None \<and>
   batchAt admittedGateway ''s'' sampleImages noTLS [''apiserver'', ''tls'', ''certManager''] = None"
proof -
  have "batchAt admittedGateway ''s'' sampleImages noTLS [''global'', ''fileClient'', ''type''] = Some (VStr ''fs'')"
    "batchAt admittedGateway ''s'' sampleImages noTLS [''apiserver'', ''tls'', ''enabled''] \<noteq> None"
    "batchAt admittedGateway ''s'' sampleImages noTLS [''apiserver'', ''tls'', ''secretName''] \<noteq> None"
    using tls_values [of admittedGateway "''s''" sampleImages noTLS]
    by (simp_all add: file_client fileClientValues_def admittedGateway_def enabledTLS_def nonempty_def Let_def)
  with admitted_storage_and_certificate_unique [OF admitted_sample, of "''s''" sampleImages noTLS]
  show ?thesis by auto
qed

end
