(* ===== verification/GoHeap.thy ===== *)
theory GoHeap
  imports Prelude "HOL-Library.AList"
begin

text \<open>
  Go values in memory, as far as the generated deep copies of \<open>zz_generated.deepcopy.go\<close> need
  them: variables that hold structs, pointers, slices and maps, the statements the generator
  emits, and what it means that a statement copies a value deeply. The theory \<open>DeepCopy\<close> has
  the copies themselves.
\<close>

section \<open>Types and values\<close>

datatype scalar_kind = KString | KBool | KInt32 | KInt64

datatype gtype =
    TScalar scalar_kind
  | TPtr gtype
  | TSlice gtype
  | TMap gtype
  | TStruct "(string \<times> gtype) list"

datatype scalar = SString string | SBool bool | SInt32 int32 | SInt64 int64

fun kind_of :: "scalar \<Rightarrow> scalar_kind" where
  "kind_of (SString _) = KString"
| "kind_of (SBool _) = KBool"
| "kind_of (SInt32 _) = KInt32"
| "kind_of (SInt64 _) = KInt64"

fun zeroScalar :: "scalar_kind \<Rightarrow> scalar" where
  "zeroScalar KString = SString ''''"
| "zeroScalar KBool = SBool False"
| "zeroScalar KInt32 = SInt32 0"
| "zeroScalar KInt64 = SInt64 0"

type_synonym addr = nat

datatype step = Field string | Index nat

text \<open>A place in memory: a variable, and a field or element inside it.\<close>

type_synonym loc = "addr \<times> step list"

text \<open>
  A slice is nil or a window (backing array, offset, length); its capacity is never read. The
  last two constructors are what the variables behind slices and maps hold: a map's entries
  stand in the order in which a range statement visits them, which is any order.
\<close>

datatype gval =
    VScalar scalar
  | VPtr "loc option"
  | VSlice "(addr \<times> nat \<times> nat) option"
  | VMap "addr option"
  | VStruct "(string \<times> gval) list"
  | VArray "gval list"
  | VTable "(string \<times> gval) list"

fun zero :: "gtype \<Rightarrow> gval" where
  "zero (TScalar k) = VScalar (zeroScalar k)"
| "zero (TPtr T) = VPtr None"
| "zero (TSlice T) = VSlice None"
| "zero (TMap T) = VMap None"
| "zero (TStruct fs) = VStruct (map (\<lambda>(f, T). (f, zero T)) fs)"

section \<open>Memory\<close>

fun get_at :: "gval \<Rightarrow> step list \<Rightarrow> gval option" where
  "get_at v [] = Some v"
| "get_at (VStruct vs) (Field f # p) = Option.bind (map_of vs f) (\<lambda>v. get_at v p)"
| "get_at (VArray xs) (Index j # p) = (if j < length xs then get_at (xs ! j) p else None)"
| "get_at _ _ = None"

fun put_at :: "gval \<Rightarrow> step list \<Rightarrow> gval \<Rightarrow> gval option" where
  "put_at v [] x = Some x"
| "put_at (VStruct vs) (Field f # p) x =
     Option.bind (map_of vs f) (\<lambda>v. Option.bind (put_at v p x) (\<lambda>v'. Some (VStruct (AList.update f v' vs))))"
| "put_at (VArray xs) (Index j # p) x =
     (if j < length xs then Option.bind (put_at (xs ! j) p x) (\<lambda>v'. Some (VArray (xs[j := v']))) else None)"
| "put_at _ _ _ = None"

record mem =
  cells :: "addr \<Rightarrow> gval option"
  next_addr :: addr

definition load :: "mem \<Rightarrow> loc \<Rightarrow> gval option" where
  "load m l = Option.bind (cells m (fst l)) (\<lambda>c. get_at c (snd l))"

definition store :: "loc \<Rightarrow> gval \<Rightarrow> mem \<Rightarrow> mem option" where
  "store l v m = Option.bind (cells m (fst l)) (\<lambda>c. Option.bind (put_at c (snd l) v)
     (\<lambda>c'. Some (m\<lparr>cells := (cells m)(fst l \<mapsto> c')\<rparr>)))"

definition alloc :: "gval \<Rightarrow> mem \<Rightarrow> addr \<times> mem" where
  "alloc v m = (next_addr m, \<lparr>cells = (cells m)(next_addr m \<mapsto> v), next_addr = Suc (next_addr m)\<rparr>)"

definition wf_mem :: "mem \<Rightarrow> bool" where
  "wf_mem m \<longleftrightarrow> (\<forall>a\<ge>next_addr m. cells m a = None)"

definition field :: "string \<Rightarrow> loc \<Rightarrow> loc" where
  "field f l = (fst l, snd l @ [Field f])"

section \<open>Statements of the generator\<close>

text \<open>A statement over \<open>in\<close> and \<open>out\<close>. \<open>None\<close> is a panic.\<close>

type_synonym cmd = "mem \<Rightarrow> mem option"
type_synonym copier = "loc \<Rightarrow> loc \<Rightarrow> cmd"

text \<open>\<open>*out = *in\<close>.\<close>

definition assign :: copier where
  "assign i out m = Option.bind (load m i) (\<lambda>v. store out v m)"

text \<open>\<open>in, out := &in.F, &out.F\<close>, or a call on the two fields.\<close>

definition onField :: "string \<Rightarrow> copier \<Rightarrow> copier" where
  "onField f c i out = c (field f i) (field f out)"

definition deref :: "mem \<Rightarrow> loc \<Rightarrow> loc option" where
  "deref m l = (case load m l of Some (VPtr (Some p)) \<Rightarrow> Some p | _ \<Rightarrow> None)"

text \<open>\<open>if *in != nil { *out = new(T); body on *in and *out }\<close>.\<close>

definition copyPtr :: "gtype \<Rightarrow> copier \<Rightarrow> copier" where
  "copyPtr T body i out m = (case load m i of
     Some (VPtr None) \<Rightarrow> Some m
   | Some (VPtr (Some _)) \<Rightarrow>
       (let (a, m1) = alloc (zero T) m
        in Option.bind (store out (VPtr (Some (a, []))) m1) (\<lambda>m2.
           Option.bind (deref m2 i) (\<lambda>p. Option.bind (deref m2 out) (\<lambda>q. body p q m2))))
   | _ \<Rightarrow> None)"

text \<open>\<open>for i := range *in { body on (*in)[i] and (*out)[i] }\<close>, from index \<open>j\<close> on.\<close>

fun copyElems :: "copier \<Rightarrow> addr \<Rightarrow> nat \<Rightarrow> addr \<Rightarrow> nat \<Rightarrow> nat \<Rightarrow> cmd" where
  "copyElems body a off b j 0 m = Some m"
| "copyElems body a off b j (Suc n) m =
     Option.bind (body (a, [Index (off + j)]) (b, [Index j]) m) (copyElems body a off b (Suc j) n)"

text \<open>\<open>if *in != nil { *out = make([]T, len(*in)); for ... }\<close>.\<close>

definition copySlice :: "gtype \<Rightarrow> copier \<Rightarrow> copier" where
  "copySlice T body i out m = (case load m i of
     Some (VSlice None) \<Rightarrow> Some m
   | Some (VSlice (Some (a, off, n))) \<Rightarrow>
       (let (b, m1) = alloc (VArray (replicate n (zero T))) m
        in Option.bind (store out (VSlice (Some (b, 0, n))) m1) (copyElems body a off b 0 n))
   | _ \<Rightarrow> None)"

text \<open>The elements a slice shows.\<close>

definition window :: "mem \<Rightarrow> addr \<Rightarrow> nat \<Rightarrow> nat \<Rightarrow> gval list option" where
  "window m a off n = (case cells m a of
     Some (VArray xs) \<Rightarrow> (if off + n \<le> length xs then Some (take n (drop off xs)) else None)
   | _ \<Rightarrow> None)"

text \<open>\<open>if *in != nil { *out = make([]T, len(*in)); copy(*out, *in) }\<close>.\<close>

definition copyFlatSlice :: "gtype \<Rightarrow> copier" where
  "copyFlatSlice T i out m = (case load m i of
     Some (VSlice None) \<Rightarrow> Some m
   | Some (VSlice (Some (a, off, n))) \<Rightarrow>
       (let (b, m1) = alloc (VArray (replicate n (zero T))) m
        in Option.bind (store out (VSlice (Some (b, 0, n))) m1) (\<lambda>m2.
           Option.bind (window m2 a off n) (\<lambda>xs. store (b, []) (VArray xs) m2)))
   | _ \<Rightarrow> None)"

text \<open>\<open>for key, val := range *in { ( *out)[key] = val }\<close>.\<close>

definition insertEntry :: "addr \<Rightarrow> string \<times> gval \<Rightarrow> cmd" where
  "insertEntry b e m = (case cells m b of
     Some (VTable kvs) \<Rightarrow> Some (m\<lparr>cells := (cells m)(b \<mapsto> VTable (AList.update (fst e) (snd e) kvs))\<rparr>)
   | _ \<Rightarrow> None)"

fun copyEntries :: "addr \<Rightarrow> (string \<times> gval) list \<Rightarrow> cmd" where
  "copyEntries b [] m = Some m"
| "copyEntries b (e # es) m = Option.bind (insertEntry b e m) (copyEntries b es)"

text \<open>\<open>if *in != nil { *out = make(map[string]T, len(*in)); for ... }\<close>.\<close>

definition copyMap :: copier where
  "copyMap i out m = (case load m i of
     Some (VMap None) \<Rightarrow> Some m
   | Some (VMap (Some a)) \<Rightarrow>
       (let (b, m1) = alloc (VTable []) m
        in Option.bind (store out (VMap (Some b)) m1) (\<lambda>m2.
           (case cells m2 a of Some (VTable kvs) \<Rightarrow> copyEntries b kvs m2 | _ \<Rightarrow> None)))
   | _ \<Rightarrow> None)"

text \<open>A whole \<open>DeepCopyInto\<close>: \<open>*out = *in\<close>, then the statements in their order.\<close>

fun run :: "copier list \<Rightarrow> copier" where
  "run [] i out m = Some m"
| "run (c # cs) i out m = Option.bind (c i out m) (run cs i out)"

definition copyStruct :: "copier list \<Rightarrow> copier" where
  "copyStruct cs i out m = Option.bind (assign i out m) (run cs i out)"

text \<open>\<open>DeepCopy\<close>: nil for nil, else a new variable that the value is copied into.\<close>

definition copyNew :: "gtype \<Rightarrow> copier \<Rightarrow> loc option \<Rightarrow> mem \<Rightarrow> (loc option \<times> mem) option" where
  "copyNew T into p m = (case p of
     None \<Rightarrow> Some (None, m)
   | Some i \<Rightarrow> (let (a, m1) = alloc (zero T) m
       in Option.bind (into i (a, []) m1) (\<lambda>m2. Some (Some (a, []), m2))))"

section \<open>What a value means\<close>

text \<open>The value without addresses. \<open>Ill\<close> stands for a value of another type.\<close>

datatype tree = Leaf scalar | Nil_tree | Ref tree | Elems "tree list"
  | Entries "(string \<times> tree) list" | Fields "(string \<times> tree) list" | Ill

fun typed :: "mem \<Rightarrow> gtype \<Rightarrow> gval \<Rightarrow> bool" where
  "typed m (TScalar k) v = (case v of VScalar s \<Rightarrow> kind_of s = k | _ \<Rightarrow> False)"
| "typed m (TPtr T) v = (case v of
     VPtr None \<Rightarrow> True
   | VPtr (Some l) \<Rightarrow> (case load m l of Some x \<Rightarrow> typed m T x | None \<Rightarrow> False)
   | _ \<Rightarrow> False)"
| "typed m (TSlice T) v = (case v of
     VSlice None \<Rightarrow> True
   | VSlice (Some (a, off, n)) \<Rightarrow> (case window m a off n of Some xs \<Rightarrow> list_all (typed m T) xs | None \<Rightarrow> False)
   | _ \<Rightarrow> False)"
| "typed m (TMap T) v = (case v of
     VMap None \<Rightarrow> True
   | VMap (Some a) \<Rightarrow> (case cells m a of
       Some (VTable kvs) \<Rightarrow> distinct (map fst kvs) \<and> list_all (\<lambda>(k, x). typed m T x) kvs
     | _ \<Rightarrow> False)
   | _ \<Rightarrow> False)"
| "typed m (TStruct fs) v = (case v of
     VStruct vs \<Rightarrow> map fst vs = map fst fs \<and>
       list_all (\<lambda>(f, T). case map_of vs f of Some x \<Rightarrow> typed m T x | None \<Rightarrow> False) fs
   | _ \<Rightarrow> False)"

fun denote :: "mem \<Rightarrow> gtype \<Rightarrow> gval \<Rightarrow> tree" where
  "denote m (TScalar k) v = (case v of VScalar s \<Rightarrow> Leaf s | _ \<Rightarrow> Ill)"
| "denote m (TPtr T) v = (case v of
     VPtr None \<Rightarrow> Nil_tree
   | VPtr (Some l) \<Rightarrow> (case load m l of Some x \<Rightarrow> Ref (denote m T x) | None \<Rightarrow> Ill)
   | _ \<Rightarrow> Ill)"
| "denote m (TSlice T) v = (case v of
     VSlice None \<Rightarrow> Nil_tree
   | VSlice (Some (a, off, n)) \<Rightarrow> (case window m a off n of Some xs \<Rightarrow> Elems (map (denote m T) xs) | None \<Rightarrow> Ill)
   | _ \<Rightarrow> Ill)"
| "denote m (TMap T) v = (case v of
     VMap None \<Rightarrow> Nil_tree
   | VMap (Some a) \<Rightarrow> (case cells m a of
       Some (VTable kvs) \<Rightarrow> Entries (map (\<lambda>(k, x). (k, denote m T x)) kvs)
     | _ \<Rightarrow> Ill)
   | _ \<Rightarrow> Ill)"
| "denote m (TStruct fs) v = (case v of
     VStruct vs \<Rightarrow> Fields (map (\<lambda>(f, T).
       (f, case map_of vs f of Some x \<Rightarrow> denote m T x | None \<Rightarrow> Ill)) fs)
   | _ \<Rightarrow> Ill)"

text \<open>The variables a value reaches.\<close>

fun reach :: "mem \<Rightarrow> gtype \<Rightarrow> gval \<Rightarrow> addr list" where
  "reach m (TScalar k) v = []"
| "reach m (TPtr T) v = (case v of
     VPtr (Some l) \<Rightarrow> fst l # (case load m l of Some x \<Rightarrow> reach m T x | None \<Rightarrow> [])
   | _ \<Rightarrow> [])"
| "reach m (TSlice T) v = (case v of
     VSlice (Some (a, off, n)) \<Rightarrow>
       a # (case window m a off n of Some xs \<Rightarrow> concat (map (reach m T) xs) | None \<Rightarrow> [])
   | _ \<Rightarrow> [])"
| "reach m (TMap T) v = (case v of
     VMap (Some a) \<Rightarrow> a # (case cells m a of
       Some (VTable kvs) \<Rightarrow> concat (map (\<lambda>(k, x). reach m T x) kvs) | _ \<Rightarrow> [])
   | _ \<Rightarrow> [])"
| "reach m (TStruct fs) v = (case v of
     VStruct vs \<Rightarrow> concat (map (\<lambda>(f, T).
       (case map_of vs f of Some x \<Rightarrow> reach m T x | None \<Rightarrow> [])) fs)
   | _ \<Rightarrow> [])"

text \<open>A type without pointers, slices and maps: assigning its values copies them.\<close>

fun flat :: "gtype \<Rightarrow> bool" where
  "flat (TScalar k) = True"
| "flat (TStruct fs) = list_all (\<lambda>(f, T). flat T) fs"
| "flat _ = False"

section \<open>Frame\<close>

lemma load_cong: "cells m' (fst l) = cells m (fst l) \<Longrightarrow> load m' l = load m l"
  by (simp add: load_def)

lemma window_cong: "cells m' a = cells m a \<Longrightarrow> window m' a off n = window m a off n"
  by (simp add: window_def)

lemma reach_parts:
  "load m l = Some x \<Longrightarrow> set (reach m T x) \<subseteq> set (reach m (TPtr T) (VPtr (Some l)))"
  "window m a off n = Some xs \<Longrightarrow> x \<in> set xs \<Longrightarrow>
     set (reach m T x) \<subseteq> set (reach m (TSlice T) (VSlice (Some (a, off, n))))"
  "cells m a = Some (VTable kvs) \<Longrightarrow> (k, x) \<in> set kvs \<Longrightarrow>
     set (reach m T x) \<subseteq> set (reach m (TMap T) (VMap (Some a)))"
  "(f, T) \<in> set fs \<Longrightarrow> map_of vs f = Some x \<Longrightarrow>
     set (reach m T x) \<subseteq> set (reach m (TStruct fs) (VStruct vs))"
  by (auto intro!: bexI)

text \<open>What a value means depends only on the variables it reaches.\<close>

definition agree :: "mem \<Rightarrow> mem \<Rightarrow> addr set \<Rightarrow> bool" where
  "agree m m' A \<longleftrightarrow> (\<forall>a\<in>A. cells m' a = cells m a)"

lemma agree_mono: "agree m m' A \<Longrightarrow> B \<subseteq> A \<Longrightarrow> agree m m' B"
  by (auto simp: agree_def)

definition unchanged :: "mem \<Rightarrow> mem \<Rightarrow> gtype \<Rightarrow> gval \<Rightarrow> bool" where
  "unchanged m m' T v \<longleftrightarrow> typed m' T v = typed m T v \<and> denote m' T v = denote m T v \<and>
     reach m' T v = reach m T v"

lemma frame: "agree m m' (set (reach m T v)) \<Longrightarrow> unchanged m m' T v"
proof (induction T arbitrary: v)
  case (TScalar k)
  show ?case by (simp add: unchanged_def)
next
  case (TPtr T)
  show ?case
  proof (cases "\<exists>l. v = VPtr (Some l)")
    case True
    then obtain l where v: "v = VPtr (Some l)" by blast
    have l: "load m' l = load m l"
      using TPtr.prems by (intro load_cong) (simp add: v agree_def)
    show ?thesis
    proof (cases "load m l")
      case (Some x)
      have "unchanged m m' T x"
        using TPtr.prems reach_parts(1) [OF Some] unfolding v by (blast intro: TPtr.IH agree_mono)
      then show ?thesis by (simp add: unchanged_def v l Some)
    qed (simp add: unchanged_def v l)
  qed (auto simp: unchanged_def split: gval.split option.split)
next
  case (TSlice T)
  show ?case
  proof (cases "\<exists>a off n. v = VSlice (Some (a, off, n))")
    case True
    then obtain a off n where v: "v = VSlice (Some (a, off, n))" by blast
    have w: "window m' a off n = window m a off n"
      using TSlice.prems by (intro window_cong) (simp add: v agree_def)
    show ?thesis
    proof (cases "window m a off n")
      case (Some xs)
      have "unchanged m m' T x" if "x \<in> set xs" for x
        using TSlice.prems reach_parts(2) [OF Some that] unfolding v by (blast intro: TSlice.IH agree_mono)
      then have "list_all (typed m' T) xs = list_all (typed m T) xs"
        "map (denote m' T) xs = map (denote m T) xs" "map (reach m' T) xs = map (reach m T) xs"
        by (simp_all add: unchanged_def list_all_iff)
      then show ?thesis by (simp add: unchanged_def v w Some del: map_eq_conv)
    qed (simp add: unchanged_def v w)
  qed (auto simp: unchanged_def split: gval.split option.split)
next
  case (TMap T)
  show ?case
  proof (cases "\<exists>a. v = VMap (Some a)")
    case True
    then obtain a where v: "v = VMap (Some a)" by blast
    have w: "cells m' a = cells m a"
      using TMap.prems by (simp add: v agree_def)
    show ?thesis
    proof (cases "\<exists>kvs. cells m a = Some (VTable kvs)")
      case True
      then obtain kvs where kvs: "cells m a = Some (VTable kvs)" by blast
      have u: "unchanged m m' T x" if "(k, x) \<in> set kvs" for k x
        using TMap.prems reach_parts(3) [OF kvs that] unfolding v by (blast intro: TMap.IH agree_mono)
      then have "list_all (\<lambda>(k, x). typed m' T x) kvs = list_all (\<lambda>(k, x). typed m T x) kvs"
        "map (\<lambda>(k, x). (k, denote m' T x)) kvs = map (\<lambda>(k, x). (k, denote m T x)) kvs"
        "map (\<lambda>(k, x). reach m' T x) kvs = map (\<lambda>(k, x). reach m T x) kvs"
        by (auto simp: unchanged_def list_all_iff)
      then show ?thesis by (simp add: unchanged_def v w kvs del: map_eq_conv)
    next
      case False
      then show ?thesis by (auto simp: unchanged_def v w split: option.split gval.split)
    qed
  qed (auto simp: unchanged_def split: gval.split option.split)
next
  case (TStruct fs)
  show ?case
  proof (cases "\<exists>vs. v = VStruct vs")
    case True
    then obtain vs where v: "v = VStruct vs" by blast
    have "unchanged m m' T x" if f: "(f, T) \<in> set fs" and x: "map_of vs f = Some x" for f T x
      using agree_mono [OF TStruct.prems [unfolded v] reach_parts(4) [OF f x]]
      by (intro TStruct.IH [OF f]) simp_all
    then have "list_all (\<lambda>(f, T). case map_of vs f of Some x \<Rightarrow> typed m' T x | None \<Rightarrow> False) fs =
        list_all (\<lambda>(f, T). case map_of vs f of Some x \<Rightarrow> typed m T x | None \<Rightarrow> False) fs"
      "map (\<lambda>(f, T). (f, case map_of vs f of Some x \<Rightarrow> denote m' T x | None \<Rightarrow> Ill)) fs =
        map (\<lambda>(f, T). (f, case map_of vs f of Some x \<Rightarrow> denote m T x | None \<Rightarrow> Ill)) fs"
      "map (\<lambda>(f, T). (case map_of vs f of Some x \<Rightarrow> reach m' T x | None \<Rightarrow> [])) fs =
        map (\<lambda>(f, T). (case map_of vs f of Some x \<Rightarrow> reach m T x | None \<Rightarrow> [])) fs"
      by (auto simp: unchanged_def list_all_iff split: option.split)
    then show ?thesis by (simp add: unchanged_def v del: map_eq_conv)
  qed (auto simp: unchanged_def split: gval.split)
qed

lemma frame_simps:
  assumes "agree m m' (set (reach m T v))"
  shows "typed m' T v = typed m T v" "denote m' T v = denote m T v" "reach m' T v = reach m T v"
  using frame [OF assms] by (simp_all add: unchanged_def)

lemma flat_reach [simp]: "flat T \<Longrightarrow> reach m T v = []"
proof (induction T arbitrary: v)
  case (TStruct fs)
  have "concat (map (\<lambda>(f, T). case map_of vs f of Some x \<Rightarrow> reach m T x | None \<Rightarrow> []) fs) = []" for vs
    using TStruct by (force simp: list_all_iff split: option.split)
  then show ?case by (simp split: gval.split)
qed simp_all

lemma flat_stable:
  assumes "flat T"
  shows "typed m' T v = typed m T v" "denote m' T v = denote m T v"
  using frame_simps [of m m' T v] assms by (simp_all add: agree_def)

section \<open>Reading and writing\<close>

lemma get_at_append: "get_at v (p @ q) = Option.bind (get_at v p) (\<lambda>w. get_at w q)"
proof (induction v p rule: get_at.induct)
  case (2 vs f p)
  then show ?case by (cases "map_of vs f") auto
qed auto

lemma put_at_append:
  "put_at v (p @ q) x = Option.bind (get_at v p) (\<lambda>w. Option.bind (put_at w q x) (put_at v p))"
proof (induction v p x rule: put_at.induct)
  case (2 vs f p x)
  then show ?case by (cases "map_of vs f") (auto simp: Option.bind_assoc)
next
  case (3 xs j p x)
  then show ?case by (auto simp: Option.bind_assoc)
qed auto

lemma put_at_defined: "get_at v p = Some w \<Longrightarrow> \<exists>v'. put_at v p x = Some v'"
proof (induction v p x rule: put_at.induct)
  case (2 vs f p x)
  then show ?case by (cases "map_of vs f") auto
qed (auto split: if_splits)

lemma get_put: "put_at v p x = Some v' \<Longrightarrow> get_at v' p = Some x"
proof (induction v p x arbitrary: v' rule: put_at.induct)
  case (2 vs f p x)
  then show ?case by (auto simp: bind_eq_Some_conv update_conv')
qed (auto simp: bind_eq_Some_conv split: if_splits)

lemma alist_update_twice: "AList.update k v (AList.update k w kvs) = AList.update k v kvs"
  by (induction kvs) auto

lemma alist_update_same: "map_of kvs k = Some v \<Longrightarrow> AList.update k v kvs = kvs"
  by (induction kvs) (auto split: if_splits)

lemma put_put: "put_at v p x = Some v' \<Longrightarrow> put_at v' p y = put_at v p y"
proof (induction v p x arbitrary: v' rule: put_at.induct)
  case (2 vs f p x)
  then show ?case by (auto simp: bind_eq_Some_conv update_conv' alist_update_twice)
qed (auto simp: bind_eq_Some_conv split: if_splits)

lemma put_get: "get_at v p = Some x \<Longrightarrow> put_at v p x = Some v"
proof (induction v p rule: get_at.induct)
  case (2 vs f p)
  then show ?case by (auto simp: bind_eq_Some_conv alist_update_same)
qed (auto split: if_splits)

text \<open>\<open>touches A\<close>: of the variables there are, only those in \<open>A\<close> may change.\<close>

definition touches :: "addr set \<Rightarrow> mem \<Rightarrow> mem \<Rightarrow> bool" where
  "touches A m m' \<longleftrightarrow> wf_mem m' \<and> next_addr m \<le> next_addr m' \<and>
     (\<forall>a<next_addr m. a \<notin> A \<longrightarrow> cells m' a = cells m a)"

text \<open>\<open>written\<close>: the variable of \<open>out\<close> differs only in that \<open>out\<close> holds \<open>v\<close>.\<close>

definition written :: "mem \<Rightarrow> loc \<Rightarrow> gval \<Rightarrow> mem \<Rightarrow> bool" where
  "written m out v m' \<longleftrightarrow> (\<exists>c c'. cells m (fst out) = Some c \<and> put_at c (snd out) v = Some c' \<and>
     cells m' (fst out) = Some c')"

lemma touches_refl: "wf_mem m \<Longrightarrow> touches A m m"
  by (simp add: touches_def)

lemma touches_trans:
  "touches A m m1 \<Longrightarrow> touches B m1 m2 \<Longrightarrow> B \<inter> {..<next_addr m} \<subseteq> A \<Longrightarrow> touches A m m2"
  unfolding touches_def by (metis IntI lessThan_iff order_less_le_trans order_trans subsetD)

lemma loaded_bound: "wf_mem m \<Longrightarrow> cells m a = Some v \<Longrightarrow> a < next_addr m"
  "wf_mem m \<Longrightarrow> load m l = Some v \<Longrightarrow> fst l < next_addr m"
  by (metis wf_mem_def not_le option.distinct(1),
      metis wf_mem_def load_def not_le bind_eq_None_conv option.distinct(1))

lemma reached_bound: "wf_mem m \<Longrightarrow> typed m T v \<Longrightarrow> a \<in> set (reach m T v) \<Longrightarrow> a < next_addr m"
proof (induction T arbitrary: v)
  case (TPtr T)
  then show ?case
    by (fastforce split: gval.splits option.splits dest: loaded_bound)
next
  case (TSlice T)
  then show ?case
    by (fastforce simp: list_all_iff window_def split: gval.splits option.splits if_splits dest: loaded_bound)
next
  case (TMap T)
  then show ?case
    by (fastforce simp: list_all_iff split: gval.splits option.splits dest: loaded_bound)
next
  case (TStruct fs)
  then show ?case
    by (fastforce simp: list_all_iff split: gval.splits option.splits)
qed simp

lemma typed_reach_bound: "wf_mem m \<Longrightarrow> typed m T v \<Longrightarrow> set (reach m T v) \<subseteq> {..<next_addr m}"
  using reached_bound by blast

lemma touches_keeps:
  assumes "touches A m m'" and "wf_mem m" and "typed m T v" and "set (reach m T v) \<inter> A = {}"
  shows "typed m' T v" "denote m' T v = denote m T v" "reach m' T v = reach m T v"
proof -
  have "agree m m' (set (reach m T v))"
    using typed_reach_bound [OF assms(2,3)] assms(1,4) by (auto simp: agree_def touches_def)
  from frame_simps [OF this] assms(3)
  show "typed m' T v" "denote m' T v = denote m T v" "reach m' T v = reach m T v" by simp_all
qed

lemma touches_load:
  "touches A m m' \<Longrightarrow> wf_mem m \<Longrightarrow> load m l = Some v \<Longrightarrow> fst l \<notin> A \<Longrightarrow> load m' l = Some v"
  using loaded_bound(2) [of m l v] load_cong [of m' l m] by (simp add: touches_def)

lemma touches_cells:
  "touches A m m' \<Longrightarrow> wf_mem m \<Longrightarrow> cells m a = Some v \<Longrightarrow> a \<notin> A \<Longrightarrow> cells m' a = Some v"
  using loaded_bound(1) [of m a v] by (simp add: touches_def)

lemma store_spec:
  assumes "wf_mem m" and "load m out = Some x"
  obtains m' where "store out v m = Some m'" "touches {fst out} m m'" "written m out v m'"
    "next_addr m' = next_addr m"
proof -
  obtain c where c: "cells m (fst out) = Some c" "get_at c (snd out) = Some x"
    using assms(2) by (auto simp: load_def bind_eq_Some_conv)
  then obtain c' where c': "put_at c (snd out) v = Some c'" using put_at_defined by blast
  have "fst out < next_addr m" using assms by (rule loaded_bound)
  then show ?thesis
    using c c' assms(1)
    by (intro that [of "m\<lparr>cells := (cells m)(fst out \<mapsto> c')\<rparr>"]) (auto simp: store_def touches_def written_def wf_mem_def)
qed

lemma alloc_spec:
  assumes "wf_mem m"
  shows "alloc v m = (next_addr m, snd (alloc v m))" "touches {} m (snd (alloc v m))"
    "next_addr (snd (alloc v m)) = Suc (next_addr m)" "cells (snd (alloc v m)) (next_addr m) = Some v"
  using assms by (auto simp: alloc_def touches_def wf_mem_def)

lemma written_load: "written m out v m' \<Longrightarrow> load m' out = Some v"
  by (auto simp: written_def load_def dest: get_put)

lemma written_trans: "written m out v m1 \<Longrightarrow> written m1 out v' m2 \<Longrightarrow> written m out v' m2"
  by (auto simp: written_def put_put)

lemma written_same: "load m out = Some v \<Longrightarrow> written m out v m"
  by (auto simp: written_def load_def bind_eq_Some_conv put_get)

lemma written_cong:
  "written m1 out v m2 \<Longrightarrow> cells m (fst out) = cells m1 (fst out) \<Longrightarrow>
     cells m3 (fst out) = cells m2 (fst out) \<Longrightarrow> written m out v m3"
  by (simp add: written_def)

end
