(* ===== verification/GoCopy.thy ===== *)
theory GoCopy
  imports GoHeap
begin

text \<open>
  When a statement copies a value deeply, and that the statements of the generator do, each for
  its type. A struct's copy is deep when its statements cover its fields.
\<close>

section \<open>Deep copies\<close>

text \<open>
  The value \<open>v'\<close> in \<open>m'\<close> is the value \<open>v\<close> of \<open>m\<close> without sharing: same type, same meaning, and
  every variable it reaches is new.
\<close>

definition fresh_copy :: "gtype \<Rightarrow> mem \<Rightarrow> gval \<Rightarrow> mem \<Rightarrow> gval \<Rightarrow> bool" where
  "fresh_copy T m v m' v' \<longleftrightarrow> typed m' T v' \<and> denote m' T v' = denote m T v \<and>
     set (reach m' T v') \<subseteq> {next_addr m..<next_addr m'}"

text \<open>
  \<open>copies pre T c\<close>: on a well-typed value, into a place outside what the value reaches, \<open>c\<close> does
  not panic, leaves a fresh copy in \<open>out\<close> and changes nothing else. \<open>pre\<close> says what \<open>out\<close> may hold
  before.
\<close>

definition copies :: "(gval \<Rightarrow> gval \<Rightarrow> bool) \<Rightarrow> gtype \<Rightarrow> copier \<Rightarrow> bool" where
  "copies pre T c \<longleftrightarrow> (\<forall>m i out v x.
     wf_mem m \<and> load m i = Some v \<and> typed m T v \<and> load m out = Some x \<and> pre x v \<and>
     fst out \<noteq> fst i \<and> fst out \<notin> set (reach m T v) \<longrightarrow>
     (\<exists>m' v'. c i out m = Some m' \<and> touches {fst out} m m' \<and> written m out v' m' \<and>
        fresh_copy T m v m' v'))"

text \<open>A copier for any \<open>out\<close>, and one that completes an assignment or fills a new variable.\<close>

definition deep_copies :: "gtype \<Rightarrow> copier \<Rightarrow> bool" where
  "deep_copies = copies (\<lambda>x v. True)"

definition completes :: "gtype \<Rightarrow> copier \<Rightarrow> bool" where
  "completes T = copies (\<lambda>x v. x = v \<or> x = zero T) T"

lemma deep_completes: "deep_copies T c \<Longrightarrow> completes T c"
  unfolding deep_copies_def completes_def copies_def by blast

lemma copiesI:
  assumes "\<And>m i out v x. wf_mem m \<Longrightarrow> load m i = Some v \<Longrightarrow> typed m T v \<Longrightarrow> load m out = Some x \<Longrightarrow>
     pre x v \<Longrightarrow> fst out \<noteq> fst i \<Longrightarrow> fst out \<notin> set (reach m T v) \<Longrightarrow>
     \<exists>m' v'. c i out m = Some m' \<and> touches {fst out} m m' \<and> written m out v' m' \<and> fresh_copy T m v m' v'"
  shows "copies pre T c"
  unfolding copies_def using assms by blast

lemma copiesE:
  assumes "copies pre T c" and "wf_mem m" and "load m i = Some v" and "typed m T v"
    and "load m out = Some x" and "pre x v" and "fst out \<noteq> fst i" and "fst out \<notin> set (reach m T v)"
  obtains m' v' where "c i out m = Some m'" "touches {fst out} m m'" "written m out v' m'"
    "fresh_copy T m v m' v'"
  using assms unfolding copies_def by blast

lemma fresh_keeps:
  assumes "fresh_copy T m v m1 v'" and "touches {a} m1 m2" and "wf_mem m1" and "a < next_addr m"
  shows "fresh_copy T m v m2 v'"
proof -
  have "set (reach m1 T v') \<inter> {a} = {}"
    using assms(1,4) by (auto simp: fresh_copy_def)
  from touches_keeps [OF assms(2,3) _ this] assms(1,2) show ?thesis
    by (auto simp: fresh_copy_def touches_def)
qed

lemma fresh_flat: "flat T \<Longrightarrow> typed m T v \<Longrightarrow> fresh_copy T m v m' v"
  by (simp add: fresh_copy_def flat_stable [of T m' v m])

lemma touches_wf: "touches A m m' \<Longrightarrow> wf_mem m'"
  by (simp add: touches_def)

lemma touches_le: "touches A m m' \<Longrightarrow> next_addr m \<le> next_addr m'"
  by (simp add: touches_def)

lemma touches_cell: "touches A m m' \<Longrightarrow> a < next_addr m \<Longrightarrow> a \<notin> A \<Longrightarrow> cells m' a = cells m a"
  by (simp add: touches_def)

lemma assign_copies:
  assumes "flat T"
  shows "deep_copies T assign"
  unfolding deep_copies_def
proof (rule copiesI)
  fix m i out v x
  assume m: "wf_mem m" and v: "load m i = Some v" "typed m T v" and x: "load m out = Some x"
  obtain m' where "store out v m = Some m'" "touches {fst out} m m'" "written m out v m'"
    by (rule store_spec [OF m x])
  with v assms show "\<exists>m' v'. assign i out m = Some m' \<and> touches {fst out} m m' \<and> written m out v' m' \<and>
      fresh_copy T m v m' v'"
    by (auto simp: assign_def fresh_flat)
qed

text \<open>The first two steps of a statement that allocates: \<open>*out\<close> becomes the new reference.\<close>

lemma alloc_store:
  assumes "wf_mem m" and "load m out = Some x"
  obtains m1 m2 where "alloc c m = (next_addr m, m1)" "store out r m1 = Some m2"
    "touches {fst out} m m2" "written m out r m2" "next_addr m2 = Suc (next_addr m)"
    "cells m2 (next_addr m) = Some c"
proof -
  let ?m1 = "snd (alloc c m)"
  note a = alloc_spec [OF assms(1), of c]
  have o1: "load ?m1 out = Some x" by (rule touches_load [OF a(2) assms]) simp
  have w1: "wf_mem ?m1" by (rule touches_wf [OF a(2)])
  obtain m2 where m2: "store out r ?m1 = Some m2" "touches {fst out} ?m1 m2" "written ?m1 out r m2"
    "next_addr m2 = next_addr ?m1"
    by (rule store_spec [OF w1 o1])
  have out: "fst out < next_addr m" by (rule loaded_bound(2) [OF assms])
  show ?thesis
  proof (rule that [OF a(1) m2(1)])
    show "touches {fst out} m m2"
      using touches_trans [OF a(2) m2(2)] m2(2) out a(2) unfolding touches_def by auto
    show "written m out r m2"
      using touches_cell [OF a(2) out] by (intro written_cong [OF m2(3)]) simp_all
    show "next_addr m2 = Suc (next_addr m)" using m2(4) a(3) by simp
    show "cells m2 (next_addr m) = Some c"
      using touches_cell [OF m2(2), of "next_addr m"] a(3,4) out by simp
  qed
qed

lemma copyPtr_completes:
  assumes body: "completes T body"
  shows "completes (TPtr T) (copyPtr T body)"
  unfolding completes_def
proof (rule copiesI)
  fix m i out v x
  assume m: "wf_mem m" and v: "load m i = Some v" and t: "typed m (TPtr T) v"
    and x: "load m out = Some x" and pre: "x = v \<or> x = zero (TPtr T)"
    and sep: "fst out \<noteq> fst i" "fst out \<notin> set (reach m (TPtr T) v)"
  show "\<exists>m' v'. copyPtr T body i out m = Some m' \<and> touches {fst out} m m' \<and> written m out v' m' \<and>
      fresh_copy (TPtr T) m v m' v'"
  proof (cases "v = VPtr None")
    case True
    with v x pre m show ?thesis
      by (intro exI [of _ m] exI [of _ v])
        (auto simp: copyPtr_def fresh_copy_def touches_refl written_same)
  next
    case False
    with t obtain l y where l: "v = VPtr (Some l)" "load m l = Some y" "typed m T y"
      by (auto split: gval.splits option.splits)
    have out: "fst out \<noteq> fst l" "fst out \<notin> set (reach m T y)"
      using sep(2) l by simp_all
    let ?a = "next_addr m"
    obtain m1 m2 where m2: "alloc (zero T) m = (?a, m1)"
      "store out (VPtr (Some (?a, []))) m1 = Some m2" "touches {fst out} m m2"
      "written m out (VPtr (Some (?a, []))) m2" "next_addr m2 = Suc ?a"
      "cells m2 ?a = Some (zero T)"
      by (rule alloc_store [OF m x])
    have w2: "wf_mem m2" by (rule touches_wf [OF m2(3)])
    have d: "deref m2 i = Some l" "deref m2 out = Some (?a, [])"
      using touches_load [OF m2(3) m v] written_load [OF m2(4)] sep(1) l(1) by (simp_all add: deref_def)
    have y2: "load m2 l = Some y" by (rule touches_load [OF m2(3) m l(2)]) (use out in simp)
    have keep: "typed m2 T y" "denote m2 T y = denote m T y" "reach m2 T y = reach m T y"
      by (rule touches_keeps [OF m2(3) m l(3)]; use out in simp)+
    have zero2: "load m2 (?a, []) = Some (zero T)" by (simp add: load_def m2(6))
    have below: "fst l < ?a" "\<forall>b\<in>set (reach m T y). b < ?a"
      using loaded_bound(2) [OF m l(2)] typed_reach_bound [OF m l(3)] by auto
    obtain m3 y' where m3: "body l (?a, []) m2 = Some m3" "touches {?a} m2 m3"
      "written m2 (?a, []) y' m3" "fresh_copy T m2 y m3 y'"
      by (rule copiesE [OF body [unfolded completes_def] w2 y2 keep(1) zero2])
        (use below keep(3) in auto)
    have "load m3 (?a, []) = Some y'" using written_load [OF m3(3)] by simp
    then have "fresh_copy (TPtr T) m v m3 (VPtr (Some (?a, [])))"
      using m3(4) keep m2(5) touches_le [OF m3(2)] by (auto simp: fresh_copy_def l)
    moreover have "touches {fst out} m m3"
      by (rule touches_trans [OF m2(3) m3(2)]) simp
    moreover have "written m out (VPtr (Some (?a, []))) m3"
      using loaded_bound(2) [OF m x] touches_cell [OF m3(2), of "fst out"] m2(5)
      by (intro written_cong [OF m2(4)]) simp_all
    ultimately show ?thesis
      using v l m2(1,2) d m3(1) by (auto simp: copyPtr_def)
  qed
qed

text \<open>The loop over the elements of a slice, from index \<open>j\<close> on.\<close>

lemma copyElems_spec:
  assumes body: "completes T body"
  shows "wf_mem m \<Longrightarrow> cells m a = Some (VArray xs) \<Longrightarrow> cells m b = Some (VArray ys) \<Longrightarrow> a \<noteq> b \<Longrightarrow>
    off + j + n \<le> length xs \<Longrightarrow> j + n = length ys \<Longrightarrow>
    (\<And>k. j \<le> k \<Longrightarrow> k < j + n \<Longrightarrow> typed m T (xs ! (off + k)) \<and> b \<notin> set (reach m T (xs ! (off + k))) \<and>
       ys ! k = zero T) \<Longrightarrow>
    \<exists>m' ys'. copyElems body a off b j n m = Some m' \<and> touches {b} m m' \<and> cells m' b = Some (VArray ys') \<and>
      length ys' = length ys \<and> (\<forall>k<j. ys' ! k = ys ! k) \<and>
      (\<forall>k. j \<le> k \<and> k < j + n \<longrightarrow> fresh_copy T m (xs ! (off + k)) m' (ys' ! k))"
proof (induction n arbitrary: j m ys)
  case 0
  then show ?case by (auto simp: touches_refl)
next
  case (Suc n)
  have here: "typed m T (xs ! (off + j))" "b \<notin> set (reach m T (xs ! (off + j)))" "ys ! j = zero T"
    using Suc.prems(7) [of j] by simp_all
  have v: "load m (a, [Index (off + j)]) = Some (xs ! (off + j))"
    using Suc.prems(2,5) by (simp add: load_def)
  have x: "load m (b, [Index j]) = Some (zero T)"
    using Suc.prems(3,6) here(3) by (simp add: load_def)
  obtain m1 y where m1: "body (a, [Index (off + j)]) (b, [Index j]) m = Some m1" "touches {b} m m1"
    "written m (b, [Index j]) y m1" "fresh_copy T m (xs ! (off + j)) m1 y"
    by (rule copiesE [OF body [unfolded completes_def] Suc.prems(1) v here(1) x]) (use Suc.prems(4) here(2) in auto)
  have w1: "wf_mem m1" by (rule touches_wf [OF m1(2)])
  have a1: "cells m1 a = Some (VArray xs)"
    by (rule touches_cells [OF m1(2) Suc.prems(1,2)]) (use Suc.prems(4) in simp)
  have b1: "cells m1 b = Some (VArray (ys[j := y]))"
    using m1(3) Suc.prems(3,6) by (auto simp: written_def)
  have keep: "typed m1 T x" "denote m1 T x = denote m T x" "reach m1 T x = reach m T x"
    if "typed m T x" "b \<notin> set (reach m T x)" for x
    by (rule touches_keeps [OF m1(2) Suc.prems(1) that(1)]; use that(2) in simp)+
  obtain m' ys' where m': "copyElems body a off b (Suc j) n m1 = Some m'" "touches {b} m1 m'"
    "cells m' b = Some (VArray ys')" "length ys' = length (ys[j := y])"
    "\<forall>k<Suc j. ys' ! k = ys[j := y] ! k"
    "\<forall>k. Suc j \<le> k \<and> k < Suc j + n \<longrightarrow> fresh_copy T m1 (xs ! (off + k)) m' (ys' ! k)"
  proof (rule exE [OF Suc.IH [of m1 "ys[j := y]" "Suc j"]])
    show "typed m1 T (xs ! (off + k)) \<and> b \<notin> set (reach m1 T (xs ! (off + k))) \<and> ys[j := y] ! k = zero T"
      if "Suc j \<le> k" "k < Suc j + n" for k
      using Suc.prems(7) [of k] that keep by simp
  qed (use w1 a1 b1 Suc.prems(4,5,6) in auto)
  have bm: "b < next_addr m" by (rule loaded_bound(1) [OF Suc.prems(1,3)])
  have "fresh_copy T m (xs ! (off + k)) m' (ys' ! k)" if k: "j \<le> k" "k < j + Suc n" for k
  proof (cases "k = j")
    case True
    then have "ys' ! k = y" using m'(5) Suc.prems(6) by simp
    with fresh_keeps [OF m1(4) m'(2) w1 bm] True show ?thesis by simp
  next
    case False
    with k m'(6) have "fresh_copy T m1 (xs ! (off + k)) m' (ys' ! k)" by simp
    then show ?thesis
      using keep [of "xs ! (off + k)"] Suc.prems(7) [OF k] touches_le [OF m1(2)]
      by (auto simp: fresh_copy_def)
  qed
  moreover have "touches {b} m m'" by (rule touches_trans [OF m1(2) m'(2)]) simp
  ultimately show ?case using m1(1) m'(1,3,4,5) by (intro exI [of _ m'] exI [of _ ys']) auto
qed

lemma typed_slice:
  assumes "typed m (TSlice T) v" and "v \<noteq> VSlice None"
  obtains a off n xs where "v = VSlice (Some (a, off, n))" "cells m a = Some (VArray xs)"
    "off + n \<le> length xs" "list_all (typed m T) (take n (drop off xs))"
proof -
  from assms obtain q where q: "v = VSlice (Some q)" by (auto split: gval.splits)
  obtain a off n where v: "v = VSlice (Some (a, off, n))" using q by (cases q) simp
  with assms(1) obtain ws where ws: "window m a off n = Some ws" "list_all (typed m T) ws"
    by (auto split: option.splits)
  then obtain xs where "cells m a = Some (VArray xs)" "off + n \<le> length xs" "ws = take n (drop off xs)"
    by (auto simp: window_def split: gval.splits option.splits if_splits)
  with v ws that show ?thesis by blast
qed

lemma fresh_slice:
  assumes "cells m a = Some (VArray xs)" and "off + n \<le> length xs"
    and "cells m' b = Some (VArray ys)" and "length ys = n" and "next_addr m \<le> b" and "b < next_addr m'"
    and "\<And>k. k < n \<Longrightarrow> fresh_copy T m (xs ! (off + k)) m' (ys ! k)"
  shows "fresh_copy (TSlice T) m (VSlice (Some (a, off, n))) m' (VSlice (Some (b, 0, n)))"
proof -
  have w: "window m a off n = Some (take n (drop off xs))" "window m' b 0 n = Some ys"
    using assms(1-4) by (simp_all add: window_def)
  have each: "fresh_copy T m (take n (drop off xs) ! k) m' (ys ! k)" if "k < n" for k
    using assms(2,7) that by simp
  then have "map (denote m' T) ys = map (denote m T) (take n (drop off xs))"
    using assms(2,4) by (intro nth_equalityI) (simp_all add: fresh_copy_def)
  moreover have "list_all (typed m' T) ys"
    using each assms(4) by (auto simp: fresh_copy_def list_all_length)
  moreover have "set (reach m' T y) \<subseteq> {next_addr m..<next_addr m'}" if "y \<in> set ys" for y
    using each that assms(4) by (auto simp: fresh_copy_def in_set_conv_nth)
  ultimately show ?thesis
    using assms(5,6) by (auto simp: fresh_copy_def w simp del: map_eq_conv)
qed

lemma copySlice_completes:
  assumes body: "completes T body"
  shows "completes (TSlice T) (copySlice T body)"
  unfolding completes_def
proof (rule copiesI)
  fix m i out v x
  assume m: "wf_mem m" and v: "load m i = Some v" and t: "typed m (TSlice T) v"
    and x: "load m out = Some x" and pre: "x = v \<or> x = zero (TSlice T)"
    and sep: "fst out \<noteq> fst i" "fst out \<notin> set (reach m (TSlice T) v)"
  show "\<exists>m' v'. copySlice T body i out m = Some m' \<and> touches {fst out} m m' \<and> written m out v' m' \<and>
      fresh_copy (TSlice T) m v m' v'"
  proof (cases "v = VSlice None")
    case True
    with v x pre m show ?thesis
      by (intro exI [of _ m] exI [of _ v])
        (auto simp: copySlice_def fresh_copy_def touches_refl written_same)
  next
    case False
    obtain a off n xs where l: "v = VSlice (Some (a, off, n))" "cells m a = Some (VArray xs)"
      "off + n \<le> length xs" "list_all (typed m T) (take n (drop off xs))"
      by (rule typed_slice [OF t False])
    let ?b = "next_addr m"
    obtain m1 m2 where m2: "alloc (VArray (replicate n (zero T))) m = (?b, m1)"
      "store out (VSlice (Some (?b, 0, n))) m1 = Some m2" "touches {fst out} m m2"
      "written m out (VSlice (Some (?b, 0, n))) m2" "next_addr m2 = Suc ?b"
      "cells m2 ?b = Some (VArray (replicate n (zero T)))"
      by (rule alloc_store [OF m x])
    have w2: "wf_mem m2" by (rule touches_wf [OF m2(3)])
    have a: "fst out \<noteq> a" "a < ?b" using sep(2) l(1) loaded_bound(1) [OF m l(2)] by auto
    have a2: "cells m2 a = Some (VArray xs)"
      by (rule touches_cells [OF m2(3) m l(2)]) (use a in auto)
    have elem: "typed m T (xs ! (off + k))" "fst out \<notin> set (reach m T (xs ! (off + k)))" if "k < n" for k
    proof -
      have mem: "xs ! (off + k) \<in> set (take n (drop off xs))"
        using that l(3) by (auto simp: in_set_conv_nth intro!: exI [of _ k])
      then show "typed m T (xs ! (off + k))" using l(4) by (simp add: list_all_iff)
      show "fst out \<notin> set (reach m T (xs ! (off + k)))"
        using sep(2) reach_parts(2) [of m a off n "take n (drop off xs)", OF _ mem, of T] l(1-3)
        by (auto simp: window_def)
    qed
    have keep: "typed m2 T (xs ! (off + k))" "denote m2 T (xs ! (off + k)) = denote m T (xs ! (off + k))"
      "reach m2 T (xs ! (off + k)) = reach m T (xs ! (off + k))" if "k < n" for k
      by (rule touches_keeps [OF m2(3) m elem(1) [OF that]]; use elem(2) [OF that] in simp)+
    have new: "?b \<notin> set (reach m T (xs ! (off + k)))" if "k < n" for k
      using typed_reach_bound [OF m elem(1) [OF that]] by auto
    obtain m3 ys where m3: "copyElems body a off ?b 0 n m2 = Some m3" "touches {?b} m2 m3"
      "cells m3 ?b = Some (VArray ys)" "length ys = n"
      "\<And>k. k < n \<Longrightarrow> fresh_copy T m2 (xs ! (off + k)) m3 (ys ! k)"
      using copyElems_spec [OF body w2 a2 m2(6), of off 0 n] a l(3) keep new by auto
    have "fresh_copy (TSlice T) m v m3 (VSlice (Some (?b, 0, n)))"
      unfolding l(1)
    proof (rule fresh_slice [OF l(2,3) m3(3,4)])
      show "?b < next_addr m3" using m2(5) touches_le [OF m3(2)] by simp
      show "fresh_copy T m (xs ! (off + k)) m3 (ys ! k)" if "k < n" for k
        using m3(5) [OF that] keep [OF that] m2(5) by (auto simp: fresh_copy_def)
    qed simp
    moreover have "touches {fst out} m m3"
      by (rule touches_trans [OF m2(3) m3(2)]) simp
    moreover have "written m out (VSlice (Some (?b, 0, n))) m3"
      using loaded_bound(2) [OF m x] touches_cell [OF m3(2), of "fst out"] m2(5)
      by (intro written_cong [OF m2(4)]) simp_all
    ultimately show ?thesis
      using v l(1) m2(1,2) m3(1) by (auto simp: copySlice_def)
  qed
qed

text \<open>The end of a statement that fills the variable \<open>b\<close> it allocated in one store.\<close>

lemma filled:
  assumes "wf_mem m" and "load m out = Some x"
    and "touches {fst out} m m2" and "written m out r m2" and "next_addr m2 = Suc (next_addr m)"
    and "touches {next_addr m} m2 m3"
  shows "touches {fst out} m m3" "written m out r m3" "next_addr m < next_addr m3"
proof -
  show "touches {fst out} m m3"
    by (rule touches_trans [OF assms(3,6)]) simp
  show "written m out r m3"
    using loaded_bound(2) [OF assms(1,2)] touches_cell [OF assms(6), of "fst out"] assms(5)
    by (intro written_cong [OF assms(4)]) simp_all
  show "next_addr m < next_addr m3" using assms(5) touches_le [OF assms(6)] by simp
qed

lemma copyFlatSlice_completes:
  assumes flat: "flat T"
  shows "completes (TSlice T) (copyFlatSlice T)"
  unfolding completes_def
proof (rule copiesI)
  fix m i out v x
  assume m: "wf_mem m" and v: "load m i = Some v" and t: "typed m (TSlice T) v"
    and x: "load m out = Some x" and pre: "x = v \<or> x = zero (TSlice T)"
    and sep: "fst out \<noteq> fst i" "fst out \<notin> set (reach m (TSlice T) v)"
  show "\<exists>m' v'. copyFlatSlice T i out m = Some m' \<and> touches {fst out} m m' \<and> written m out v' m' \<and>
      fresh_copy (TSlice T) m v m' v'"
  proof (cases "v = VSlice None")
    case True
    with v x pre m show ?thesis
      by (intro exI [of _ m] exI [of _ v])
        (auto simp: copyFlatSlice_def fresh_copy_def touches_refl written_same)
  next
    case False
    obtain a off n xs where l: "v = VSlice (Some (a, off, n))" "cells m a = Some (VArray xs)"
      "off + n \<le> length xs" "list_all (typed m T) (take n (drop off xs))"
      by (rule typed_slice [OF t False])
    let ?b = "next_addr m" and ?ys = "take n (drop off xs)"
    obtain m1 m2 where m2: "alloc (VArray (replicate n (zero T))) m = (?b, m1)"
      "store out (VSlice (Some (?b, 0, n))) m1 = Some m2" "touches {fst out} m m2"
      "written m out (VSlice (Some (?b, 0, n))) m2" "next_addr m2 = Suc ?b"
      "cells m2 ?b = Some (VArray (replicate n (zero T)))"
      by (rule alloc_store [OF m x])
    have w2: "wf_mem m2" by (rule touches_wf [OF m2(3)])
    have a2: "cells m2 a = Some (VArray xs)"
      by (rule touches_cells [OF m2(3) m l(2)]) (use sep(2) l(1) in auto)
    have b2: "load m2 (?b, []) = Some (VArray (replicate n (zero T)))" by (simp add: load_def m2(6))
    obtain m3 where m3: "store (?b, []) (VArray ?ys) m2 = Some m3" "touches {?b} m2 m3"
      "written m2 (?b, []) (VArray ?ys) m3"
      using store_spec [OF w2 b2] by (metis fst_conv)
    have b3: "cells m3 ?b = Some (VArray ?ys)" using m3(3) by (simp add: written_def)
    note fin = filled [OF m x m2(3,4,5) m3(2)]
    have "fresh_copy (TSlice T) m v m3 (VSlice (Some (?b, 0, n)))"
      unfolding l(1)
    proof (rule fresh_slice [OF l(2,3) b3])
      show "fresh_copy T m (xs ! (off + k)) m3 (?ys ! k)" if "k < n" for k
      proof -
        have "xs ! (off + k) \<in> set ?ys"
          using that l(3) by (auto simp: in_set_conv_nth intro!: exI [of _ k])
        with l(3,4) that show ?thesis by (simp add: fresh_flat [OF flat] list_all_iff)
      qed
    qed (use l(3) fin(3) in simp_all)
    then show ?thesis
      using v l(1,3) m2(1,2) m3(1) a2 fin by (auto simp: copyFlatSlice_def window_def)
  qed
qed

lemma alist_update_new: "k \<notin> set (map fst kvs) \<Longrightarrow> AList.update k v kvs = kvs @ [(k, v)]"
  by (induction kvs) auto

lemma copyEntries_spec:
  "wf_mem m \<Longrightarrow> cells m b = Some (VTable acc) \<Longrightarrow> distinct (map fst (acc @ es)) \<Longrightarrow>
     \<exists>m'. copyEntries b es m = Some m' \<and> touches {b} m m' \<and> cells m' b = Some (VTable (acc @ es))"
proof (induction es arbitrary: m acc)
  case Nil
  then show ?case by (simp add: touches_refl)
next
  case (Cons e es)
  let ?m1 = "m\<lparr>cells := (cells m)(b \<mapsto> VTable (acc @ [e]))\<rparr>"
  have one: "insertEntry b e m = Some ?m1"
    using Cons.prems(2,3) alist_update_new [of "fst e" acc "snd e"] by (simp add: insertEntry_def)
  have b: "b < next_addr m" by (rule loaded_bound(1) [OF Cons.prems(1,2)])
  then have t: "touches {b} m ?m1" using Cons.prems(1) by (auto simp: touches_def wf_mem_def)
  have "cells ?m1 b = Some (VTable (acc @ [e]))" by simp
  from Cons.IH [OF touches_wf [OF t] this] Cons.prems(3) obtain m' where
    m': "copyEntries b es ?m1 = Some m'" "touches {b} ?m1 m'" "cells m' b = Some (VTable ((acc @ [e]) @ es))"
    by auto
  have "touches {b} m m'" by (rule touches_trans [OF t m'(2)]) simp
  then show ?case using one m'(1,3) by simp
qed

lemma typed_map:
  assumes "typed m (TMap T) v" and "v \<noteq> VMap None"
  obtains a kvs where "v = VMap (Some a)" "cells m a = Some (VTable kvs)" "distinct (map fst kvs)"
    "list_all (\<lambda>(k, x). typed m T x) kvs"
proof -
  from assms obtain a where v: "v = VMap (Some a)" by (auto split: gval.splits)
  with assms(1) obtain kvs where "cells m a = Some (VTable kvs)" "distinct (map fst kvs)"
    "list_all (\<lambda>(k, x). typed m T x) kvs"
    by (auto split: gval.splits option.splits)
  with v that show ?thesis by blast
qed

lemma copyMap_completes:
  assumes flat: "flat T"
  shows "completes (TMap T) copyMap"
  unfolding completes_def
proof (rule copiesI)
  fix m i out v x
  assume m: "wf_mem m" and v: "load m i = Some v" and t: "typed m (TMap T) v"
    and x: "load m out = Some x" and pre: "x = v \<or> x = zero (TMap T)"
    and sep: "fst out \<noteq> fst i" "fst out \<notin> set (reach m (TMap T) v)"
  show "\<exists>m' v'. copyMap i out m = Some m' \<and> touches {fst out} m m' \<and> written m out v' m' \<and>
      fresh_copy (TMap T) m v m' v'"
  proof (cases "v = VMap None")
    case True
    with v x pre m show ?thesis
      by (intro exI [of _ m] exI [of _ v])
        (auto simp: copyMap_def fresh_copy_def touches_refl written_same)
  next
    case False
    obtain a kvs where l: "v = VMap (Some a)" "cells m a = Some (VTable kvs)" "distinct (map fst kvs)"
      "list_all (\<lambda>(k, x). typed m T x) kvs"
      by (rule typed_map [OF t False])
    let ?b = "next_addr m"
    obtain m1 m2 where m2: "alloc (VTable []) m = (?b, m1)"
      "store out (VMap (Some ?b)) m1 = Some m2" "touches {fst out} m m2"
      "written m out (VMap (Some ?b)) m2" "next_addr m2 = Suc ?b" "cells m2 ?b = Some (VTable [])"
      by (rule alloc_store [OF m x])
    have a2: "cells m2 a = Some (VTable kvs)"
      by (rule touches_cells [OF m2(3) m l(2)]) (use sep(2) l(1) in auto)
    obtain m3 where m3: "copyEntries ?b kvs m2 = Some m3" "touches {?b} m2 m3"
      "cells m3 ?b = Some (VTable kvs)"
      using copyEntries_spec [OF touches_wf [OF m2(3)] m2(6), of kvs] l(3) by auto
    note fin = filled [OF m x m2(3,4,5) m3(2)]
    have "list_all (\<lambda>(k, x). typed m3 T x) kvs"
      "map (\<lambda>(k, x). (k, denote m3 T x)) kvs = map (\<lambda>(k, x). (k, denote m T x)) kvs"
      using l(4) by (auto simp: list_all_iff flat_stable [OF flat, of m3 _ m])
    then have "fresh_copy (TMap T) m v m3 (VMap (Some ?b))"
      using l(2,3) m3(3) fin(3) flat by (auto simp: fresh_copy_def l(1) simp del: map_eq_conv)
    then show ?thesis
      using v l(1) m2(1,2) m3(1) a2 fin by (auto simp: copyMap_def)
  qed
qed

text \<open>
  The statements of a struct: in the order of its fields, one for each field that is not flat
  and, where the generator emits one, for a flat field.
\<close>

inductive covers :: "(string \<times> gtype) list \<Rightarrow> copier list \<Rightarrow> bool" where
  covers_nil: "covers [] []"
| covers_field: "completes T c \<Longrightarrow> covers fs cs \<Longrightarrow> covers ((f, T) # fs) (onField f c # cs)"
| covers_flat: "flat T \<Longrightarrow> covers fs cs \<Longrightarrow> covers ((f, T) # fs) cs"

lemma fst_field [simp]: "fst (field f l) = fst l"
  by (simp add: field_def)

lemma load_field:
  "load m l = Some (VStruct vs) \<Longrightarrow> load m (field f l) = map_of vs f"
  by (auto simp: load_def field_def get_at_append bind_eq_Some_conv)

lemma written_field:
  assumes "load m out = Some (VStruct vs)" and "written m (field f out) y m'"
  shows "written m out (VStruct (AList.update f y vs)) m'"
  using assms by (auto simp: written_def field_def put_at_append load_def bind_eq_Some_conv)

lemma run_spec:
  "covers fs cs \<Longrightarrow> wf_mem m \<Longrightarrow> load m i = Some (VStruct ivs) \<Longrightarrow> load m out = Some (VStruct ovs) \<Longrightarrow>
   fst out \<noteq> fst i \<Longrightarrow> distinct (map fst fs) \<Longrightarrow>
   (\<And>f T. (f, T) \<in> set fs \<Longrightarrow> \<exists>x. map_of ivs f = Some x \<and> map_of ovs f = Some x \<and> typed m T x \<and>
      fst out \<notin> set (reach m T x)) \<Longrightarrow>
   \<exists>m' ovs'. run cs i out m = Some m' \<and> touches {fst out} m m' \<and> written m out (VStruct ovs') m' \<and>
     map fst ovs' = map fst ovs \<and> (\<forall>f. f \<notin> fst ` set fs \<longrightarrow> map_of ovs' f = map_of ovs f) \<and>
     (\<forall>(f, T)\<in>set fs. \<exists>x y. map_of ivs f = Some x \<and> map_of ovs' f = Some y \<and> fresh_copy T m x m' y)"
proof (induction arbitrary: m ovs rule: covers.induct)
  case covers_nil
  then show ?case by (intro exI [of _ m] exI [of _ ovs]) (simp add: touches_refl written_same)
next
  case (covers_field T c fs cs f)
  note prems = covers_field.prems
  obtain x where x: "map_of ivs f = Some x" "map_of ovs f = Some x" "typed m T x"
    "fst out \<notin> set (reach m T x)"
    using prems(6) [of f T] by auto
  obtain m1 y where m1: "c (field f i) (field f out) m = Some m1" "touches {fst (field f out)} m m1"
    "written m (field f out) y m1" "fresh_copy T m x m1 y"
    by (rule copiesE [OF covers_field.hyps(1) [unfolded completes_def] prems(1), of "field f i" x "field f out" x])
      (use x prems(4) in \<open>simp_all add: load_field [OF prems(2)] load_field [OF prems(3)]\<close>)
  have t1: "touches {fst out} m m1" using m1(2) by simp
  have w1: "wf_mem m1" by (rule touches_wf [OF t1])
  have o1: "written m out (VStruct (AList.update f y ovs)) m1" by (rule written_field [OF prems(3) m1(3)])
  have i1: "load m1 i = Some (VStruct ivs)"
    by (rule touches_load [OF t1 prems(1,2)]) (use prems(4) in simp)
  have keep: "typed m1 S z" "denote m1 S z = denote m S z" "reach m1 S z = reach m S z"
    if "typed m S z" "fst out \<notin> set (reach m S z)" for S z
    by (rule touches_keeps [OF t1 prems(1) that(1)]; use that(2) in simp)+
  have rest: "\<exists>z. map_of ivs g = Some z \<and> map_of (AList.update f y ovs) g = Some z \<and> typed m1 S z \<and>
      fst out \<notin> set (reach m1 S z)" if "(g, S) \<in> set fs" for g S
  proof -
    obtain z where z: "map_of ivs g = Some z" "map_of ovs g = Some z" "typed m S z"
      "fst out \<notin> set (reach m S z)"
      using prems(6) [of g S] \<open>(g, S) \<in> set fs\<close> by auto
    moreover have "g \<noteq> f" using prems(5) \<open>(g, S) \<in> set fs\<close> by force
    ultimately show ?thesis using keep by (simp add: update_conv')
  qed
  obtain m' ovs' where m': "run cs i out m1 = Some m'" "touches {fst out} m1 m'"
    "written m1 out (VStruct ovs') m'" "map fst ovs' = map fst (AList.update f y ovs)"
    "\<forall>g. g \<notin> fst ` set fs \<longrightarrow> map_of ovs' g = map_of (AList.update f y ovs) g"
    "\<forall>(g, S)\<in>set fs. \<exists>z y. map_of ivs g = Some z \<and> map_of ovs' g = Some y \<and> fresh_copy S m1 z m' y"
    using covers_field.IH [OF w1 i1 written_load [OF o1] prems(4) _ rest] prems(5) by auto
  have keys: "map fst ovs' = map fst ovs"
    using m'(4) x(2) by (simp add: update_keys) (metis domI dom_map_of_conv_image_fst image_set)
  have "map_of ovs' f = Some y"
    using m'(5) prems(5) by (simp add: update_conv')
  moreover have "fresh_copy T m x m' y"
    by (rule fresh_keeps [OF m1(4) m'(2) w1]) (rule loaded_bound(2) [OF prems(1,3)])
  moreover have "\<exists>z y. map_of ivs g = Some z \<and> map_of ovs' g = Some y \<and> fresh_copy S m z m' y"
    if gS: "(g, S) \<in> set fs" for g S
  proof -
    obtain z y where zy: "map_of ivs g = Some z" "map_of ovs' g = Some y" "fresh_copy S m1 z m' y"
      using m'(6) gS by blast
    obtain z' where "map_of ivs g = Some z'" "typed m S z'" "fst out \<notin> set (reach m S z')"
      using prems(6) [of g S] gS by auto
    with zy keep have "fresh_copy S m z m' y"
      using touches_le [OF t1] by (auto simp: fresh_copy_def)
    with zy show ?thesis by blast
  qed
  moreover have "touches {fst out} m m'" by (rule touches_trans [OF t1 m'(2)]) simp
  moreover have "map_of ovs' g = map_of ovs g" if "g \<notin> fst ` set ((f, T) # fs)" for g
    using m'(5) that by (simp add: update_conv')
  ultimately show ?case
    using m1(1) m'(1) keys written_trans [OF o1 m'(3)] x(1) by (auto simp: onField_def)
next
  case (covers_flat T fs cs f)
  note prems = covers_flat.prems
  obtain m' ovs' where m': "run cs i out m = Some m'" "touches {fst out} m m'"
    "written m out (VStruct ovs') m'" "map fst ovs' = map fst ovs"
    "\<forall>g. g \<notin> fst ` set fs \<longrightarrow> map_of ovs' g = map_of ovs g"
    "\<forall>(g, S)\<in>set fs. \<exists>z y. map_of ivs g = Some z \<and> map_of ovs' g = Some y \<and> fresh_copy S m z m' y"
    using covers_flat.IH [OF prems(1,2,3,4)] prems(5,6) by auto
  obtain x where x: "map_of ivs f = Some x" "map_of ovs f = Some x" "typed m T x"
    using prems(6) [of f T] by auto
  moreover have "map_of ovs' f = map_of ovs f" using m'(5) prems(5) by simp
  ultimately show ?case
    using m' fresh_flat [OF covers_flat.hyps(1) x(3), of m'] by fastforce
qed

lemma copyStruct_copies:
  assumes "covers fs cs" and "distinct (map fst fs)"
  shows "deep_copies (TStruct fs) (copyStruct cs)"
  unfolding deep_copies_def
proof (rule copiesI)
  fix m i out v x
  assume m: "wf_mem m" and v: "load m i = Some v" and t: "typed m (TStruct fs) v"
    and x: "load m out = Some x" and sep: "fst out \<noteq> fst i" "fst out \<notin> set (reach m (TStruct fs) v)"
  from t obtain vs where vs: "v = VStruct vs" "map fst vs = map fst fs"
    by (auto split: gval.splits)
  obtain m1 where m1: "store out v m = Some m1" "touches {fst out} m m1" "written m out v m1"
    by (rule store_spec [OF m x])
  have w1: "wf_mem m1" by (rule touches_wf [OF m1(2)])
  have keep: "typed m1 S z" "denote m1 S z = denote m S z" "reach m1 S z = reach m S z"
    if "typed m S z" "fst out \<notin> set (reach m S z)" for S z
    by (rule touches_keeps [OF m1(2) m that(1)]; use that(2) in simp)+
  have fields: "\<exists>x. map_of vs f = Some x \<and> typed m T x \<and> fst out \<notin> set (reach m T x)"
    if fT: "(f, T) \<in> set fs" for f T
  proof -
    obtain x where x: "map_of vs f = Some x" "typed m T x"
      using t fT unfolding vs by (auto simp: list_all_iff split: option.splits)
    with reach_parts(4) [OF fT x(1), of m] sep(2) show ?thesis unfolding vs by blast
  qed
  obtain m' vs' where m': "run cs i out m1 = Some m'" "touches {fst out} m1 m'"
    "written m1 out (VStruct vs') m'" "map fst vs' = map fst vs"
    "\<forall>(f, T)\<in>set fs. \<exists>x y. map_of vs f = Some x \<and> map_of vs' f = Some y \<and> fresh_copy T m1 x m' y"
    using run_spec [OF assms(1) w1 _ _ sep(1) assms(2), of vs vs]
      touches_load [OF m1(2) m v] written_load [OF m1(3)] sep(1) fields keep unfolding vs
    by (metis (no_types, lifting) singletonD)
  have each: "\<exists>x y. map_of vs f = Some x \<and> map_of vs' f = Some y \<and> fresh_copy T m x m' y"
    if fT: "(f, T) \<in> set fs" for f T
  proof -
    obtain x y where xy: "map_of vs f = Some x" "map_of vs' f = Some y" "fresh_copy T m1 x m' y"
      using m'(5) fT by blast
    with fields [OF fT] keep have "fresh_copy T m x m' y"
      using touches_le [OF m1(2)] by (auto simp: fresh_copy_def)
    with xy show ?thesis by blast
  qed
  have "map (\<lambda>(f, T). (f, case map_of vs' f of Some x \<Rightarrow> denote m' T x | None \<Rightarrow> Ill)) fs =
      map (\<lambda>(f, T). (f, case map_of vs f of Some x \<Rightarrow> denote m T x | None \<Rightarrow> Ill)) fs"
    using each by (fastforce simp: fresh_copy_def)
  moreover have "list_all (\<lambda>(f, T). case map_of vs' f of Some x \<Rightarrow> typed m' T x | None \<Rightarrow> False) fs"
    using each by (fastforce simp: list_all_iff fresh_copy_def)
  moreover have "set (reach m' (TStruct fs) (VStruct vs')) \<subseteq> {next_addr m..<next_addr m'}"
    using each by (fastforce simp: fresh_copy_def)
  ultimately have "fresh_copy (TStruct fs) m v m' (VStruct vs')"
    using m'(4) vs(2) by (simp add: fresh_copy_def vs(1) del: map_eq_conv)
  moreover have "touches {fst out} m m'" by (rule touches_trans [OF m1(2) m'(2)]) simp
  moreover have "written m out (VStruct vs') m'" by (rule written_trans [OF m1(3) m'(3)])
  ultimately show "\<exists>m' v'. copyStruct cs i out m = Some m' \<and> touches {fst out} m m' \<and>
      written m out v' m' \<and> fresh_copy (TStruct fs) m v m' v'"
    using v m1(1) m'(1) by (auto simp: copyStruct_def assign_def)
qed

text \<open>\<open>DeepCopy\<close>: the copy is a new variable, and nothing there was changes.\<close>

lemma copyNew_spec:
  assumes "deep_copies T into" and m: "wf_mem m" and v: "load m l = Some v" "typed m T v"
  obtains a m' v' where "copyNew T into (Some l) m = Some (Some (a, []), m')" "touches {} m m'"
    "load m' (a, []) = Some v'" "fresh_copy T m v m' v'" "next_addr m \<le> a" "a < next_addr m'"
proof -
  let ?a = "next_addr m" and ?m1 = "snd (alloc (zero T) m)"
  note al = alloc_spec [OF m, of "zero T"]
  have w1: "wf_mem ?m1" by (rule touches_wf [OF al(2)])
  have v1: "load ?m1 l = Some v" by (rule touches_load [OF al(2) m v(1)]) simp
  have keep: "typed ?m1 T v" "denote ?m1 T v = denote m T v" "reach ?m1 T v = reach m T v"
    by (rule touches_keeps [OF al(2) m v(2)]; simp)+
  have z: "load ?m1 (?a, []) = Some (zero T)" by (simp add: load_def al(4))
  obtain m' v' where m': "into l (?a, []) ?m1 = Some m'" "touches {?a} ?m1 m'"
    "written ?m1 (?a, []) v' m'" "fresh_copy T ?m1 v m' v'"
    by (rule copiesE [OF assms(1) [unfolded deep_copies_def] w1 v1 keep(1) z])
      (use loaded_bound(2) [OF m v(1)] typed_reach_bound [OF m v(2)] keep(3) in auto)
  show ?thesis
  proof (rule that)
    show "copyNew T into (Some l) m = Some (Some (?a, []), m')"
      using al(1) m'(1) by (cases "alloc (zero T) m") (simp add: copyNew_def)
    show "touches {} m m'" by (rule touches_trans [OF al(2) m'(2)]) simp
    show "load m' (?a, []) = Some v'" by (rule written_load [OF m'(3)])
    show "fresh_copy T m v m' v'"
      using m'(4) keep(2) al(3) by (auto simp: fresh_copy_def)
    show "?a < next_addr m'" using touches_le [OF m'(2)] al(3) by simp
  qed simp
qed

end
