(* ===== verification/GoTypes.thy ===== *)
theory GoTypes
  imports GoHeap
begin

text \<open>
  The Go types of \<open>api/v1alpha1\<close> as descriptors, in the order of their fields: which of them hold
  pointers, slices and maps is what the deep copies depend on. A named string type is a string.
\<close>

abbreviation TString :: gtype where
  "TString \<equiv> TScalar KString"

abbreviation TBool :: gtype where
  "TBool \<equiv> TScalar KBool"

abbreviation TInt32 :: gtype where
  "TInt32 \<equiv> TScalar KInt32"

abbreviation TInt64 :: gtype where
  "TInt64 \<equiv> TScalar KInt64"

text \<open>
  Structs of the Kubernetes libraries. Those that the generated code assigns or copies as a whole
  are given; the others, which have a \<open>DeepCopyInto\<close> of their own, are parameters with it.
\<close>

definition TypeMeta_type :: gtype where
  "TypeMeta_type = TStruct [(''Kind'', TString), (''APIVersion'', TString)]"

definition SecretReference_type :: gtype where
  "SecretReference_type = TStruct [(''Name'', TString), (''Namespace'', TString)]"

definition LocalObjectReference_type :: gtype where
  "LocalObjectReference_type = TStruct [(''Name'', TString)]"

datatype lib_struct = Lib_ObjectMeta | Lib_ListMeta | Lib_ResourceRequirements | Lib_Condition

record copy_lib =
  lib_type :: "lib_struct \<Rightarrow> gtype"
  lib_DeepCopyInto :: "lib_struct \<Rightarrow> copier"

definition S3StorageSpec_type :: gtype where
  "S3StorageSpec_type = TStruct [(''Region'', TString), (''Bucket'', TString),
    (''Endpoint'', TString), (''AccessKeyID'', TString), (''Prefix'', TString),
    (''UsePathStyle'', TBool), (''AutoCreateBucket'', TPtr TBool)]"

definition FSStorageSpec_type :: gtype where
  "FSStorageSpec_type = TStruct [(''BasePath'', TString), (''ClaimName'', TString)]"

definition FileRetrySpec_type :: gtype where
  "FileRetrySpec_type = TStruct [(''MaxRetries'', TPtr TInt32), (''InitialBackoff'', TString),
    (''MaxBackoff'', TString)]"

definition FileStorageSpec_type :: gtype where
  "FileStorageSpec_type = TStruct [(''S3'', TPtr S3StorageSpec_type),
    (''FS'', TPtr FSStorageSpec_type), (''Retry'', TPtr FileRetrySpec_type)]"

definition BatchAPIConfig_type :: gtype where
  "BatchAPIConfig_type = TStruct [(''EventTTLSeconds'', TInt32),
    (''PassThroughHeaders'', TSlice TString), (''ExtraEndpoints'', TPtr (TSlice TString))]"

definition FileAPIConfig_type :: gtype where
  "FileAPIConfig_type = TStruct [(''DefaultExpirationSeconds'', TInt64),
    (''MaxSizeBytes'', TInt64), (''MaxLineCount'', TInt64)]"

definition LoggingConfig_type :: gtype where
  "LoggingConfig_type = TStruct [(''Verbosity'', TInt32)]"

definition APIServerConfigSpec_type :: gtype where
  "APIServerConfigSpec_type = TStruct [(''Port'', TInt32), (''ObservabilityPort'', TInt32),
    (''ReadTimeoutSeconds'', TInt32), (''WriteTimeoutSeconds'', TInt32),
    (''IdleTimeoutSeconds'', TInt32), (''InputHeaders'', TMap TString),
    (''BatchAPI'', TPtr BatchAPIConfig_type), (''FileAPI'', TPtr FileAPIConfig_type),
    (''EnablePprof'', TBool), (''Logging'', TPtr LoggingConfig_type)]"

definition APIServerSpec_type :: "copy_lib \<Rightarrow> gtype" where
  "APIServerSpec_type L = TStruct [(''Replicas'', TPtr TInt32),
    (''Resources'', TPtr (lib_type L Lib_ResourceRequirements)),
    (''Config'', TPtr APIServerConfigSpec_type), (''ImagePullPolicy'', TString)]"

definition AIMDConfig_type :: gtype where
  "AIMDConfig_type = TStruct [(''Enabled'', TPtr TBool), (''Min'', TInt32),
    (''BackoffFactor'', TString), (''AdditiveIncrease'', TInt32)]"

definition ConcurrencyConfig_type :: gtype where
  "ConcurrencyConfig_type = TStruct [(''Global'', TInt32), (''PerEndpoint'', TInt32),
    (''Recovery'', TInt32), (''AIMD'', TPtr AIMDConfig_type)]"

definition ResumableConfigSpec_type :: gtype where
  "ResumableConfigSpec_type = TStruct [(''LeaseDuration'', TString),
    (''FinalizeConcurrency'', TInt32), (''FinalizeTimeout'', TString)]"

definition ProcessorConfigSpec_type :: gtype where
  "ProcessorConfigSpec_type = TStruct [(''NumWorkers'', TInt32),
    (''InputFileDiskBudgetPercent'', TInt32), (''ExtraEndpoints'', TPtr (TSlice TString)),
    (''Concurrency'', TPtr ConcurrencyConfig_type),
    (''Resumable'', TPtr ResumableConfigSpec_type), (''DefaultOutputExpirationSeconds'', TInt64),
    (''ProgressTTLSeconds'', TInt64), (''ProgressUpdateInterval'', TString),
    (''SendFairnessHeader'', TPtr TBool), (''RouteKeyMethod'', TString), (''EnablePprof'', TBool),
    (''Logging'', TPtr LoggingConfig_type)]"

definition ModelGatewaySpec_type :: gtype where
  "ModelGatewaySpec_type = TStruct [(''InferencePoolName'', TString),
    (''InferenceObjective'', TString), (''RequestQueueName'', TString),
    (''ResultQueueName'', TString)]"

definition InferenceGatewaySpec_type :: gtype where
  "InferenceGatewaySpec_type = TStruct [(''URL'', TString)]"

definition AsyncQueueConfig_type :: gtype where
  "AsyncQueueConfig_type = TStruct [(''Name'', TString), (''WorkerPoolID'', TString),
    (''IGWBaseURL'', TString), (''RequestPathURL'', TString), (''GateType'', TString),
    (''GateParams'', TMap TString)]"

definition AsyncRedisSpec_type :: gtype where
  "AsyncRedisSpec_type = TStruct [(''RequestPathURL'', TString),
    (''PollIntervalMs'', TPtr TInt32), (''BatchSize'', TPtr TInt32), (''GateType'', TString),
    (''GateParams'', TMap TString), (''QueuesConfig'', TSlice AsyncQueueConfig_type)]"

definition AsyncSQLSpec_type :: gtype where
  "AsyncSQLSpec_type = TStruct [(''PollIntervalMs'', TPtr TInt32), (''BatchSize'', TPtr TInt32),
    (''MaxConnections'', TPtr TInt32), (''ResultBatchSize'', TPtr TInt32),
    (''LeaseTTLSeconds'', TPtr TInt32), (''HandoffTimeoutSeconds'', TPtr TInt32),
    (''QueuesConfig'', TSlice AsyncQueueConfig_type)]"

definition AsyncWorkerPool_type :: gtype where
  "AsyncWorkerPool_type = TStruct [(''Name'', TString), (''Workers'', TInt32),
    (''GateType'', TString), (''GateParams'', TMap TString)]"

definition AsyncTLSSpec_type :: gtype where
  "AsyncTLSSpec_type = TStruct [(''SecretName'', TString), (''InsecureSkipVerify'', TBool),
    (''CACertKey'', TString), (''CertKey'', TString), (''KeyKey'', TString)]"

definition AsyncRequestTransform_type :: gtype where
  "AsyncRequestTransform_type = TStruct [(''Name'', TString), (''Type'', TString),
    (''Parameters'', TMap TString)]"

definition AsyncTransformConfig_type :: gtype where
  "AsyncTransformConfig_type = TStruct [
    (''RequestTransforms'', TSlice AsyncRequestTransform_type)]"

definition AsyncModelServerMonitorSpec_type :: gtype where
  "AsyncModelServerMonitorSpec_type = TStruct [(''Enabled'', TBool), (''Selector'', TMap TString),
    (''Port'', TString), (''Path'', TString), (''Interval'', TString)]"

definition AsyncProcessorSpec_type :: "copy_lib \<Rightarrow> gtype" where
  "AsyncProcessorSpec_type L = TStruct [(''Replicas'', TPtr TInt32),
    (''Resources'', TPtr (lib_type L Lib_ResourceRequirements)), (''ImagePullPolicy'', TString),
    (''InferenceGateway'', TPtr InferenceGatewaySpec_type), (''Concurrency'', TPtr TInt32),
    (''DrainTimeout'', TString), (''ResultPollTimeout'', TString),
    (''Redis'', TPtr AsyncRedisSpec_type), (''SQL'', TPtr AsyncSQLSpec_type),
    (''WorkerPools'', TSlice AsyncWorkerPool_type), (''PrometheusURL'', TString),
    (''PrometheusCacheTTL'', TString), (''TLS'', TPtr AsyncTLSSpec_type),
    (''TransformConfig'', TPtr AsyncTransformConfig_type),
    (''ModelServerMonitor'', TPtr AsyncModelServerMonitorSpec_type)]"

definition ProcessorSpec_type :: "copy_lib \<Rightarrow> gtype" where
  "ProcessorSpec_type L = TStruct [(''Replicas'', TPtr TInt32),
    (''Resources'', TPtr (lib_type L Lib_ResourceRequirements)), (''ImagePullPolicy'', TString),
    (''Config'', TPtr ProcessorConfigSpec_type), (''DispatchMode'', TString),
    (''ModelGateways'', TMap ModelGatewaySpec_type),
    (''AsyncConfig'', TPtr (AsyncProcessorSpec_type L))]"

definition ReconcilerSpec_type :: gtype where
  "ReconcilerSpec_type = TStruct [(''Enabled'', TBool), (''Interval'', TString)]"

definition GCConfigSpec_type :: gtype where
  "GCConfigSpec_type = TStruct [(''DryRun'', TBool), (''MaxConcurrency'', TInt32),
    (''Logging'', TPtr LoggingConfig_type), (''Reconciler'', TPtr ReconcilerSpec_type)]"

definition GCSpec_type :: "copy_lib \<Rightarrow> gtype" where
  "GCSpec_type L = TStruct [(''Replicas'', TPtr TInt32),
    (''Resources'', TPtr (lib_type L Lib_ResourceRequirements)), (''Interval'', TString),
    (''Config'', TPtr GCConfigSpec_type), (''ImagePullPolicy'', TString)]"

definition MonitoringSpec_type :: gtype where
  "MonitoringSpec_type = TStruct [(''Enabled'', TBool)]"

definition GrafanaSpec_type :: gtype where
  "GrafanaSpec_type = TStruct [(''Enabled'', TBool)]"

definition CertManagerSpec_type :: gtype where
  "CertManagerSpec_type = TStruct [(''IssuerName'', TString), (''IssuerKind'', TString),
    (''DNSNames'', TSlice TString)]"

definition TLSSpec_type :: gtype where
  "TLSSpec_type = TStruct [(''Enabled'', TBool), (''SecretName'', TString),
    (''CertManager'', TPtr CertManagerSpec_type)]"

definition ParentReference_type :: gtype where
  "ParentReference_type = TStruct [(''Name'', TString), (''Namespace'', TString),
    (''SectionName'', TString)]"

definition HTTPRouteSpec_type :: gtype where
  "HTTPRouteSpec_type = TStruct [(''Enabled'', TBool), (''Annotations'', TMap TString),
    (''ParentRefs'', TSlice ParentReference_type)]"

definition OTELSpec_type :: gtype where
  "OTELSpec_type = TStruct [(''Endpoint'', TString), (''Insecure'', TBool),
    (''Sampler'', TString), (''SamplerArg'', TString), (''RedisTracing'', TBool),
    (''PostgresqlTracing'', TBool)]"

definition PrometheusRuleSpec_type :: gtype where
  "PrometheusRuleSpec_type = TStruct [(''Enabled'', TBool), (''Labels'', TMap TString)]"

definition LLMBatchGatewaySpec_type :: "copy_lib \<Rightarrow> gtype" where
  "LLMBatchGatewaySpec_type L = TStruct [(''SecretRef'', SecretReference_type),
    (''DBBackend'', TString), (''ExtraEndpoints'', TSlice TString),
    (''FileStorage'', TPtr FileStorageSpec_type), (''APIServer'', APIServerSpec_type L),
    (''Processor'', ProcessorSpec_type L), (''GC'', GCSpec_type L),
    (''Monitoring'', TPtr MonitoringSpec_type), (''Grafana'', TPtr GrafanaSpec_type),
    (''TLS'', TPtr TLSSpec_type), (''HTTPRoute'', TPtr HTTPRouteSpec_type),
    (''OTEL'', TPtr OTELSpec_type), (''PrometheusRule'', TPtr PrometheusRuleSpec_type),
    (''ImagePullSecrets'', TSlice LocalObjectReference_type)]"

definition ComponentReplicaStatus_type :: gtype where
  "ComponentReplicaStatus_type = TStruct [(''Replicas'', TInt32), (''ReadyReplicas'', TInt32)]"

definition ComponentStatus_type :: gtype where
  "ComponentStatus_type = TStruct [(''APIServer'', TPtr ComponentReplicaStatus_type),
    (''Processor'', TPtr ComponentReplicaStatus_type), (''GC'', TPtr ComponentReplicaStatus_type),
    (''AsyncProcessor'', TPtr ComponentReplicaStatus_type)]"

definition LLMBatchGatewayStatus_type :: "copy_lib \<Rightarrow> gtype" where
  "LLMBatchGatewayStatus_type L = TStruct [(''ObservedGeneration'', TInt64),
    (''Conditions'', TSlice (lib_type L Lib_Condition)),
    (''ComponentStatus'', TPtr ComponentStatus_type)]"

definition LLMBatchGateway_type :: "copy_lib \<Rightarrow> gtype" where
  "LLMBatchGateway_type L = TStruct [(''TypeMeta'', TypeMeta_type),
    (''ObjectMeta'', lib_type L Lib_ObjectMeta), (''Spec'', LLMBatchGatewaySpec_type L),
    (''Status'', LLMBatchGatewayStatus_type L)]"

definition LLMBatchGatewayList_type :: "copy_lib \<Rightarrow> gtype" where
  "LLMBatchGatewayList_type L = TStruct [(''TypeMeta'', TypeMeta_type),
    (''ListMeta'', lib_type L Lib_ListMeta), (''Items'', TSlice (LLMBatchGateway_type L))]"

lemma flat_types [simp]:
  "flat TypeMeta_type" "flat SecretReference_type" "flat LocalObjectReference_type"
  "flat FSStorageSpec_type" "flat FileAPIConfig_type" "flat LoggingConfig_type"
  "flat ResumableConfigSpec_type" "flat ModelGatewaySpec_type" "flat InferenceGatewaySpec_type"
  "flat AsyncTLSSpec_type" "flat ReconcilerSpec_type" "flat MonitoringSpec_type"
  "flat GrafanaSpec_type" "flat ParentReference_type" "flat OTELSpec_type"
  "flat ComponentReplicaStatus_type"
  by (simp_all add: TypeMeta_type_def SecretReference_type_def LocalObjectReference_type_def
      FSStorageSpec_type_def FileAPIConfig_type_def LoggingConfig_type_def
      ResumableConfigSpec_type_def ModelGatewaySpec_type_def InferenceGatewaySpec_type_def
      AsyncTLSSpec_type_def ReconcilerSpec_type_def MonitoringSpec_type_def GrafanaSpec_type_def
      ParentReference_type_def OTELSpec_type_def ComponentReplicaStatus_type_def)

end
