(* ===== verification/DeepCopy.thy ===== *)
theory DeepCopy
  imports GoCopy GoTypes
begin

text \<open>
  \<open>zz_generated.deepcopy.go\<close>: the \<open>DeepCopyInto\<close> and \<open>DeepCopy\<close> of every type, statement by
  statement, and the two \<open>DeepCopyObject\<close>. Every one of them makes a deep copy: the value's
  statements cover its fields.
\<close>

type_synonym deep_copy = "loc option \<Rightarrow> mem \<Rightarrow> (loc option \<times> mem) option"

section \<open>The generated code\<close>

definition S3StorageSpec_DeepCopyInto :: copier where
  "S3StorageSpec_DeepCopyInto = copyStruct [onField ''AutoCreateBucket'' (copyPtr TBool assign)]"

definition S3StorageSpec_DeepCopy :: deep_copy where
  "S3StorageSpec_DeepCopy = copyNew S3StorageSpec_type S3StorageSpec_DeepCopyInto"

definition FSStorageSpec_DeepCopyInto :: copier where
  "FSStorageSpec_DeepCopyInto = copyStruct []"

definition FSStorageSpec_DeepCopy :: deep_copy where
  "FSStorageSpec_DeepCopy = copyNew FSStorageSpec_type FSStorageSpec_DeepCopyInto"

definition FileRetrySpec_DeepCopyInto :: copier where
  "FileRetrySpec_DeepCopyInto = copyStruct [onField ''MaxRetries'' (copyPtr TInt32 assign)]"

definition FileRetrySpec_DeepCopy :: deep_copy where
  "FileRetrySpec_DeepCopy = copyNew FileRetrySpec_type FileRetrySpec_DeepCopyInto"

definition FileStorageSpec_DeepCopyInto :: copier where
  "FileStorageSpec_DeepCopyInto = copyStruct [
    onField ''S3'' (copyPtr S3StorageSpec_type S3StorageSpec_DeepCopyInto),
    onField ''FS'' (copyPtr FSStorageSpec_type assign),
    onField ''Retry'' (copyPtr FileRetrySpec_type FileRetrySpec_DeepCopyInto)]"

definition FileStorageSpec_DeepCopy :: deep_copy where
  "FileStorageSpec_DeepCopy = copyNew FileStorageSpec_type FileStorageSpec_DeepCopyInto"

definition BatchAPIConfig_DeepCopyInto :: copier where
  "BatchAPIConfig_DeepCopyInto = copyStruct [
    onField ''PassThroughHeaders'' (copyFlatSlice TString),
    onField ''ExtraEndpoints'' (copyPtr (TSlice TString) (copyFlatSlice TString))]"

definition BatchAPIConfig_DeepCopy :: deep_copy where
  "BatchAPIConfig_DeepCopy = copyNew BatchAPIConfig_type BatchAPIConfig_DeepCopyInto"

definition FileAPIConfig_DeepCopyInto :: copier where
  "FileAPIConfig_DeepCopyInto = copyStruct []"

definition FileAPIConfig_DeepCopy :: deep_copy where
  "FileAPIConfig_DeepCopy = copyNew FileAPIConfig_type FileAPIConfig_DeepCopyInto"

definition LoggingConfig_DeepCopyInto :: copier where
  "LoggingConfig_DeepCopyInto = copyStruct []"

definition LoggingConfig_DeepCopy :: deep_copy where
  "LoggingConfig_DeepCopy = copyNew LoggingConfig_type LoggingConfig_DeepCopyInto"

definition APIServerConfigSpec_DeepCopyInto :: copier where
  "APIServerConfigSpec_DeepCopyInto = copyStruct [onField ''InputHeaders'' copyMap,
    onField ''BatchAPI'' (copyPtr BatchAPIConfig_type BatchAPIConfig_DeepCopyInto),
    onField ''FileAPI'' (copyPtr FileAPIConfig_type assign),
    onField ''Logging'' (copyPtr LoggingConfig_type assign)]"

definition APIServerConfigSpec_DeepCopy :: deep_copy where
  "APIServerConfigSpec_DeepCopy = copyNew APIServerConfigSpec_type APIServerConfigSpec_DeepCopyInto"

definition APIServerSpec_DeepCopyInto :: "copy_lib \<Rightarrow> copier" where
  "APIServerSpec_DeepCopyInto L = copyStruct [onField ''Replicas'' (copyPtr TInt32 assign),
    onField ''Resources'' (copyPtr (lib_type L Lib_ResourceRequirements)
      (lib_DeepCopyInto L Lib_ResourceRequirements)),
    onField ''Config'' (copyPtr APIServerConfigSpec_type APIServerConfigSpec_DeepCopyInto)]"

definition APIServerSpec_DeepCopy :: "copy_lib \<Rightarrow> deep_copy" where
  "APIServerSpec_DeepCopy L = copyNew (APIServerSpec_type L) (APIServerSpec_DeepCopyInto L)"

definition AIMDConfig_DeepCopyInto :: copier where
  "AIMDConfig_DeepCopyInto = copyStruct [onField ''Enabled'' (copyPtr TBool assign)]"

definition AIMDConfig_DeepCopy :: deep_copy where
  "AIMDConfig_DeepCopy = copyNew AIMDConfig_type AIMDConfig_DeepCopyInto"

definition ConcurrencyConfig_DeepCopyInto :: copier where
  "ConcurrencyConfig_DeepCopyInto = copyStruct [
    onField ''AIMD'' (copyPtr AIMDConfig_type AIMDConfig_DeepCopyInto)]"

definition ConcurrencyConfig_DeepCopy :: deep_copy where
  "ConcurrencyConfig_DeepCopy = copyNew ConcurrencyConfig_type ConcurrencyConfig_DeepCopyInto"

definition ResumableConfigSpec_DeepCopyInto :: copier where
  "ResumableConfigSpec_DeepCopyInto = copyStruct []"

definition ResumableConfigSpec_DeepCopy :: deep_copy where
  "ResumableConfigSpec_DeepCopy = copyNew ResumableConfigSpec_type ResumableConfigSpec_DeepCopyInto"

definition ProcessorConfigSpec_DeepCopyInto :: copier where
  "ProcessorConfigSpec_DeepCopyInto = copyStruct [
    onField ''ExtraEndpoints'' (copyPtr (TSlice TString) (copyFlatSlice TString)),
    onField ''Concurrency'' (copyPtr ConcurrencyConfig_type ConcurrencyConfig_DeepCopyInto),
    onField ''Resumable'' (copyPtr ResumableConfigSpec_type assign),
    onField ''SendFairnessHeader'' (copyPtr TBool assign),
    onField ''Logging'' (copyPtr LoggingConfig_type assign)]"

definition ProcessorConfigSpec_DeepCopy :: deep_copy where
  "ProcessorConfigSpec_DeepCopy = copyNew ProcessorConfigSpec_type ProcessorConfigSpec_DeepCopyInto"

definition ModelGatewaySpec_DeepCopyInto :: copier where
  "ModelGatewaySpec_DeepCopyInto = copyStruct []"

definition ModelGatewaySpec_DeepCopy :: deep_copy where
  "ModelGatewaySpec_DeepCopy = copyNew ModelGatewaySpec_type ModelGatewaySpec_DeepCopyInto"

definition InferenceGatewaySpec_DeepCopyInto :: copier where
  "InferenceGatewaySpec_DeepCopyInto = copyStruct []"

definition InferenceGatewaySpec_DeepCopy :: deep_copy where
  "InferenceGatewaySpec_DeepCopy =
     copyNew InferenceGatewaySpec_type InferenceGatewaySpec_DeepCopyInto"

definition AsyncQueueConfig_DeepCopyInto :: copier where
  "AsyncQueueConfig_DeepCopyInto = copyStruct [onField ''GateParams'' copyMap]"

definition AsyncQueueConfig_DeepCopy :: deep_copy where
  "AsyncQueueConfig_DeepCopy = copyNew AsyncQueueConfig_type AsyncQueueConfig_DeepCopyInto"

definition AsyncRedisSpec_DeepCopyInto :: copier where
  "AsyncRedisSpec_DeepCopyInto = copyStruct [onField ''PollIntervalMs'' (copyPtr TInt32 assign),
    onField ''BatchSize'' (copyPtr TInt32 assign), onField ''GateParams'' copyMap,
    onField ''QueuesConfig'' (copySlice AsyncQueueConfig_type AsyncQueueConfig_DeepCopyInto)]"

definition AsyncRedisSpec_DeepCopy :: deep_copy where
  "AsyncRedisSpec_DeepCopy = copyNew AsyncRedisSpec_type AsyncRedisSpec_DeepCopyInto"

definition AsyncSQLSpec_DeepCopyInto :: copier where
  "AsyncSQLSpec_DeepCopyInto = copyStruct [onField ''PollIntervalMs'' (copyPtr TInt32 assign),
    onField ''BatchSize'' (copyPtr TInt32 assign),
    onField ''MaxConnections'' (copyPtr TInt32 assign),
    onField ''ResultBatchSize'' (copyPtr TInt32 assign),
    onField ''LeaseTTLSeconds'' (copyPtr TInt32 assign),
    onField ''HandoffTimeoutSeconds'' (copyPtr TInt32 assign),
    onField ''QueuesConfig'' (copySlice AsyncQueueConfig_type AsyncQueueConfig_DeepCopyInto)]"

definition AsyncSQLSpec_DeepCopy :: deep_copy where
  "AsyncSQLSpec_DeepCopy = copyNew AsyncSQLSpec_type AsyncSQLSpec_DeepCopyInto"

definition AsyncWorkerPool_DeepCopyInto :: copier where
  "AsyncWorkerPool_DeepCopyInto = copyStruct [onField ''GateParams'' copyMap]"

definition AsyncWorkerPool_DeepCopy :: deep_copy where
  "AsyncWorkerPool_DeepCopy = copyNew AsyncWorkerPool_type AsyncWorkerPool_DeepCopyInto"

definition AsyncTLSSpec_DeepCopyInto :: copier where
  "AsyncTLSSpec_DeepCopyInto = copyStruct []"

definition AsyncTLSSpec_DeepCopy :: deep_copy where
  "AsyncTLSSpec_DeepCopy = copyNew AsyncTLSSpec_type AsyncTLSSpec_DeepCopyInto"

definition AsyncRequestTransform_DeepCopyInto :: copier where
  "AsyncRequestTransform_DeepCopyInto = copyStruct [onField ''Parameters'' copyMap]"

definition AsyncRequestTransform_DeepCopy :: deep_copy where
  "AsyncRequestTransform_DeepCopy =
     copyNew AsyncRequestTransform_type AsyncRequestTransform_DeepCopyInto"

definition AsyncTransformConfig_DeepCopyInto :: copier where
  "AsyncTransformConfig_DeepCopyInto = copyStruct [
    onField ''RequestTransforms'' (copySlice AsyncRequestTransform_type AsyncRequestTransform_DeepCopyInto)]"

definition AsyncTransformConfig_DeepCopy :: deep_copy where
  "AsyncTransformConfig_DeepCopy =
     copyNew AsyncTransformConfig_type AsyncTransformConfig_DeepCopyInto"

definition AsyncModelServerMonitorSpec_DeepCopyInto :: copier where
  "AsyncModelServerMonitorSpec_DeepCopyInto = copyStruct [onField ''Selector'' copyMap]"

definition AsyncModelServerMonitorSpec_DeepCopy :: deep_copy where
  "AsyncModelServerMonitorSpec_DeepCopy =
     copyNew AsyncModelServerMonitorSpec_type AsyncModelServerMonitorSpec_DeepCopyInto"

definition AsyncProcessorSpec_DeepCopyInto :: "copy_lib \<Rightarrow> copier" where
  "AsyncProcessorSpec_DeepCopyInto L = copyStruct [onField ''Replicas'' (copyPtr TInt32 assign),
    onField ''Resources'' (copyPtr (lib_type L Lib_ResourceRequirements)
      (lib_DeepCopyInto L Lib_ResourceRequirements)),
    onField ''InferenceGateway'' (copyPtr InferenceGatewaySpec_type assign),
    onField ''Concurrency'' (copyPtr TInt32 assign),
    onField ''Redis'' (copyPtr AsyncRedisSpec_type AsyncRedisSpec_DeepCopyInto),
    onField ''SQL'' (copyPtr AsyncSQLSpec_type AsyncSQLSpec_DeepCopyInto),
    onField ''WorkerPools'' (copySlice AsyncWorkerPool_type AsyncWorkerPool_DeepCopyInto),
    onField ''TLS'' (copyPtr AsyncTLSSpec_type assign),
    onField ''TransformConfig'' (copyPtr AsyncTransformConfig_type AsyncTransformConfig_DeepCopyInto),
    onField ''ModelServerMonitor'' (copyPtr AsyncModelServerMonitorSpec_type AsyncModelServerMonitorSpec_DeepCopyInto)]"

definition AsyncProcessorSpec_DeepCopy :: "copy_lib \<Rightarrow> deep_copy" where
  "AsyncProcessorSpec_DeepCopy L =
     copyNew (AsyncProcessorSpec_type L) (AsyncProcessorSpec_DeepCopyInto L)"

definition ProcessorSpec_DeepCopyInto :: "copy_lib \<Rightarrow> copier" where
  "ProcessorSpec_DeepCopyInto L = copyStruct [onField ''Replicas'' (copyPtr TInt32 assign),
    onField ''Resources'' (copyPtr (lib_type L Lib_ResourceRequirements)
      (lib_DeepCopyInto L Lib_ResourceRequirements)),
    onField ''Config'' (copyPtr ProcessorConfigSpec_type ProcessorConfigSpec_DeepCopyInto),
    onField ''ModelGateways'' copyMap,
    onField ''AsyncConfig'' (copyPtr (AsyncProcessorSpec_type L) (AsyncProcessorSpec_DeepCopyInto L))]"

definition ProcessorSpec_DeepCopy :: "copy_lib \<Rightarrow> deep_copy" where
  "ProcessorSpec_DeepCopy L = copyNew (ProcessorSpec_type L) (ProcessorSpec_DeepCopyInto L)"

definition ReconcilerSpec_DeepCopyInto :: copier where
  "ReconcilerSpec_DeepCopyInto = copyStruct []"

definition ReconcilerSpec_DeepCopy :: deep_copy where
  "ReconcilerSpec_DeepCopy = copyNew ReconcilerSpec_type ReconcilerSpec_DeepCopyInto"

definition GCConfigSpec_DeepCopyInto :: copier where
  "GCConfigSpec_DeepCopyInto = copyStruct [
    onField ''Logging'' (copyPtr LoggingConfig_type assign),
    onField ''Reconciler'' (copyPtr ReconcilerSpec_type assign)]"

definition GCConfigSpec_DeepCopy :: deep_copy where
  "GCConfigSpec_DeepCopy = copyNew GCConfigSpec_type GCConfigSpec_DeepCopyInto"

definition GCSpec_DeepCopyInto :: "copy_lib \<Rightarrow> copier" where
  "GCSpec_DeepCopyInto L = copyStruct [onField ''Replicas'' (copyPtr TInt32 assign),
    onField ''Resources'' (copyPtr (lib_type L Lib_ResourceRequirements)
      (lib_DeepCopyInto L Lib_ResourceRequirements)),
    onField ''Config'' (copyPtr GCConfigSpec_type GCConfigSpec_DeepCopyInto)]"

definition GCSpec_DeepCopy :: "copy_lib \<Rightarrow> deep_copy" where
  "GCSpec_DeepCopy L = copyNew (GCSpec_type L) (GCSpec_DeepCopyInto L)"

definition MonitoringSpec_DeepCopyInto :: copier where
  "MonitoringSpec_DeepCopyInto = copyStruct []"

definition MonitoringSpec_DeepCopy :: deep_copy where
  "MonitoringSpec_DeepCopy = copyNew MonitoringSpec_type MonitoringSpec_DeepCopyInto"

definition GrafanaSpec_DeepCopyInto :: copier where
  "GrafanaSpec_DeepCopyInto = copyStruct []"

definition GrafanaSpec_DeepCopy :: deep_copy where
  "GrafanaSpec_DeepCopy = copyNew GrafanaSpec_type GrafanaSpec_DeepCopyInto"

definition CertManagerSpec_DeepCopyInto :: copier where
  "CertManagerSpec_DeepCopyInto = copyStruct [onField ''DNSNames'' (copyFlatSlice TString)]"

definition CertManagerSpec_DeepCopy :: deep_copy where
  "CertManagerSpec_DeepCopy = copyNew CertManagerSpec_type CertManagerSpec_DeepCopyInto"

definition TLSSpec_DeepCopyInto :: copier where
  "TLSSpec_DeepCopyInto = copyStruct [
    onField ''CertManager'' (copyPtr CertManagerSpec_type CertManagerSpec_DeepCopyInto)]"

definition TLSSpec_DeepCopy :: deep_copy where
  "TLSSpec_DeepCopy = copyNew TLSSpec_type TLSSpec_DeepCopyInto"

definition ParentReference_DeepCopyInto :: copier where
  "ParentReference_DeepCopyInto = copyStruct []"

definition ParentReference_DeepCopy :: deep_copy where
  "ParentReference_DeepCopy = copyNew ParentReference_type ParentReference_DeepCopyInto"

definition HTTPRouteSpec_DeepCopyInto :: copier where
  "HTTPRouteSpec_DeepCopyInto = copyStruct [onField ''Annotations'' copyMap,
    onField ''ParentRefs'' (copyFlatSlice ParentReference_type)]"

definition HTTPRouteSpec_DeepCopy :: deep_copy where
  "HTTPRouteSpec_DeepCopy = copyNew HTTPRouteSpec_type HTTPRouteSpec_DeepCopyInto"

definition OTELSpec_DeepCopyInto :: copier where
  "OTELSpec_DeepCopyInto = copyStruct []"

definition OTELSpec_DeepCopy :: deep_copy where
  "OTELSpec_DeepCopy = copyNew OTELSpec_type OTELSpec_DeepCopyInto"

definition PrometheusRuleSpec_DeepCopyInto :: copier where
  "PrometheusRuleSpec_DeepCopyInto = copyStruct [onField ''Labels'' copyMap]"

definition PrometheusRuleSpec_DeepCopy :: deep_copy where
  "PrometheusRuleSpec_DeepCopy = copyNew PrometheusRuleSpec_type PrometheusRuleSpec_DeepCopyInto"

definition LLMBatchGatewaySpec_DeepCopyInto :: "copy_lib \<Rightarrow> copier" where
  "LLMBatchGatewaySpec_DeepCopyInto L = copyStruct [onField ''SecretRef'' assign,
    onField ''ExtraEndpoints'' (copyFlatSlice TString),
    onField ''FileStorage'' (copyPtr FileStorageSpec_type FileStorageSpec_DeepCopyInto),
    onField ''APIServer'' (APIServerSpec_DeepCopyInto L),
    onField ''Processor'' (ProcessorSpec_DeepCopyInto L), onField ''GC'' (GCSpec_DeepCopyInto L),
    onField ''Monitoring'' (copyPtr MonitoringSpec_type assign),
    onField ''Grafana'' (copyPtr GrafanaSpec_type assign),
    onField ''TLS'' (copyPtr TLSSpec_type TLSSpec_DeepCopyInto),
    onField ''HTTPRoute'' (copyPtr HTTPRouteSpec_type HTTPRouteSpec_DeepCopyInto),
    onField ''OTEL'' (copyPtr OTELSpec_type assign),
    onField ''PrometheusRule'' (copyPtr PrometheusRuleSpec_type PrometheusRuleSpec_DeepCopyInto),
    onField ''ImagePullSecrets'' (copyFlatSlice LocalObjectReference_type)]"

definition LLMBatchGatewaySpec_DeepCopy :: "copy_lib \<Rightarrow> deep_copy" where
  "LLMBatchGatewaySpec_DeepCopy L =
     copyNew (LLMBatchGatewaySpec_type L) (LLMBatchGatewaySpec_DeepCopyInto L)"

definition ComponentReplicaStatus_DeepCopyInto :: copier where
  "ComponentReplicaStatus_DeepCopyInto = copyStruct []"

definition ComponentReplicaStatus_DeepCopy :: deep_copy where
  "ComponentReplicaStatus_DeepCopy =
     copyNew ComponentReplicaStatus_type ComponentReplicaStatus_DeepCopyInto"

definition ComponentStatus_DeepCopyInto :: copier where
  "ComponentStatus_DeepCopyInto = copyStruct [
    onField ''APIServer'' (copyPtr ComponentReplicaStatus_type assign),
    onField ''Processor'' (copyPtr ComponentReplicaStatus_type assign),
    onField ''GC'' (copyPtr ComponentReplicaStatus_type assign),
    onField ''AsyncProcessor'' (copyPtr ComponentReplicaStatus_type assign)]"

definition ComponentStatus_DeepCopy :: deep_copy where
  "ComponentStatus_DeepCopy = copyNew ComponentStatus_type ComponentStatus_DeepCopyInto"

definition LLMBatchGatewayStatus_DeepCopyInto :: "copy_lib \<Rightarrow> copier" where
  "LLMBatchGatewayStatus_DeepCopyInto L = copyStruct [
    onField ''Conditions'' (copySlice (lib_type L Lib_Condition) (lib_DeepCopyInto L Lib_Condition)),
    onField ''ComponentStatus'' (copyPtr ComponentStatus_type ComponentStatus_DeepCopyInto)]"

definition LLMBatchGatewayStatus_DeepCopy :: "copy_lib \<Rightarrow> deep_copy" where
  "LLMBatchGatewayStatus_DeepCopy L =
     copyNew (LLMBatchGatewayStatus_type L) (LLMBatchGatewayStatus_DeepCopyInto L)"

definition LLMBatchGateway_DeepCopyInto :: "copy_lib \<Rightarrow> copier" where
  "LLMBatchGateway_DeepCopyInto L = copyStruct [onField ''TypeMeta'' assign,
    onField ''ObjectMeta'' (lib_DeepCopyInto L Lib_ObjectMeta),
    onField ''Spec'' (LLMBatchGatewaySpec_DeepCopyInto L),
    onField ''Status'' (LLMBatchGatewayStatus_DeepCopyInto L)]"

definition LLMBatchGateway_DeepCopy :: "copy_lib \<Rightarrow> deep_copy" where
  "LLMBatchGateway_DeepCopy L = copyNew (LLMBatchGateway_type L) (LLMBatchGateway_DeepCopyInto L)"

definition LLMBatchGatewayList_DeepCopyInto :: "copy_lib \<Rightarrow> copier" where
  "LLMBatchGatewayList_DeepCopyInto L = copyStruct [onField ''TypeMeta'' assign,
    onField ''ListMeta'' (lib_DeepCopyInto L Lib_ListMeta),
    onField ''Items'' (copySlice (LLMBatchGateway_type L) (LLMBatchGateway_DeepCopyInto L))]"

definition LLMBatchGatewayList_DeepCopy :: "copy_lib \<Rightarrow> deep_copy" where
  "LLMBatchGatewayList_DeepCopy L =
     copyNew (LLMBatchGatewayList_type L) (LLMBatchGatewayList_DeepCopyInto L)"

text \<open>An object is returned as an interface value, nil for a nil receiver.\<close>

datatype runtime_object = Object_LLMBatchGateway loc | Object_LLMBatchGatewayList loc

definition LLMBatchGateway_DeepCopyObject ::
  "copy_lib \<Rightarrow> loc option \<Rightarrow> mem \<Rightarrow> (runtime_object option \<times> mem) option" where
  "LLMBatchGateway_DeepCopyObject L p m =
     Option.bind (LLMBatchGateway_DeepCopy L p m) (\<lambda>(c, m').
       Some (case c of Some l \<Rightarrow> Some (Object_LLMBatchGateway l) | None \<Rightarrow> None, m'))"

definition LLMBatchGatewayList_DeepCopyObject ::
  "copy_lib \<Rightarrow> loc option \<Rightarrow> mem \<Rightarrow> (runtime_object option \<times> mem) option" where
  "LLMBatchGatewayList_DeepCopyObject L p m =
     Option.bind (LLMBatchGatewayList_DeepCopy L p m) (\<lambda>(c, m').
       Some (case c of Some l \<Rightarrow> Some (Object_LLMBatchGatewayList l) | None \<Rightarrow> None, m'))"

section \<open>Each of them copies deeply\<close>

text \<open>What the code relies on: the \<open>DeepCopyInto\<close> of the library structs does.\<close>

definition copy_lib_ok :: "copy_lib \<Rightarrow> bool" where
  "copy_lib_ok L \<longleftrightarrow> (\<forall>S. deep_copies (lib_type L S) (lib_DeepCopyInto L S))"

named_theorems copy_rules

lemmas statement_rules [copy_rules] = copyPtr_completes copySlice_completes copyFlatSlice_completes copyMap_completes

lemma assign_completes [copy_rules]: "flat T \<Longrightarrow> completes T assign"
  by (rule deep_completes [OF assign_copies])

lemma lib_copies: "copy_lib_ok L \<Longrightarrow> completes (lib_type L S) (lib_DeepCopyInto L S)"
  by (simp add: copy_lib_ok_def deep_completes)

text \<open>
  The types in layers, each of which uses those before it; a layer's copies are deep because the
  earlier ones are.
\<close>

lemmas leaf_defs =S3StorageSpec_type_def S3StorageSpec_DeepCopyInto_def FSStorageSpec_type_def
  FSStorageSpec_DeepCopyInto_def FileRetrySpec_type_def FileRetrySpec_DeepCopyInto_def
  BatchAPIConfig_type_def BatchAPIConfig_DeepCopyInto_def FileAPIConfig_type_def
  FileAPIConfig_DeepCopyInto_def LoggingConfig_type_def LoggingConfig_DeepCopyInto_def
  AIMDConfig_type_def AIMDConfig_DeepCopyInto_def ResumableConfigSpec_type_def
  ResumableConfigSpec_DeepCopyInto_def ModelGatewaySpec_type_def
  ModelGatewaySpec_DeepCopyInto_def InferenceGatewaySpec_type_def
  InferenceGatewaySpec_DeepCopyInto_def AsyncQueueConfig_type_def
  AsyncQueueConfig_DeepCopyInto_def AsyncWorkerPool_type_def AsyncWorkerPool_DeepCopyInto_def
  AsyncTLSSpec_type_def AsyncTLSSpec_DeepCopyInto_def AsyncRequestTransform_type_def
  AsyncRequestTransform_DeepCopyInto_def AsyncModelServerMonitorSpec_type_def
  AsyncModelServerMonitorSpec_DeepCopyInto_def ReconcilerSpec_type_def
  ReconcilerSpec_DeepCopyInto_def MonitoringSpec_type_def MonitoringSpec_DeepCopyInto_def
  GrafanaSpec_type_def GrafanaSpec_DeepCopyInto_def CertManagerSpec_type_def
  CertManagerSpec_DeepCopyInto_def ParentReference_type_def ParentReference_DeepCopyInto_def
  OTELSpec_type_def OTELSpec_DeepCopyInto_def PrometheusRuleSpec_type_def
  PrometheusRuleSpec_DeepCopyInto_def ComponentReplicaStatus_type_def
  ComponentReplicaStatus_DeepCopyInto_def

lemma leaf_copies [copy_rules]:
  "deep_copies S3StorageSpec_type S3StorageSpec_DeepCopyInto"
  "deep_copies FSStorageSpec_type FSStorageSpec_DeepCopyInto"
  "deep_copies FileRetrySpec_type FileRetrySpec_DeepCopyInto"
  "deep_copies BatchAPIConfig_type BatchAPIConfig_DeepCopyInto"
  "deep_copies FileAPIConfig_type FileAPIConfig_DeepCopyInto"
  "deep_copies LoggingConfig_type LoggingConfig_DeepCopyInto"
  "deep_copies AIMDConfig_type AIMDConfig_DeepCopyInto"
  "deep_copies ResumableConfigSpec_type ResumableConfigSpec_DeepCopyInto"
  "deep_copies ModelGatewaySpec_type ModelGatewaySpec_DeepCopyInto"
  "deep_copies InferenceGatewaySpec_type InferenceGatewaySpec_DeepCopyInto"
  "deep_copies AsyncQueueConfig_type AsyncQueueConfig_DeepCopyInto"
  "deep_copies AsyncWorkerPool_type AsyncWorkerPool_DeepCopyInto"
  "deep_copies AsyncTLSSpec_type AsyncTLSSpec_DeepCopyInto"
  "deep_copies AsyncRequestTransform_type AsyncRequestTransform_DeepCopyInto"
  "deep_copies AsyncModelServerMonitorSpec_type AsyncModelServerMonitorSpec_DeepCopyInto"
  "deep_copies ReconcilerSpec_type ReconcilerSpec_DeepCopyInto"
  "deep_copies MonitoringSpec_type MonitoringSpec_DeepCopyInto"
  "deep_copies GrafanaSpec_type GrafanaSpec_DeepCopyInto"
  "deep_copies CertManagerSpec_type CertManagerSpec_DeepCopyInto"
  "deep_copies ParentReference_type ParentReference_DeepCopyInto"
  "deep_copies OTELSpec_type OTELSpec_DeepCopyInto"
  "deep_copies PrometheusRuleSpec_type PrometheusRuleSpec_DeepCopyInto"
  "deep_copies ComponentReplicaStatus_type ComponentReplicaStatus_DeepCopyInto"
  unfolding leaf_defs
  by (rule copyStruct_copies, (rule covers.intros copy_rules deep_completes | simp)+)+

lemmas inner_defs =FileStorageSpec_type_def FileStorageSpec_DeepCopyInto_def
  APIServerConfigSpec_type_def APIServerConfigSpec_DeepCopyInto_def ConcurrencyConfig_type_def
  ConcurrencyConfig_DeepCopyInto_def AsyncRedisSpec_type_def AsyncRedisSpec_DeepCopyInto_def
  AsyncSQLSpec_type_def AsyncSQLSpec_DeepCopyInto_def AsyncTransformConfig_type_def
  AsyncTransformConfig_DeepCopyInto_def GCConfigSpec_type_def GCConfigSpec_DeepCopyInto_def
  TLSSpec_type_def TLSSpec_DeepCopyInto_def HTTPRouteSpec_type_def
  HTTPRouteSpec_DeepCopyInto_def ComponentStatus_type_def ComponentStatus_DeepCopyInto_def

lemma inner_copies [copy_rules]:
  "deep_copies FileStorageSpec_type FileStorageSpec_DeepCopyInto"
  "deep_copies APIServerConfigSpec_type APIServerConfigSpec_DeepCopyInto"
  "deep_copies ConcurrencyConfig_type ConcurrencyConfig_DeepCopyInto"
  "deep_copies AsyncRedisSpec_type AsyncRedisSpec_DeepCopyInto"
  "deep_copies AsyncSQLSpec_type AsyncSQLSpec_DeepCopyInto"
  "deep_copies AsyncTransformConfig_type AsyncTransformConfig_DeepCopyInto"
  "deep_copies GCConfigSpec_type GCConfigSpec_DeepCopyInto"
  "deep_copies TLSSpec_type TLSSpec_DeepCopyInto"
  "deep_copies HTTPRouteSpec_type HTTPRouteSpec_DeepCopyInto"
  "deep_copies ComponentStatus_type ComponentStatus_DeepCopyInto"
  unfolding inner_defs
  by (rule copyStruct_copies, (rule covers.intros copy_rules deep_completes | simp)+)+

lemmas section_defs =APIServerSpec_type_def APIServerSpec_DeepCopyInto_def
  ProcessorConfigSpec_type_def ProcessorConfigSpec_DeepCopyInto_def AsyncProcessorSpec_type_def
  AsyncProcessorSpec_DeepCopyInto_def GCSpec_type_def GCSpec_DeepCopyInto_def
  LLMBatchGatewayStatus_type_def LLMBatchGatewayStatus_DeepCopyInto_def

lemma section_copies [copy_rules]:
  assumes "copy_lib_ok L"
  shows "deep_copies (APIServerSpec_type L) (APIServerSpec_DeepCopyInto L)"
    "deep_copies ProcessorConfigSpec_type ProcessorConfigSpec_DeepCopyInto"
    "deep_copies (AsyncProcessorSpec_type L) (AsyncProcessorSpec_DeepCopyInto L)"
    "deep_copies (GCSpec_type L) (GCSpec_DeepCopyInto L)"
    "deep_copies (LLMBatchGatewayStatus_type L) (LLMBatchGatewayStatus_DeepCopyInto L)"
  unfolding section_defs
  by (rule copyStruct_copies, (rule covers.intros copy_rules deep_completes lib_copies assms | simp)+)+

lemmas part_defs =ProcessorSpec_type_def ProcessorSpec_DeepCopyInto_def

lemma part_copies [copy_rules]:
  assumes "copy_lib_ok L"
  shows "deep_copies (ProcessorSpec_type L) (ProcessorSpec_DeepCopyInto L)"
  unfolding part_defs
  by (rule copyStruct_copies, (rule covers.intros copy_rules deep_completes lib_copies assms | simp)+)+

lemmas spec_defs =LLMBatchGatewaySpec_type_def LLMBatchGatewaySpec_DeepCopyInto_def

lemma spec_copies [copy_rules]:
  assumes "copy_lib_ok L"
  shows "deep_copies (LLMBatchGatewaySpec_type L) (LLMBatchGatewaySpec_DeepCopyInto L)"
  unfolding spec_defs
  by (rule copyStruct_copies, (rule covers.intros copy_rules deep_completes lib_copies assms | simp)+)+

lemmas resource_defs =LLMBatchGateway_type_def LLMBatchGateway_DeepCopyInto_def

lemma resource_copies [copy_rules]:
  assumes "copy_lib_ok L"
  shows "deep_copies (LLMBatchGateway_type L) (LLMBatchGateway_DeepCopyInto L)"
  unfolding resource_defs
  by (rule copyStruct_copies, (rule covers.intros copy_rules deep_completes lib_copies assms | simp)+)+

lemmas list_defs =LLMBatchGatewayList_type_def LLMBatchGatewayList_DeepCopyInto_def

lemma list_copies [copy_rules]:
  assumes "copy_lib_ok L"
  shows "deep_copies (LLMBatchGatewayList_type L) (LLMBatchGatewayList_DeepCopyInto L)"
  unfolding list_defs
  by (rule copyStruct_copies, (rule covers.intros copy_rules deep_completes lib_copies assms | simp)+)+

section \<open>Properties\<close>

definition generated :: "copy_lib \<Rightarrow> (string \<times> gtype \<times> deep_copy) list" where
  "generated L = [(''S3StorageSpec'', S3StorageSpec_type, S3StorageSpec_DeepCopy),
    (''FSStorageSpec'', FSStorageSpec_type, FSStorageSpec_DeepCopy),
    (''FileRetrySpec'', FileRetrySpec_type, FileRetrySpec_DeepCopy),
    (''FileStorageSpec'', FileStorageSpec_type, FileStorageSpec_DeepCopy),
    (''BatchAPIConfig'', BatchAPIConfig_type, BatchAPIConfig_DeepCopy),
    (''FileAPIConfig'', FileAPIConfig_type, FileAPIConfig_DeepCopy),
    (''LoggingConfig'', LoggingConfig_type, LoggingConfig_DeepCopy),
    (''APIServerConfigSpec'', APIServerConfigSpec_type, APIServerConfigSpec_DeepCopy),
    (''APIServerSpec'', APIServerSpec_type L, APIServerSpec_DeepCopy L),
    (''AIMDConfig'', AIMDConfig_type, AIMDConfig_DeepCopy),
    (''ConcurrencyConfig'', ConcurrencyConfig_type, ConcurrencyConfig_DeepCopy),
    (''ResumableConfigSpec'', ResumableConfigSpec_type, ResumableConfigSpec_DeepCopy),
    (''ProcessorConfigSpec'', ProcessorConfigSpec_type, ProcessorConfigSpec_DeepCopy),
    (''ModelGatewaySpec'', ModelGatewaySpec_type, ModelGatewaySpec_DeepCopy),
    (''InferenceGatewaySpec'', InferenceGatewaySpec_type, InferenceGatewaySpec_DeepCopy),
    (''AsyncQueueConfig'', AsyncQueueConfig_type, AsyncQueueConfig_DeepCopy),
    (''AsyncRedisSpec'', AsyncRedisSpec_type, AsyncRedisSpec_DeepCopy),
    (''AsyncSQLSpec'', AsyncSQLSpec_type, AsyncSQLSpec_DeepCopy),
    (''AsyncWorkerPool'', AsyncWorkerPool_type, AsyncWorkerPool_DeepCopy),
    (''AsyncTLSSpec'', AsyncTLSSpec_type, AsyncTLSSpec_DeepCopy),
    (''AsyncRequestTransform'', AsyncRequestTransform_type, AsyncRequestTransform_DeepCopy),
    (''AsyncTransformConfig'', AsyncTransformConfig_type, AsyncTransformConfig_DeepCopy),
    (''AsyncModelServerMonitorSpec'', AsyncModelServerMonitorSpec_type, AsyncModelServerMonitorSpec_DeepCopy),
    (''AsyncProcessorSpec'', AsyncProcessorSpec_type L, AsyncProcessorSpec_DeepCopy L),
    (''ProcessorSpec'', ProcessorSpec_type L, ProcessorSpec_DeepCopy L),
    (''ReconcilerSpec'', ReconcilerSpec_type, ReconcilerSpec_DeepCopy),
    (''GCConfigSpec'', GCConfigSpec_type, GCConfigSpec_DeepCopy),
    (''GCSpec'', GCSpec_type L, GCSpec_DeepCopy L),
    (''MonitoringSpec'', MonitoringSpec_type, MonitoringSpec_DeepCopy),
    (''GrafanaSpec'', GrafanaSpec_type, GrafanaSpec_DeepCopy),
    (''CertManagerSpec'', CertManagerSpec_type, CertManagerSpec_DeepCopy),
    (''TLSSpec'', TLSSpec_type, TLSSpec_DeepCopy),
    (''ParentReference'', ParentReference_type, ParentReference_DeepCopy),
    (''HTTPRouteSpec'', HTTPRouteSpec_type, HTTPRouteSpec_DeepCopy),
    (''OTELSpec'', OTELSpec_type, OTELSpec_DeepCopy),
    (''PrometheusRuleSpec'', PrometheusRuleSpec_type, PrometheusRuleSpec_DeepCopy),
    (''LLMBatchGatewaySpec'', LLMBatchGatewaySpec_type L, LLMBatchGatewaySpec_DeepCopy L),
    (''ComponentReplicaStatus'', ComponentReplicaStatus_type, ComponentReplicaStatus_DeepCopy),
    (''ComponentStatus'', ComponentStatus_type, ComponentStatus_DeepCopy),
    (''LLMBatchGatewayStatus'', LLMBatchGatewayStatus_type L, LLMBatchGatewayStatus_DeepCopy L),
    (''LLMBatchGateway'', LLMBatchGateway_type L, LLMBatchGateway_DeepCopy L),
    (''LLMBatchGatewayList'', LLMBatchGatewayList_type L, LLMBatchGatewayList_DeepCopy L)]"

lemmas DeepCopy_defs =S3StorageSpec_DeepCopy_def FSStorageSpec_DeepCopy_def
  FileRetrySpec_DeepCopy_def FileStorageSpec_DeepCopy_def BatchAPIConfig_DeepCopy_def
  FileAPIConfig_DeepCopy_def LoggingConfig_DeepCopy_def APIServerConfigSpec_DeepCopy_def
  APIServerSpec_DeepCopy_def AIMDConfig_DeepCopy_def ConcurrencyConfig_DeepCopy_def
  ResumableConfigSpec_DeepCopy_def ProcessorConfigSpec_DeepCopy_def
  ModelGatewaySpec_DeepCopy_def InferenceGatewaySpec_DeepCopy_def AsyncQueueConfig_DeepCopy_def
  AsyncRedisSpec_DeepCopy_def AsyncSQLSpec_DeepCopy_def AsyncWorkerPool_DeepCopy_def
  AsyncTLSSpec_DeepCopy_def AsyncRequestTransform_DeepCopy_def
  AsyncTransformConfig_DeepCopy_def AsyncModelServerMonitorSpec_DeepCopy_def
  AsyncProcessorSpec_DeepCopy_def ProcessorSpec_DeepCopy_def ReconcilerSpec_DeepCopy_def
  GCConfigSpec_DeepCopy_def GCSpec_DeepCopy_def MonitoringSpec_DeepCopy_def
  GrafanaSpec_DeepCopy_def CertManagerSpec_DeepCopy_def TLSSpec_DeepCopy_def
  ParentReference_DeepCopy_def HTTPRouteSpec_DeepCopy_def OTELSpec_DeepCopy_def
  PrometheusRuleSpec_DeepCopy_def LLMBatchGatewaySpec_DeepCopy_def
  ComponentReplicaStatus_DeepCopy_def ComponentStatus_DeepCopy_def
  LLMBatchGatewayStatus_DeepCopy_def LLMBatchGateway_DeepCopy_def
  LLMBatchGatewayList_DeepCopy_def

lemma generated_deep:
  assumes "copy_lib_ok L"
  shows "list_all (\<lambda>(name, T, new). \<exists>into. new = copyNew T into \<and> deep_copies T into) (generated L)"
  unfolding generated_def list.pred_inject prod.case DeepCopy_defs
  by (intro conjI list.pred_inject(1); (rule exI, rule conjI, rule refl,
      rule leaf_copies inner_copies section_copies [OF assms] part_copies [OF assms]
        spec_copies [OF assms] resource_copies [OF assms] list_copies [OF assms]))

lemma generated_spec:
  assumes "copy_lib_ok L" and "(name, T, new) \<in> set (generated L)"
    and "wf_mem m" and "load m l = Some v" and "typed m T v"
  obtains a m' v' where "new (Some l) m = Some (Some (a, []), m')" "touches {} m m'"
    "load m' (a, []) = Some v'" "fresh_copy T m v m' v'" "next_addr m \<le> a" "a < next_addr m'"
proof -
  obtain into where "new = copyNew T into" "deep_copies T into"
    using generated_deep [OF assms(1)] assms(2) by (auto simp: list_all_iff)
  then show ?thesis
    using copyNew_spec [OF _ assms(3-5)] that by metis
qed

text \<open>
  C13: every generated \<open>DeepCopy\<close> of a well-typed value succeeds and returns a new variable that
  holds a value of the same type and the same meaning; no variable that existed before changes,
  and the copy reaches none of them: all it reaches is new.
\<close>

theorem generated_copies_are_deep:
  assumes "copy_lib_ok L" and "(name, T, new) \<in> set (generated L)"
    and "wf_mem m" and "load m l = Some v" and "typed m T v"
  shows "\<exists>a m' v'. new (Some l) m = Some (Some (a, []), m') \<and> load m' (a, []) = Some v' \<and>
    typed m' T v' \<and> denote m' T v' = denote m T v \<and>
    (\<forall>b<next_addr m. cells m' b = cells m b) \<and>
    (\<forall>b\<in>insert a (set (reach m' T v')). cells m b = None \<and> next_addr m \<le> b)"
proof -
  obtain a m' v' where new: "new (Some l) m = Some (Some (a, []), m')" "touches {} m m'"
    "load m' (a, []) = Some v'" "fresh_copy T m v m' v'" "next_addr m \<le> a" "a < next_addr m'"
    by (rule generated_spec [OF assms])
  have "cells m b = None" if "next_addr m \<le> b" for b
    using assms(3) that by (simp add: wf_mem_def)
  with new show ?thesis
    by (intro exI [of _ a] exI [of _ m'] exI [of _ v']) (auto simp: fresh_copy_def touches_def)
qed

text \<open>
  C21: original and copy are independent. Whatever the program does later to the variables of
  the copy, the original means what it meant; whatever it does to the variables that existed
  before the copy, the copy still means what the original meant when it was copied.
\<close>

theorem copies_are_independent:
  assumes "copy_lib_ok L" and "(name, T, new) \<in> set (generated L)"
    and "wf_mem m" and "load m l = Some v" and "typed m T v"
    and "new (Some l) m = Some (Some c, m1)" and "load m1 c = Some v'"
  shows "(agree m1 m2 (- insert (fst c) (set (reach m1 T v'))) \<longrightarrow>
      load m2 l = Some v \<and> denote m2 T v = denote m T v) \<and>
    (agree m1 m2 {next_addr m..} \<longrightarrow> load m2 c = Some v' \<and> denote m2 T v' = denote m T v)"
proof (intro conjI impI)
  obtain a m' w where new: "new (Some l) m = Some (Some (a, []), m')" "touches {} m m'"
    "load m' (a, []) = Some w" "fresh_copy T m v m' w" "next_addr m \<le> a" "a < next_addr m'"
    by (rule generated_spec [OF assms(1-5)])
  have eq: "c = (a, [])" "m' = m1" "w = v'" using assms(6,7) new(1,3) by auto
  have new_cells: "insert a (set (reach m1 T v')) \<subseteq> {next_addr m..}"
    using new(4,5) eq by (auto simp: fresh_copy_def)
  {
    assume later: "agree m1 m2 (- insert (fst c) (set (reach m1 T v')))"
    have old: "cells m2 b = cells m b" if "b < next_addr m" for b
    proof -
      have "b \<notin> insert a (set (reach m1 T v'))" using new_cells that by auto
      then have "cells m2 b = cells m1 b" using later eq(1) by (simp add: agree_def)
      also have "\<dots> = cells m b" using touches_cell [OF new(2) that] eq(2) by simp
      finally show ?thesis .
    qed
    then have "agree m m2 (set (reach m T v))"
      using typed_reach_bound [OF assms(3,5)] by (auto simp: agree_def)
    then show "denote m2 T v = denote m T v" by (rule frame_simps)
    have "load m2 l = load m l"
      by (rule load_cong) (rule old [OF loaded_bound(2) [OF assms(3,4)]])
    then show "load m2 l = Some v" using assms(4) by simp
  }
  {
    assume later: "agree m1 m2 {next_addr m..}"
    have "set (reach m1 T v') \<subseteq> {next_addr m..}" using new_cells by simp
    from frame_simps(2) [OF agree_mono [OF later this]]
    show "denote m2 T v' = denote m T v" using new(4) eq by (simp add: fresh_copy_def)
    have "load m2 c = load m1 c"
      by (rule load_cong) (use later new(5) eq in \<open>simp add: agree_def\<close>)
    then show "load m2 c = Some v'" using assms(7) by simp
  }
qed

lemma nil_copies:
  assumes "(name, T, new) \<in> set (generated L)" and "copy_lib_ok L"
  shows "new None m = Some (None, m)"
  using generated_deep [OF assms(2)] assms(1) by (auto simp: list_all_iff copyNew_def)

lemma DeepCopyObject_nil:
  "LLMBatchGateway_DeepCopyObject L None m = Some (None, m)"
  "LLMBatchGatewayList_DeepCopyObject L None m = Some (None, m)"
  by (simp_all add: LLMBatchGateway_DeepCopyObject_def LLMBatchGatewayList_DeepCopyObject_def
      DeepCopy_defs copyNew_def)

section \<open>Witnesses\<close>

text \<open>Library structs with a map of labels, and a Redis section with a queue.\<close>

definition sampleCopyLib :: copy_lib where
  "sampleCopyLib = \<lparr>lib_type = (\<lambda>_. TStruct [(''Name'', TString), (''Labels'', TMap TString)]),
     lib_DeepCopyInto = (\<lambda>_. copyStruct [onField ''Labels'' copyMap])\<rparr>"

lemma sampleCopyLib_ok: "copy_lib_ok sampleCopyLib"
  unfolding copy_lib_ok_def sampleCopyLib_def copy_lib.simps
  by (rule allI, rule copyStruct_copies, (rule covers.intros copy_rules | simp)+)

definition gateTable :: gval where
  "gateTable = VTable [(''limit'', VScalar (SString ''2''))]"

definition queueValue :: gval where
  "queueValue = VStruct [(''Name'', VScalar (SString ''q'')), (''WorkerPoolID'', VScalar (SString '''')),
     (''IGWBaseURL'', VScalar (SString '''')), (''RequestPathURL'', VScalar (SString '''')),
     (''GateType'', VScalar (SString '''')), (''GateParams'', VMap (Some 3))]"

definition redisValue :: gval where
  "redisValue = VStruct [(''RequestPathURL'', VScalar (SString '''')), (''PollIntervalMs'', VPtr (Some (1, []))),
     (''BatchSize'', VPtr None), (''GateType'', VScalar (SString '''')), (''GateParams'', VMap None),
     (''QueuesConfig'', VSlice (Some (2, 0, 1)))]"

definition sampleMem :: mem where
  "sampleMem = \<lparr>cells = [0 \<mapsto> redisValue, 1 \<mapsto> VScalar (SInt32 1000), 2 \<mapsto> VArray [queueValue],
     3 \<mapsto> gateTable], next_addr = 4\<rparr>"

lemma sampleMem_ok:
  "wf_mem sampleMem" "load sampleMem (0, []) = Some redisValue"
  "typed sampleMem AsyncRedisSpec_type redisValue"
  "(''AsyncRedisSpec'', AsyncRedisSpec_type, AsyncRedisSpec_DeepCopy) \<in> set (generated L)"
  by (simp_all add: wf_mem_def load_def sampleMem_def window_def redisValue_def queueValue_def
      gateTable_def AsyncRedisSpec_type_def AsyncQueueConfig_type_def generated_def)

theorem generated_copies_are_deep_witness:
  "\<exists>a m' v'. AsyncRedisSpec_DeepCopy (Some (0, [])) sampleMem = Some (Some (a, []), m') \<and>
     load m' (a, []) = Some v' \<and>
     denote m' AsyncRedisSpec_type v' = denote sampleMem AsyncRedisSpec_type redisValue"
  using generated_copies_are_deep [OF sampleCopyLib_ok sampleMem_ok(4,1,2,3)] by blast

theorem copies_are_independent_witness:
  "\<exists>c m1. AsyncRedisSpec_DeepCopy (Some (0, [])) sampleMem = Some (Some c, m1) \<and>
     denote (m1\<lparr>cells := (cells m1)(fst c \<mapsto> VArray [])\<rparr>) AsyncRedisSpec_type redisValue
       = denote sampleMem AsyncRedisSpec_type redisValue"
proof -
  obtain a m1 v' where new: "AsyncRedisSpec_DeepCopy (Some (0, [])) sampleMem = Some (Some (a, []), m1)"
    "load m1 (a, []) = Some v'"
    by (rule generated_spec [OF sampleCopyLib_ok sampleMem_ok(4,1,2,3)])
  have "agree m1 (m1\<lparr>cells := (cells m1)(a \<mapsto> VArray [])\<rparr>)
      (- insert (fst (a, [])) (set (reach m1 AsyncRedisSpec_type v')))"
    by (simp add: agree_def)
  with copies_are_independent [OF sampleCopyLib_ok sampleMem_ok(4,1,2,3) new] new(1)
  show ?thesis by (metis fst_conv)
qed

end
