(* ===== verification/Spec2Isabelle.thy ===== *)
theory Spec2Isabelle
  imports Flags Permissions Stability Settings Admission DeepCopy
begin

text \<open>
  A model of the llm-d batch gateway operator, a Kubernetes controller written in Go, with the
  theorems that make it correct.

  The program. \<open>cmd/main.go\<close> resolves the cluster's TLS profile, reads the component
  images from the environment, loads two Helm charts and starts a manager with two controllers.
  The first reconciles each \<open>LLMBatchGateway\<close>: it validates the spec, resolves the
  credentials Secret (copied from another namespace when a ReferenceGrant allows it), renders
  both charts from values it computes, applies every object by server-side apply, deletes the
  objects it owns that are no longer rendered, and reports the rollout in the status. The second
  keeps the operator's own Service, ServiceMonitor and PrometheusRule in place.

  Theories, in the order in which they build on each other:

  \<^item> \<open>Prelude\<close>: Go maps as association lists with the contract \<open>map_ops\<close>, machine
    integers, early-return loops. \<open>Errors\<close>: Go errors as trees, with \<open>errors.As\<close> as a search.
  \<^item> \<open>Types\<close>: the structs of \<open>api/v1alpha1\<close>, pointers as options, \<open>int32\<close> and \<open>int64\<close> as
    words.
  \<^item> \<open>AsyncQueues\<close>, \<open>HelmAsync\<close> (\<open>helm_async.go\<close>), \<open>HelmBatch\<close> (\<open>helm_batch.go\<close>),
    \<open>Helm\<close> (\<open>helm.go\<close>): queue names, the two value trees key by key, rendering. What single
    paths of the trees hold, and that the two trees agree, is in \<open>ChartValues\<close>.
  \<^item> \<open>NormalForm\<close>, \<open>BatchSettings\<close>, \<open>Settings\<close>: the normal form of a spec that the two value
    trees determine and are determined by, so what a chart sees of every field.
  \<^item> \<open>Validation\<close>: \<open>validateSpec\<close> and its helpers of
    \<open>llmbatchgateway_controller.go\<close>, and the declarative rules \<open>valid_spec\<close> they
    implement; \<open>Sample\<close> has gateways for the witnesses.
  \<^item> \<open>TLSProfile\<close> (\<open>internal/tls/profile.go\<close>), \<open>OperatorObjects\<close> and \<open>Monitoring\<close>
    (\<open>internal/monitoring\<close>), \<open>SecretFilter\<close> (\<open>secret_watch_filter.go\<close>),
    \<open>SecretSync\<close> (\<open>secret_sync.go\<close>).
  \<^item> \<open>Kube\<close>: the state, the effect log, the abstract client, \<open>statuspatch.go\<close> and
    \<open>ServerSideApply\<close>; \<open>Cluster\<close> is a small concrete server that the witnesses run on.
  \<^item> \<open>Rollout\<close>, \<open>Status\<close>, \<open>Orphans\<close>, \<open>Reconcile\<close>: the parts of
    \<open>llmbatchgateway_controller.go\<close>; \<open>Runs\<close> has complete runs of a reconcile.
  \<^item> \<open>Watches\<close>: \<open>SetupWithManager\<close>; \<open>Startup\<close>: \<open>cmd/main.go\<close> and \<open>cmd/metrics.go\<close>;
    \<open>Flags\<close>: the command line, as \<open>flag.Parse\<close> reads it.
  \<^item> \<open>Convergence\<close>: what a reconcile leaves on a server that nobody else writes to meanwhile.
    \<open>Lifecycle\<close>: the operator over its whole life, a transition system of reconciles, Secret
    and grant events, metrics reconciles, writes of others and restarts in any order.
    \<open>Stability\<close>: what happens after a completed reconcile while the spec stays as it is.
    \<open>Permissions\<close>: the RBAC markers, and the same transition system behind an API server that
    refuses what they do not grant.
  \<^item> \<open>Admission\<close>: the kubebuilder markers and CEL rules of \<open>api/v1alpha1\<close>, what the API server
    lets through to the operator.
  \<^item> \<open>GoHeap\<close> (memory, pointers, slices, maps and the statements of the generator), \<open>GoCopy\<close>
    (when a statement copies deeply), \<open>GoTypes\<close> (a descriptor per struct) and \<open>DeepCopy\<close>
    (\<open>zz_generated.deepcopy.go\<close>, all 42 types). Only there values have addresses; elsewhere a
    resource is its value, which is what these copies justify.

  State. A step takes and returns \<open>'w st\<close>: the world of the API server (any type, only the
  client changes it), the watch filter, and the log of what the operator did. Every write to the
  server, every event and every error count is an entry of the log with its outcome, so that a
  property about what a reconcile does, and in which order, is a property of
  \<open>new_log\<close>. Reads change the world only through the client and are not logged.
  Errors, early returns and skipped objects are branches of the definitions.

  Parameters. Code outside the repository is an argument: the Kubernetes client with the pure
  functions of \<open>controllerutil\<close> and \<open>meta\<close> (record \<open>client\<close>), Helm and the YAML
  decoder (\<open>helm_lib\<close>), \<open>crypto/tls\<close> and the OpenShift TLS library (\<open>tls_env\<close>), the
  scheme and REST mapper (\<open>kind_env\<close>), the flags of libraries and one product of floating-point
  numbers (\<open>flag_lib\<close>), and the order in which Go ranges over a map
  (\<open>r_visit\<close>; the order of rendered templates is that of the map \<open>lib_Render\<close> returns).
  What a theorem needs of them is a named hypothesis: \<open>owner_lib\<close>,
  \<open>condition_lib\<close>, \<open>echoes_identity\<close>, \<open>lists_what_is_asked\<close>,
  \<open>profile_library_ok\<close>, \<open>adds_own_types\<close>, \<open>undisturbed_server\<close> (lists are complete, an apply
  stores, a delete removes), \<open>steady_server\<close> (also, an apply that fails has stored the object or
  nothing), \<open>object_name\<close> (the namespace and name of a stored Secret have no slash; references
  may be any strings), \<open>copy_lib_ok\<close> (the
  \<open>DeepCopyInto\<close> of embedded Kubernetes structs copy), \<open>documented_names\<close> (the resource names of
  the kinds) and \<open>charts_managed\<close> (the charts keep to the managed kinds); each is shown of a concrete instance.

  What the lemmas show. Validation: the checks accept exactly the declarative rules, whatever
  the map order, and errors are true ones. Queues and charts: for an accepted spec the
  dispatcher consumes exactly the published queues, transports agree, SQL results are not shared.
  Every setting reaches the charts, apart from those \<open>Settings\<close> lists, and nothing else does.
  Secrets: a copy is made only under a grant, and a changed reference is refused. Reconcile: only
  rendered objects are applied, owned and namespaced; deletions come after all applies and
  spare what was applied; failures are recorded and classified. Status: readiness, events and
  conditions mean what they say. Startup and watches: what the
  command line sets, what a started operator has and sees,
  and where it does not see what it owns. Convergence: a completed reconcile makes the stored
  objects those of the spec, the next one deletes nothing, and this stays so while the spec does.
  Life cycle: every entry of the log was made by a step that the state before it justifies, for
  a copied Secret by the grants the server then had; the watch filter refines the set of
  references learned since the restart, and what becomes of a rotation is said exactly, lost
  ones included.
  Permissions: the generated role is enough for every run, and bounded where it matters.
  Admission: which of the operator's checks the schema already makes, and what the charts can
  rely on. Deep copies: each generated function copies, shares nothing and changes nothing.

  Interfaces are locales with interpretations on the code: \<open>map_ops\<close> (Go maps),
  \<open>queue_transport\<close> (Redis and SQL), \<open>pair_filter\<close> (the watch filter),
  \<open>workload\<close> (Deployments and StatefulSets), \<open>enough_rights\<close> (an authorizer that grants what the
  operator asks for, interpreted on the generated role).

  Bounds. All definitions are total and terminate; there is no fuel. The recursions that are
  not structural are \<open>blank\<close> and \<open>durationSum\<close>, which consume at least one byte per step, and
  \<open>parseArgs\<close>, which consumes an argument. A panic of the generated copies
  is \<open>None\<close>. Integers keep their width,
  and comparisons of Go's signed integers go through \<open>sint\<close>.

  Not modelled: log output, the wording of messages (their arguments are kept), the passing of
  time (a timeout is a client call that answers \<open>DeadlineExceeded\<close>), informer caches and
  work queues, concurrent reconciles (there is one worker; the filter's mutex makes each of its
  methods one step, and what an event in the middle of a reconcile meets is a lemma of
  \<open>Lifecycle\<close>), slice capacities, JSON and YAML encodings, the
  variables behind library flags, signals, the escalation check on Roles, the templates of the charts.
\<close>

section \<open>Errors that a started operator cannot produce\<close>

text \<open>
  Every error of a reconcile is a wrapped one, apart from the missing async renderer.
\<close>

definition wrapped :: "goerr \<Rightarrow> bool" where
  "wrapped e \<longleftrightarrow> (\<exists>ctx es. e = Wrap ctx es)"

lemma wrapped_Wrap [simp]: "wrapped (Wrap ctx es)" "\<not> wrapped (ErrNew m)"
  by (simp_all add: wrapped_def)

lemma map_sum_Inl: "map_sum id f x = Inl e \<longleftrightarrow> x = Inl e"
  by (cases x) auto

lemma wrapped_applyObjects: "applyObjects K gw objs s = (Inl e, s') \<Longrightarrow> wrapped e"
proof (induction objs arbitrary: s)
  case Nil
  then show ?case by simp
next
  case (Cons obj objs)
  then show ?case
    by (auto simp: Let_def map_sum_Inl split: sum.splits prod.splits if_splits)
qed

lemma wrapped_recordFailure: "recordFailure K gw f s = (Some e, s') \<Longrightarrow> wrapped e"
  by (auto simp: recordFailure_def Let_def split: prod.splits option.splits)

lemma wrapped_renderAll:
  "renderAll R gw n s = (Inl (res, Some e), s') \<Longrightarrow> r_AsyncHelmRenderer R \<noteq> None \<Longrightarrow> wrapped e"
  by (auto simp: renderAll_def failRender_def Let_def split: prod.splits option.splits sum.splits)

lemma wrapped_reconcileObjects: "reconcileObjects R gw objs s = ((res, Some e), s') \<Longrightarrow> wrapped e"
  by (auto simp: reconcileObjects_def split: prod.splits sum.splits option.splits
      dest: wrapped_applyObjects)

lemma wrapped_reconcileGateway:
  "reconcileGateway R gw s = ((res, Some e), s') \<Longrightarrow> r_AsyncHelmRenderer R \<noteq> None \<Longrightarrow> wrapped e"
  by (auto simp: reconcileGateway_def split: prod.splits sum.splits option.splits
      dest: wrapped_recordFailure wrapped_renderAll wrapped_reconcileObjects)

lemma wrapped_Reconcile:
  assumes "fst (Reconcile R ns name s) = (res, Some e)" and "r_AsyncHelmRenderer R \<noteq> None"
  shows "wrapped e"
proof -
  obtain s' where eq: "Reconcile R ns name s = ((res, Some e), s')"
    using assms(1) by (metis prod.collapse)
  show ?thesis
  proof (cases "k_GetGateway (r_Client R) ns name (st_world s)")
    case (Pair r w)
    show ?thesis
    proof (cases r)
      case (Inl x)
      with Pair Reconcile_absent [OF _ eq] show ?thesis by (simp split: if_splits)
    next
      case (Inr gw)
      with Pair Reconcile_existing [OF _ eq] assms(2) show ?thesis
        by (blast dest: wrapped_reconcileGateway)
    qed
  qed
qed

section \<open>Properties across components\<close>

text \<open>
  C24: every object a reconcile applies was sent from one that was rendered from charts that
  agree: both charts got the one resolved Secret name and the same transport, and the async
  chart got exactly the queues the models publish to, each once.
\<close>

theorem applied_objects_come_from_agreeing_charts:
  assumes "k_GetGateway (r_Client R) ns name (st_world s) = (Inr gw, w)"
    and "wf_gateway gw" and "set (r_visit R (gwModels gw)) = set (gwModels gw)"
    and "Applied x a \<in> set (new_log s (snd (Reconcile R ns name s)))"
  shows "\<exists>n h batchValues asyncValues batch async obj t queues names.
    fst (resolveSecret (r_Client R) gw (s\<lparr>st_world := w\<rparr>)) = Inr n \<and>
    r_AsyncHelmRenderer R = Some h \<and>
    batchValues = specToBatchHelmValues gw n (hr_images (r_BatchGWHelmRenderer R))
      (hr_tlsProfile (r_BatchGWHelmRenderer R)) \<and>
    asyncValues = specToAsyncHelmValues (r_unmarshal R) gw n (hr_images h) \<and>
    renderChart (r_helm R) (r_BatchGWHelmRenderer R) gw batchValues None = Inr batch \<and>
    renderChart (r_helm R) h gw asyncValues (Some labelAsyncComponent) = Inr async \<and>
    obj \<in> set (batch @ async) \<and> sent (r_Client R) gw obj x \<and>
    at (val.VMap batchValues) [''processor'', ''config'', ''asyncDispatch'', ''transport''] = Some (VStr t) \<and>
    at (val.VMap asyncValues) [''ap'', ''transport''] = Some (VStr t) \<and>
    at (val.VMap asyncValues) [''ap'', ''transportConfig'', ''queues''] = Some (VList queues) \<and>
    map (\<lambda>q. at q [''queue_name'']) queues = map (\<lambda>m. Some (VStr m)) names \<and>
    distinct names \<and> set names = publishedQueues gw"
proof -
  obtain res err s' where eq: "Reconcile R ns name s = ((res, err), s')" by (metis prod.collapse)
  with assms(4) have x: "Applied x a \<in> set (new_log s s')" by simp
  then obtain objs k where can: "canApply R gw (s\<lparr>st_world := w\<rparr>) objs"
    and l: "list_all2 (sent (r_Client R) gw) (take k objs) (map fst (applications (new_log s s')))"
    using Reconcile_writes [OF assms(1) eq] by metis
  from x have "x \<in> set (map fst (applications (new_log s s')))" by (force simp: applied_iff)
  with l obtain obj where "obj \<in> set (take k objs)" and sent: "sent (r_Client R) gw obj x"
    by (metis in_set_conv_nth list_all2_conv_all_nth)
  then have obj: "obj \<in> set objs" by (blast dest: in_set_takeD)
  from can obtain n where v: "validateSpec (r_visit R) gw = None"
    and n: "fst (resolveSecret (r_Client R) gw (s\<lparr>st_world := w\<rparr>)) = Inr n" and "renders R gw n objs"
    by (auto simp: canApply_def)
  then obtain h batch async where h: "r_AsyncHelmRenderer R = Some h"
    "renderChart (r_helm R) (r_BatchGWHelmRenderer R) gw (specToBatchHelmValues gw n
       (hr_images (r_BatchGWHelmRenderer R)) (hr_tlsProfile (r_BatchGWHelmRenderer R))) None = Inr batch"
    "renderChart (r_helm R) h gw (specToAsyncHelmValues (r_unmarshal R) gw n (hr_images h))
       (Some labelAsyncComponent) = Inr async" and "objs = batch @ async"
    unfolding renders_def RenderBatchChart_def RenderAsyncChart_def by blast
  with obj have obj: "obj \<in> set (batch @ async)" by simp
  have valid: "valid_spec gw" using v validateSpec_None [OF assms(2), of "r_visit R"] assms(3) by simp
  note chart = transports_same [OF valid, unfolded batchAt_def asyncAt_def]
    queues_match [OF assms(2) valid, unfolded asyncAt_def]
  obtain t where t: "at (val.VMap (specToBatchHelmValues gw n
       (hr_images (r_BatchGWHelmRenderer R)) (hr_tlsProfile (r_BatchGWHelmRenderer R))))
      [''processor'', ''config'', ''asyncDispatch'', ''transport''] = Some (VStr t)"
    "at (val.VMap (specToAsyncHelmValues (r_unmarshal R) gw n (hr_images h))) [''ap'', ''transport''] = Some (VStr t)"
    using chart(1) by blast
  obtain queues names where
    q: "at (val.VMap (specToAsyncHelmValues (r_unmarshal R) gw n (hr_images h)))
        [''ap'', ''transportConfig'', ''queues''] = Some (VList queues)"
    "map (\<lambda>q. at q [''queue_name'']) queues = map (\<lambda>m. Some (VStr m)) names"
    "distinct names" "set names = publishedQueues gw"
    using chart(2) by blast
  show ?thesis
    by (intro exI conjI) (fact n h obj sent t q refl)+
qed

text \<open>
  The reconciler of an operator that has started never fails for want of an async renderer:
  every error it returns is a wrapped error of a step.
\<close>

lemma started_operator_never_lacks_renderer:
  assumes "startOperator env fl = Inr op"
    and "fst (Reconcile (op_Reconciler op) ns name s) = (res, Some e)"
  shows "wrapped e"
proof -
  obtain tlsResult images tls skipped h1 h2 mgr where "registerAll env fl mgr tlsResult h1 h2 = Inr op"
    by (rule startOperator_Inr [OF assms(1)])
  then have "r_AsyncHelmRenderer (op_Reconciler op) = Some h2"
    by (simp add: registerAll_Inr NewLLMBatchGatewayReconciler_def)
  then show ?thesis using wrapped_Reconcile [OF assms(2)] by simp
qed

section \<open>Witnesses\<close>

theorem applied_objects_come_from_agreeing_charts_witness:
  "\<exists>queues names. asyncAt (\<lambda>_. None) redisGateway ''creds'' sampleImages
      [''ap'', ''transportConfig'', ''queues''] = Some (VList queues) \<and>
    map (\<lambda>q. at q [''queue_name'']) queues = map (\<lambda>m. Some (VStr m)) names \<and>
    set names = publishedQueues redisGateway"
proof -
  obtain x where x: "Applied x None \<in> set (new_log runState
      (snd (Reconcile sampleReconciler ''apps'' ''gw'' runState)))"
    using run_results(3) by blast
  have visit: "set (r_visit sampleReconciler (gwModels redisGateway)) = set (gwModels redisGateway)"
    by simp
  have "secretNamespace redisGateway = gw_Namespace redisGateway" by (simp add: secretNamespace_def)
  then have "fst (resolveSecret (r_Client sampleReconciler) redisGateway
      (runState\<lparr>st_world := st_world runState\<rparr>)) = Inr ''creds''"
    by (simp add: resolve_same_namespace)
  moreover have "r_unmarshal sampleReconciler = (\<lambda>_. None)"
    by (simp add: sampleReconciler_def NewLLMBatchGatewayReconciler_def)
  moreover have "hr_images sampleRenderer = sampleImages" by (simp add: sampleRenderer_def)
  ultimately show ?thesis
    using applied_objects_come_from_agreeing_charts [OF cluster_get_run wf_samples(1) visit x]
    by (auto simp: asyncAt_def simp del: at.simps)
qed

text \<open>A started operator on a server that cannot be reached.\<close>

definition downClient :: "cluster client" where
  "downClient = clusterClient\<lparr>k_GetGateway := (\<lambda>ns name w. (Inl ServiceUnavailable, w))\<rparr>"

lemma started_operator_never_lacks_renderer_example:
  "\<exists>op res e. startOperator (sampleEnv\<lparr>me_client := downClient\<rparr>) defaultFlags = Inr op \<and>
     fst (Reconcile (op_Reconciler op) ''apps'' ''gw'' runState) = (res, Some e) \<and> wrapped e"
proof -
  have "\<exists>op. startOperator (sampleEnv\<lparr>me_client := downClient\<rparr>) defaultFlags = Inr op \<and>
      r_Client (op_Reconciler op) = downClient"
    by (simp add: startOperator_def sampleEnv_def orExit_def Resolve_def Let_def ProfileValuesFromSpec_def
        VersionTLS12_def componentImagesFromEnv_def requiredImages_def envImageAPIServer_def
        envImageProcessor_def envImageGC_def envImageAsync_def NewHelmRenderer_def sampleLib_def
        registerAll_def NewLLMBatchGatewayReconciler_def registerMetrics_def SetupWatcher_def)
  then obtain op where op: "startOperator (sampleEnv\<lparr>me_client := downClient\<rparr>) defaultFlags = Inr op"
    and c: "r_Client (op_Reconciler op) = downClient" by blast
  have "fst (Reconcile (op_Reconciler op) ''apps'' ''gw'' runState)
      = (noResult, Some (Wrap [''fetching LLMBatchGateway''] [ErrApi ServiceUnavailable]))"
    by (simp add: Reconcile_def reconcile_def call_def c) (simp add: downClient_def)
  with started_operator_never_lacks_renderer [OF op this] op show ?thesis by blast
qed

end
